(* ===== verification/Prelude.thy ===== *)
theory Prelude
  imports Main "HOL-Library.Sublist" "HOL-Library.Multiset"
begin

text \<open>
  Shared ground of the development: Python's \<open>str\<close> as a list of code points, its substring
  operations (\<open>find\<close>, \<open>in\<close>, \<open>count\<close>, \<open>replace\<close>, \<open>join\<close>), exceptions as values of a sum type,
  and the lemmas on first occurrences that every parser and patcher proof uses.
\<close>

named_theorems pystr_simps \<open>rewrite rules for the Python string operations\<close>
named_theorems exc_simps \<open>rewrite rules for the exception monad\<close>

section \<open>Strings\<close>

text \<open>
  A Python string is a sequence of Unicode code points; the special tokens of the encoder use
  code points above 255, which \<open>char\<close> does not hold.
\<close>

type_synonym pystr = "int list"

definition lit :: "string \<Rightarrow> pystr" where
  "lit s = map of_char s"

lemma lit_Nil [simp]: "lit [] = []"
  by (simp add: lit_def)

lemma lit_Cons: "lit (c # cs) = of_char c # lit cs"
  by (simp add: lit_def)

lemma length_lit [simp]: "length (lit s) = length s"
  by (simp add: lit_def)

subsection \<open>Substring search\<close>

text \<open>\<open>find_sub s t\<close> is the lowest offset at which \<open>s\<close> occurs in \<open>t\<close> (\<open>None\<close> for Python's -1).\<close>

fun find_sub :: "'a list \<Rightarrow> 'a list \<Rightarrow> nat option" where
  "find_sub s [] = (if s = [] then Some 0 else None)"
| "find_sub s (c # t) = (if prefix s (c # t) then Some 0 else map_option Suc (find_sub s t))"

text \<open>\<open>text.find(s, i)\<close>: a start beyond the end finds nothing, not even the empty string.\<close>

definition py_find :: "'a list \<Rightarrow> 'a list \<Rightarrow> nat \<Rightarrow> nat option" where
  "py_find s t i = (if length t < i then None else map_option (\<lambda>p. i + p) (find_sub s (drop i t)))"

text \<open>\<open>s in t\<close>.\<close>

abbreviation py_in :: "'a list \<Rightarrow> 'a list \<Rightarrow> bool" where
  "py_in s t \<equiv> find_sub s t \<noteq> None"

text \<open>\<open>sep.join(xs)\<close>.\<close>

fun py_join :: "'a list \<Rightarrow> 'a list list \<Rightarrow> 'a list" where
  "py_join sep [] = []"
| "py_join sep [x] = x"
| "py_join sep (x # y # xs) = x @ sep @ py_join sep (y # xs)"

text \<open>\<open>t.count(s)\<close> counts non-overlapping occurrences from the left.\<close>

function count_sub :: "'a list \<Rightarrow> 'a list \<Rightarrow> nat" where
  "count_sub s t =
     (if s = [] then Suc (length t)
      else case find_sub s t of
             None \<Rightarrow> 0
           | Some p \<Rightarrow> (if length t < p + length s then 0
                        else Suc (count_sub s (drop (p + length s) t))))"
  by pat_completeness auto
termination
  by (relation "measure (\<lambda>(s, t). length t)") (auto simp: length_greater_0_conv[symmetric] simp del: length_greater_0_conv)

declare count_sub.simps [simp del]

text \<open>\<open>t.replace(old, new, 1)\<close>.\<close>

definition replace1 :: "'a list \<Rightarrow> 'a list \<Rightarrow> 'a list \<Rightarrow> 'a list" where
  "replace1 old new t =
     (case find_sub old t of
        None \<Rightarrow> t
      | Some p \<Rightarrow> take p t @ new @ drop (p + length old) t)"

subsection \<open>First occurrences\<close>

lemma find_sub_Some:
  "find_sub s t = Some p \<Longrightarrow>
     prefix s (drop p t) \<and> p + length s \<le> length t \<and> (\<forall>q < p. \<not> prefix s (drop q t))"
proof (induction t arbitrary: p)
  case Nil
  then show ?case by (simp split: if_splits)
next
  case (Cons c t)
  show ?case
  proof (cases "prefix s (c # t)")
    case True
    with Cons.prems have "p = 0" by simp
    with True show ?thesis by (auto dest: prefix_length_le)
  next
    case False
    with Cons.prems obtain q where q: "p = Suc q" "find_sub s t = Some q" by auto
    from Cons.IH [OF q(2)] q(1) False show ?thesis
      by (auto simp: less_Suc_eq_0_disj)
  qed
qed

lemma find_subI:
  "prefix s (drop p t) \<Longrightarrow> p \<le> length t \<Longrightarrow> (\<And>q. q < p \<Longrightarrow> \<not> prefix s (drop q t)) \<Longrightarrow>
     find_sub s t = Some p"
proof (induction t arbitrary: p)
  case Nil
  then show ?case by simp
next
  case (Cons c t)
  show ?case
  proof (cases p)
    case 0
    with Cons.prems show ?thesis by simp
  next
    case (Suc q)
    have "find_sub s t = Some q"
    proof (rule Cons.IH)
      show "\<not> prefix s (drop r t)" if "r < q" for r
        using Cons.prems(3) [of "Suc r"] that Suc by simp
    qed (use Cons.prems Suc in auto)
    moreover have "\<not> prefix s (c # t)" using Cons.prems(3) [of 0] Suc by simp
    ultimately show ?thesis using Suc by simp
  qed
qed

lemma find_sub_NoneD: "find_sub s t = None \<Longrightarrow> \<not> prefix s (drop q t)"
proof (induction t arbitrary: q)
  case Nil
  then show ?case by (simp split: if_splits)
next
  case (Cons c t)
  then show ?case by (cases q) (auto split: if_splits)
qed

lemma find_sub_None_iff: "find_sub s t = None \<longleftrightarrow> \<not> sublist s t"
proof
  assume n: "find_sub s t = None"
  show "\<not> sublist s t"
  proof
    assume "sublist s t"
    then obtain xs ys where "t = xs @ s @ ys" by (auto simp: sublist_def)
    then have "prefix s (drop (length xs) t)" by simp
    with find_sub_NoneD [OF n] show False by blast
  qed
next
  assume ns: "\<not> sublist s t"
  show "find_sub s t = None"
  proof (rule ccontr)
    assume "find_sub s t \<noteq> None"
    then obtain p where "find_sub s t = Some p" by auto
    then have "prefix s (drop p t)" by (blast dest: find_sub_Some)
    then obtain ys where "drop p t = s @ ys" by (auto simp: prefix_def)
    then have "t = take p t @ s @ ys" by (metis append_take_drop_id)
    with ns show False by (metis sublist_appendI)
  qed
qed

lemma py_in_iff: "py_in s t \<longleftrightarrow> sublist s t"
  by (simp add: find_sub_None_iff)

text \<open>
  \<open>no_overlap t s\<close>: no proper, non-empty tail of \<open>t\<close> agrees with the beginning of \<open>s\<close>. Then an
  occurrence of \<open>t\<close> in \<open>body @ s @ rest\<close> cannot start inside \<open>body\<close> and run into \<open>s\<close>.
\<close>

definition no_overlap :: "'a list \<Rightarrow> 'a list \<Rightarrow> bool" where
  "no_overlap t s \<longleftrightarrow>
     list_all (\<lambda>k. \<not> prefix (drop k t) s \<and> \<not> prefix s (drop k t)) [1..<length t]"

lemma no_overlap_occ:
  assumes "no_overlap t s" and "\<not> sublist t body" and "q < length body"
  shows "\<not> prefix t (drop q (body @ s @ rest))"
proof
  assume "prefix t (drop q (body @ s @ rest))"
  then have p: "prefix t (drop q body @ s @ rest)" using assms(3) by simp
  show False
  proof (cases "length t \<le> length (drop q body)")
    case True
    have "prefix (drop q body) (drop q body @ s @ rest)" by simp
    from prefix_length_prefix [OF p this True] have "prefix t (drop q body)" .
    then obtain ys where "drop q body = t @ ys" by (auto simp: prefix_def)
    then have "body = take q body @ t @ ys" by (metis append_take_drop_id)
    with assms(2) show False by (metis sublist_appendI)
  next
    case False
    let ?k = "length (drop q body)"
    from p obtain ys where e: "drop q body @ s @ rest = t @ ys" by (auto simp: prefix_def)
    then have "drop ?k (drop q body @ s @ rest) = drop ?k (t @ ys)" by (rule arg_cong)
    then have "s @ rest = drop ?k t @ ys" using False by simp
    then have "prefix (drop ?k t) s \<or> prefix s (drop ?k t)"
      by (metis prefix_def prefix_same_cases)
    moreover have "?k \<in> set [1..<length t]" using False assms(3) by simp
    ultimately show False using assms(1) unfolding no_overlap_def list_all_iff by blast
  qed
qed

lemma find_sub_append_hit:
  assumes "no_overlap s s" and "\<not> sublist s body"
  shows "find_sub s (body @ s @ rest) = Some (length body)"
proof (rule find_subI)
  show "\<not> prefix s (drop q (body @ s @ rest))" if "q < length body" for q
    using assms that by (rule no_overlap_occ)
qed simp_all

lemma find_sub_append_ge:
  assumes "no_overlap t s" and "\<not> sublist t body" and "\<not> prefix t (s @ rest)"
    and "find_sub t (body @ s @ rest) = Some p"
  shows "length body < p"
proof (rule ccontr)
  assume "\<not> length body < p"
  moreover have "prefix t (drop p (body @ s @ rest))" using assms(4) by (blast dest: find_sub_Some)
  ultimately show False
    using no_overlap_occ [OF assms(1,2)] assms(3) by (cases "p = length body") auto
qed

section \<open>Dicts\<close>

text \<open>A Python dict as the list of its items in insertion order.\<close>

text \<open>Assignment \<open>d[k] = v\<close>: an existing key keeps its place.\<close>

fun dict_put :: "'k \<Rightarrow> 'v \<Rightarrow> ('k \<times> 'v) list \<Rightarrow> ('k \<times> 'v) list" where
  "dict_put k v [] = [(k, v)]"
| "dict_put k v ((k', v') # d) = (if k = k' then (k, v) # d else (k', v') # dict_put k v d)"

definition dict_of :: "('k \<times> 'v) list \<Rightarrow> ('k \<times> 'v) list" where
  "dict_of kvs = foldl (\<lambda>d (k, v). dict_put k v d) [] kvs"

lemma dict_put_fresh: "k \<notin> fst ` set d \<Longrightarrow> dict_put k v d = d @ [(k, v)]"
  by (induction k v d rule: dict_put.induct) auto

lemma fst_dict_put: "fst ` set (dict_put k v d) = insert k (fst ` set d)"
  by (induction k v d rule: dict_put.induct) auto

lemma dict_put_distinct: "distinct (map fst d) \<Longrightarrow> distinct (map fst (dict_put k v d))"
  by (induction k v d rule: dict_put.induct) (auto simp: fst_dict_put)

lemma dict_put_lookup: "map_of (dict_put k v d) = (map_of d)(k \<mapsto> v)"
  by (induction k v d rule: dict_put.induct) (auto simp: fun_eq_iff)

lemma foldl_dict_put_distinct:
  "distinct (map fst (d @ kvs)) \<Longrightarrow> foldl (\<lambda>d (k, v). dict_put k v d) d kvs = d @ kvs"
proof (induction kvs arbitrary: d)
  case (Cons kv kvs)
  obtain k v where kv: "kv = (k, v)" by (cases kv)
  with Cons.prems have "k \<notin> fst ` set d" by (auto simp: image_iff)
  then have "dict_put k v d = d @ [(k, v)]" by (rule dict_put_fresh)
  with Cons.IH [of "d @ [(k, v)]"] Cons.prems kv show ?case by simp
qed simp

lemma dict_of_distinct: "distinct (map fst kvs) \<Longrightarrow> dict_of kvs = kvs"
  using foldl_dict_put_distinct [of "[]" kvs] by (simp add: dict_of_def)

text \<open>\<open>d.pop(k, None)\<close> and \<open>del d[k]\<close>, on the items that stay.\<close>

definition dict_del :: "'k \<Rightarrow> ('k \<times> 'v) list \<Rightarrow> ('k \<times> 'v) list" where
  "dict_del k d = filter (\<lambda>kv. fst kv \<noteq> k) d"

lemma dict_del_keys: "map fst (dict_del k d) = filter (\<lambda>x. x \<noteq> k) (map fst d)"
  by (induction d) (auto simp: dict_del_def)

lemma dict_del_fresh: "k \<notin> set (map fst d) \<Longrightarrow> dict_del k d = d"
  by (induction d) (auto simp: dict_del_def)

section \<open>Exceptions\<close>

text \<open>
  The exceptions the modelled code raises or lets escape. \<open>FuelExhausted\<close> is none of Python's: it is
  the value of a bounded recursion whose bound was too small, and is shown not to occur.
\<close>

datatype pyexc =
    ValueError | AssertionError | KeyError | TypeError | AttributeError | IndexError
  | NotImplementedError | RuntimeError | ZeroDivisionError | StopIteration | OSError | FileNotFoundError
  | SystemExit | SyntaxError | FuelExhausted

type_synonym 'a res = "pyexc + 'a"

definition bindE :: "'e + 'a \<Rightarrow> ('a \<Rightarrow> 'e + 'b) \<Rightarrow> 'e + 'b" where
  "bindE m f = (case m of Inl e \<Rightarrow> Inl e | Inr x \<Rightarrow> f x)"

lemma bindE_Inl [simp]: "bindE (Inl e) f = Inl e"
  and bindE_Inr [simp]: "bindE (Inr x) f = f x"
  by (simp_all add: bindE_def)

lemma bindE_eq_Inr [exc_simps]: "bindE m f = Inr y \<longleftrightarrow> (\<exists>x. m = Inr x \<and> f x = Inr y)"
  by (cases m) auto

lemma bindE_cong [fundef_cong]:
  "m = m' \<Longrightarrow> (\<And>x. m' = Inr x \<Longrightarrow> f x = f' x) \<Longrightarrow> bindE m f = bindE m' f'"
  by (cases m') auto

definition assertE :: "bool \<Rightarrow> unit res" where
  "assertE b = (if b then Inr () else Inl AssertionError)"

lemma assertE_eq_Inr [exc_simps]: "assertE b = Inr x \<longleftrightarrow> b"
  by (simp add: assertE_def)

lemma assertE_True [simp]: "assertE True = Inr ()"
  and assertE_False [simp]: "assertE False = Inl AssertionError"
  by (simp_all add: assertE_def)

text \<open>A list comprehension whose element expression may raise.\<close>

fun mapE :: "('a \<Rightarrow> 'e + 'b) \<Rightarrow> 'a list \<Rightarrow> 'e + 'b list" where
  "mapE f [] = Inr []"
| "mapE f (x # xs) = bindE (f x) (\<lambda>y. bindE (mapE f xs) (\<lambda>ys. Inr (y # ys)))"

lemma mapE_total: "(\<And>x. x \<in> set xs \<Longrightarrow> f x = Inr (g x)) \<Longrightarrow> mapE f xs = Inr (map g xs)"
  by (induction xs) auto

lemma mapE_Inr_length: "mapE f xs = Inr ys \<Longrightarrow> length ys = length xs"
  by (induction xs arbitrary: ys) (auto simp: exc_simps)

lemma mapE_ex_total: "(\<forall>x \<in> set xs. \<exists>y. f x = Inr y) \<Longrightarrow> \<exists>ys. mapE f xs = Inr ys"
proof (induction xs)
  case (Cons x xs)
  then obtain y ys where "f x = Inr y" "mapE f xs = Inr ys" by auto
  then show ?case by simp
qed simp

text \<open>A loop whose body may raise.\<close>

fun foldE :: "('x \<Rightarrow> 's \<Rightarrow> 's res) \<Rightarrow> 'x list \<Rightarrow> 's \<Rightarrow> 's res" where
  "foldE f [] s = Inr s"
| "foldE f (x # xs) s = bindE (f x s) (foldE f xs)"

text \<open>\<open>xs[i]\<close>: a negative index counts from the end.\<close>

definition py_nth :: "'a list \<Rightarrow> int \<Rightarrow> 'a res" where
  "py_nth xs i =
     (if 0 \<le> i \<and> i < int (length xs) then Inr (xs ! nat i)
      else if i < 0 \<and> 0 \<le> int (length xs) + i then Inr (xs ! nat (int (length xs) + i))
      else Inl IndexError)"

end
