(* ===== verification/PyJson.thy ===== *)
theory PyJson
  imports Prelude
begin

text \<open>
  Python's \<open>json\<close> module as the encoder uses it: \<open>json.dumps(value, ensure_ascii=False)\<close> with the
  default separators, and \<open>json.loads(text)\<close>. A float is represented by the text \<open>json.dumps\<close>
  writes for it; rounding a float literal to that text is the parameter \<open>fl\<close> of the reader. The
  reader follows \<open>json.decoder\<close> and \<open>json.scanner\<close>; its fuel bounds the recursion, and
  \<open>parse_value_enough\<close> shows that the fuel \<open>json_loads\<close> supplies never runs out. Integers beyond
  Python's 4300-digit conversion limit are not distinguished.
\<close>

section \<open>Values\<close>

datatype json =
    JNull
  | JBool bool
  | JInt int
  | JFloat pystr
  | JStr pystr
  | JArr "json list"
  | JObj "(pystr \<times> json) list"

section \<open>Writing\<close>

function nat_digits :: "nat \<Rightarrow> pystr" where
  "nat_digits n = (if n < 10 then [48 + int n] else nat_digits (n div 10) @ [48 + int (n mod 10)])"
  by pat_completeness auto
termination
  by (relation "measure id") auto

declare nat_digits.simps [simp del]

definition int_repr :: "int \<Rightarrow> pystr" where
  "int_repr i = (if i < 0 then 45 # nat_digits (nat (- i)) else nat_digits (nat i))"

definition hex_digit :: "int \<Rightarrow> int" where
  "hex_digit d = (if d < 10 then 48 + d else 87 + d)"

definition hex4_repr :: "int \<Rightarrow> pystr" where
  "hex4_repr c =
     [hex_digit (c div 4096 mod 16), hex_digit (c div 256 mod 16),
      hex_digit (c div 16 mod 16), hex_digit (c mod 16)]"

text \<open>\<open>py_encode_basestring\<close>: only the quote, the backslash and control characters are escaped.\<close>

definition esc_char :: "int \<Rightarrow> pystr" where
  "esc_char c =
     (if c = 34 then [92, 34]
      else if c = 92 then [92, 92]
      else if c = 10 then [92, 110]
      else if c = 13 then [92, 114]
      else if c = 9 then [92, 116]
      else if c = 12 then [92, 102]
      else if c = 8 then [92, 98]
      else if c < 32 then [92, 117] @ hex4_repr c
      else [c])"

definition json_str :: "pystr \<Rightarrow> pystr" where
  "json_str s = 34 # concat (map esc_char s) @ [34]"

lemma size_snd_in_list [termination_simp]:
  "(k, v) \<in> set kvs \<Longrightarrow> size v < Suc (size_list (size_prod (\<lambda>_. 0) size) kvs)"
  by (induction kvs) auto

fun json_dumps :: "json \<Rightarrow> pystr" where
  "json_dumps JNull = lit ''null''"
| "json_dumps (JBool b) = (if b then lit ''true'' else lit ''false'')"
| "json_dumps (JInt i) = int_repr i"
| "json_dumps (JFloat r) = r"
| "json_dumps (JStr s) = json_str s"
| "json_dumps (JArr vs) = [91] @ py_join [44, 32] (map json_dumps vs) @ [93]"
| "json_dumps (JObj kvs) =
     [123] @ py_join [44, 32] (map (\<lambda>(k, v). json_str k @ [58, 32] @ json_dumps v) kvs) @ [125]"

section \<open>Reading\<close>

definition is_digit :: "int \<Rightarrow> bool" where
  "is_digit c \<longleftrightarrow> 48 \<le> c \<and> c \<le> 57"

definition hex_value :: "int \<Rightarrow> int option" where
  "hex_value c =
     (if 48 \<le> c \<and> c \<le> 57 then Some (c - 48)
      else if 97 \<le> c \<and> c \<le> 102 then Some (c - 87)
      else if 65 \<le> c \<and> c \<le> 70 then Some (c - 55)
      else None)"

text \<open>Four hexadecimal digits after \<open>\u\<close>.\<close>

fun hex4 :: "pystr \<Rightarrow> (int \<times> pystr) option" where
  "hex4 (a # b # c # d # t) =
     (case (hex_value a, hex_value b, hex_value c, hex_value d) of
        (Some w, Some x, Some y, Some z) \<Rightarrow> Some (4096 * w + 256 * x + 16 * y + z, t)
      | _ \<Rightarrow> None)"
| "hex4 _ = None"

lemma hex4_length: "hex4 s = Some (x, t) \<Longrightarrow> length s = length t + 4"
  by (induction s rule: hex4.induct) (auto split: option.splits)

definition simple_escape :: "int \<Rightarrow> int option" where
  "simple_escape e =
     (if e = 34 then Some 34 else if e = 92 then Some 92 else if e = 47 then Some 47
      else if e = 98 then Some 8 else if e = 102 then Some 12 else if e = 110 then Some 10
      else if e = 114 then Some 13 else if e = 116 then Some 9 else None)"

text \<open>
  One escape sequence after its backslash: the character it stands for and the rest. A high
  surrogate is joined with the low surrogate escape that follows it.
\<close>

definition scan_escape :: "pystr \<Rightarrow> (int \<times> pystr) option" where
  "scan_escape t =
     (case t of
        [] \<Rightarrow> None
      | e # t2 \<Rightarrow>
          if e = 117 then
            (case hex4 t2 of
               None \<Rightarrow> None
             | Some (x, t3) \<Rightarrow>
                 if 55296 \<le> x \<and> x \<le> 56319 \<and> prefix [92, 117] t3 then
                   (case hex4 (drop 2 t3) of
                      None \<Rightarrow> None
                    | Some (y, t4) \<Rightarrow>
                        if 56320 \<le> y \<and> y \<le> 57343
                        then Some (65536 + (x - 55296) * 1024 + (y - 56320), t4)
                        else Some (x, t3))
                 else Some (x, t3))
          else map_option (\<lambda>c. (c, t2)) (simple_escape e))"

lemma scan_escape_length: "scan_escape t = Some (c, t') \<Longrightarrow> length t' < length t"
  by (auto simp: scan_escape_def split: list.splits option.splits if_splits
      dest!: hex4_length prefix_length_le)

text \<open>\<open>py_scanstring\<close> with \<open>strict=True\<close>, after the opening quote.\<close>

function scan_string :: "pystr \<Rightarrow> (pystr \<times> pystr) option" where
  "scan_string [] = None"
| "scan_string (c # t) =
     (if c = 34 then Some ([], t)
      else if c = 92 then
        (case scan_escape t of
           None \<Rightarrow> None
         | Some (d, t') \<Rightarrow> map_option (\<lambda>(x, r). (d # x, r)) (scan_string t'))
      else if c < 32 then None
      else map_option (\<lambda>(x, r). (c # x, r)) (scan_string t))"
  by pat_completeness auto
termination
  by (relation "measure length") (auto dest: scan_escape_length)

definition is_ws :: "int \<Rightarrow> bool" where
  "is_ws c \<longleftrightarrow> c = 32 \<or> c = 9 \<or> c = 10 \<or> c = 13"

definition skip_ws :: "pystr \<Rightarrow> pystr" where
  "skip_ws s = dropWhile is_ws s"

text \<open>\<open>NUMBER_RE\<close>: an integer part, an optional fraction and an optional exponent.\<close>

definition lex_int :: "pystr \<Rightarrow> (pystr \<times> pystr) option" where
  "lex_int s =
     (let neg = prefix [45] s; s1 = (if neg then drop 1 s else s); sg = (if neg then [45] else [])
      in case s1 of
           [] \<Rightarrow> None
         | c # t \<Rightarrow>
             if c = 48 then Some (sg @ [48], t)
             else if is_digit c then Some (sg @ c # takeWhile is_digit t, dropWhile is_digit t)
             else None)"

definition lex_frac :: "pystr \<Rightarrow> pystr \<times> pystr" where
  "lex_frac s =
     (case s of
        [] \<Rightarrow> ([], [])
      | c # t \<Rightarrow> if c = 46 \<and> takeWhile is_digit t \<noteq> []
                  then (46 # takeWhile is_digit t, dropWhile is_digit t) else ([], s))"

definition lex_exp :: "pystr \<Rightarrow> pystr \<times> pystr" where
  "lex_exp s =
     (case s of
        [] \<Rightarrow> ([], [])
      | c # t \<Rightarrow>
          if c = 101 \<or> c = 69 then
            (let sg = (if prefix [43] t \<or> prefix [45] t then take 1 t else []);
                 t1 = drop (length sg) t
             in if takeWhile is_digit t1 \<noteq> []
                then (c # sg @ takeWhile is_digit t1, dropWhile is_digit t1) else ([], s))
          else ([], s))"

definition digits_value :: "pystr \<Rightarrow> int" where
  "digits_value ds = foldl (\<lambda>a c. 10 * a + (c - 48)) 0 ds"

definition int_of_lexeme :: "pystr \<Rightarrow> int" where
  "int_of_lexeme s = (if prefix [45] s then - digits_value (drop 1 s) else digits_value s)"

definition parse_number :: "(pystr \<Rightarrow> pystr) \<Rightarrow> pystr \<Rightarrow> (json \<times> pystr) option" where
  "parse_number fl s =
     (case lex_int s of
        None \<Rightarrow> None
      | Some (i, r) \<Rightarrow>
          (let (f, r1) = lex_frac r; (e, r2) = lex_exp r1
           in if f = [] \<and> e = [] then Some (JInt (int_of_lexeme i), r2)
              else Some (JFloat (fl (i @ f @ e)), r2)))"

text \<open>The scalars \<open>scan_once\<close> recognises by their first character.\<close>

definition parse_scalar :: "(pystr \<Rightarrow> pystr) \<Rightarrow> pystr \<Rightarrow> (json \<times> pystr) option" where
  "parse_scalar fl s =
     (if prefix (lit ''null'') s then Some (JNull, drop 4 s)
      else if prefix (lit ''true'') s then Some (JBool True, drop 4 s)
      else if prefix (lit ''false'') s then Some (JBool False, drop 5 s)
      else case parse_number fl s of
             Some x \<Rightarrow> Some x
           | None \<Rightarrow>
               if prefix (lit ''NaN'') s then Some (JFloat (lit ''NaN''), drop 3 s)
               else if prefix (lit ''Infinity'') s then Some (JFloat (lit ''Infinity''), drop 8 s)
               else if prefix (lit ''-Infinity'') s then Some (JFloat (lit ''-Infinity''), drop 9 s)
               else None)"

fun parse_value :: "(pystr \<Rightarrow> pystr) \<Rightarrow> nat \<Rightarrow> pystr \<Rightarrow> (json \<times> pystr) option"
  and parse_elems :: "(pystr \<Rightarrow> pystr) \<Rightarrow> nat \<Rightarrow> pystr \<Rightarrow> (json list \<times> pystr) option"
  and parse_members :: "(pystr \<Rightarrow> pystr) \<Rightarrow> nat \<Rightarrow> pystr \<Rightarrow> ((pystr \<times> json) list \<times> pystr) option"
where
  "parse_value fl 0 s = None"
| "parse_value fl (Suc n) s =
     (case s of
        [] \<Rightarrow> None
      | c # t \<Rightarrow>
          if c = 34 then map_option (\<lambda>(x, r). (JStr x, r)) (scan_string t)
          else if c = 123 then
            (if prefix [125] (skip_ws t) then Some (JObj [], drop 1 (skip_ws t))
             else map_option (\<lambda>(kvs, r). (JObj (dict_of kvs), r)) (parse_members fl n (skip_ws t)))
          else if c = 91 then
            (if prefix [93] (skip_ws t) then Some (JArr [], drop 1 (skip_ws t))
             else map_option (\<lambda>(vs, r). (JArr vs, r)) (parse_elems fl n (skip_ws t)))
          else parse_scalar fl s)"
| "parse_elems fl 0 s = None"
| "parse_elems fl (Suc n) s =
     (case parse_value fl n s of
        None \<Rightarrow> None
      | Some (v, r) \<Rightarrow>
          (case skip_ws r of
             [] \<Rightarrow> None
           | d # t \<Rightarrow>
               if d = 93 then Some ([v], t)
               else if d = 44 then
                 map_option (\<lambda>(vs, r'). (v # vs, r')) (parse_elems fl n (skip_ws t))
               else None))"
| "parse_members fl 0 s = None"
| "parse_members fl (Suc n) s =
     (case s of
        [] \<Rightarrow> None
      | q # t \<Rightarrow>
          if q \<noteq> 34 then None
          else case scan_string t of
                 None \<Rightarrow> None
               | Some (k, r) \<Rightarrow>
                   if \<not> prefix [58] (skip_ws r) then None
                   else case parse_value fl n (skip_ws (drop 1 (skip_ws r))) of
                          None \<Rightarrow> None
                        | Some (v, r2) \<Rightarrow>
                            (case skip_ws r2 of
                               [] \<Rightarrow> None
                             | d # t2 \<Rightarrow>
                                 if d = 125 then Some ([(k, v)], t2)
                                 else if d = 44 then
                                   map_option (\<lambda>(kvs, r'). ((k, v) # kvs, r'))
                                     (parse_members fl n (skip_ws t2))
                                 else None))"

definition json_loads :: "(pystr \<Rightarrow> pystr) \<Rightarrow> pystr \<Rightarrow> json res" where
  "json_loads fl s =
     (if prefix [65279] s then Inl ValueError
      else case parse_value fl (2 * length s + 2) (skip_ws s) of
             None \<Rightarrow> Inl ValueError
           | Some (v, r) \<Rightarrow> if skip_ws r = [] then Inr v else Inl ValueError)"

section \<open>Reading back what was written\<close>

subsection \<open>Numbers\<close>

lemma nat_digits_is_digit: "\<forall>c \<in> set (nat_digits n). is_digit c"
proof (induction n rule: nat_digits.induct)
  case (1 n)
  then show ?case by (subst nat_digits.simps) (auto simp: is_digit_def)
qed

lemma nat_digits_neq_Nil [simp]: "nat_digits n \<noteq> []"
  by (subst nat_digits.simps) simp

lemma hd_nat_digits: "0 < n \<Longrightarrow> hd (nat_digits n) \<noteq> 48"
proof (induction n rule: nat_digits.induct)
  case (1 n)
  then show ?case by (subst nat_digits.simps) (auto simp: hd_append)
qed

lemma nat_digits_0: "nat_digits 0 = [48]"
  by (subst nat_digits.simps) simp

lemma digits_value_snoc: "digits_value (ds @ [c]) = 10 * digits_value ds + (c - 48)"
  by (simp add: digits_value_def)

lemma digits_value_nat_digits: "digits_value (nat_digits n) = int n"
proof (induction n rule: nat_digits.induct)
  case (1 n)
  show ?case
  proof (cases "n < 10")
    case True
    then show ?thesis by (subst nat_digits.simps) (simp add: digits_value_def)
  next
    case False
    with 1 have "digits_value (nat_digits (n div 10)) = int (n div 10)" by simp
    moreover have "10 * int (n div 10) + int (n mod 10) = int n"
      using mult_div_mod_eq [of 10 n] by linarith
    ultimately show ?thesis using False by (subst nat_digits.simps) (simp add: digits_value_snoc)
  qed
qed

text \<open>What may follow a value inside a document \<open>json_dumps\<close> writes.\<close>

definition delim :: "pystr \<Rightarrow> bool" where
  "delim rest \<longleftrightarrow> rest = [] \<or> hd rest = 44 \<or> hd rest = 93 \<or> hd rest = 125"

lemma delimE:
  assumes "delim rest"
  obtains "rest = []" | t where "rest = 44 # t" | t where "rest = 93 # t" | t where "rest = 125 # t"
  using assms by (cases rest) (auto simp: delim_def)

lemma delim_takeWhile:
  assumes "delim rest"
  shows "takeWhile is_digit (t @ rest) = takeWhile is_digit t"
    and "dropWhile is_digit (t @ rest) = dropWhile is_digit t @ rest"
proof -
  have "takeWhile is_digit rest = []" "dropWhile is_digit rest = rest"
    using assms by (cases rest; auto simp: delim_def is_digit_def)+
  then show "takeWhile is_digit (t @ rest) = takeWhile is_digit t"
    and "dropWhile is_digit (t @ rest) = dropWhile is_digit t @ rest"
    by (induction t) auto
qed

lemma lex_int_append:
  "lex_int s = Some (i, r) \<Longrightarrow> delim rest \<Longrightarrow> lex_int (s @ rest) = Some (i, r @ rest)"
  by (cases s) (auto simp: lex_int_def Let_def delim_takeWhile neq_Nil_conv
      split: list.splits if_splits)

lemma lex_frac_append:
  "delim rest \<Longrightarrow> lex_frac s = (f, r) \<Longrightarrow> lex_frac (s @ rest) = (f, r @ rest)"
  by (cases s; erule delimE)
    (auto simp: lex_frac_def delim_takeWhile delim_def split: if_splits)

lemma lex_exp_append:
  assumes "delim rest" and "lex_exp s = (e, r)"
  shows "lex_exp (s @ rest) = (e, r @ rest)"
proof (cases s)
  case Nil
  with assms show ?thesis by (auto simp: lex_exp_def elim!: delimE)
next
  case (Cons c t)
  show ?thesis
  proof (cases t)
    case Nil
    with assms Cons show ?thesis
      by (auto simp: lex_exp_def Let_def is_digit_def elim!: delimE split: if_splits)
  next
    case (Cons d t')
    with \<open>s = c # t\<close> assms show ?thesis
      using delim_takeWhile [OF assms(1), of t'] delim_takeWhile [OF assms(1), of "d # t'"]
      by (auto simp: lex_exp_def Let_def split: if_splits)
  qed
qed

lemma parse_number_append:
  "parse_number fl s = Some (v, r) \<Longrightarrow> delim rest \<Longrightarrow>
     parse_number fl (s @ rest) = Some (v, r @ rest)"
  by (auto simp: parse_number_def Let_def lex_int_append lex_frac_append lex_exp_append
      split: option.splits prod.splits if_splits)

lemma lex_int_nat_digits: "lex_int (nat_digits n) = Some (nat_digits n, [])"
proof (cases "n = 0")
  case True
  then show ?thesis by (simp add: nat_digits_0 lex_int_def)
next
  case False
  obtain c t where ct: "nat_digits n = c # t" by (meson nat_digits_neq_Nil neq_Nil_conv)
  have "is_digit c" "\<forall>d \<in> set t. is_digit d" using nat_digits_is_digit [of n] ct by auto
  moreover have "c \<noteq> 48" using hd_nat_digits [of n] False ct by simp
  ultimately show ?thesis using ct by (auto simp: lex_int_def is_digit_def)
qed

lemma lex_int_neg_nat_digits: "lex_int (45 # nat_digits n) = Some (45 # nat_digits n, [])"
proof -
  obtain c t where ct: "nat_digits n = c # t" by (meson nat_digits_neq_Nil neq_Nil_conv)
  have "is_digit c" using nat_digits_is_digit [of n] ct by auto
  with lex_int_nat_digits [of n] ct show ?thesis
    by (auto simp: lex_int_def is_digit_def split: if_splits)
qed

lemma int_of_lexeme_int_repr: "int_of_lexeme (int_repr i) = i"
proof -
  have "\<not> prefix [45] (nat_digits n)" for n
    using nat_digits_is_digit [of n] by (cases "nat_digits n") (auto simp: is_digit_def)
  then show ?thesis by (simp add: int_of_lexeme_def int_repr_def digits_value_nat_digits)
qed

lemma parse_number_int_repr: "parse_number fl (int_repr i) = Some (JInt i, [])"
  using int_of_lexeme_int_repr [of i]
  by (auto simp: parse_number_def int_repr_def lex_int_nat_digits lex_int_neg_nat_digits
      lex_frac_def lex_exp_def)

subsection \<open>Strings\<close>

lemma scan_escape_control:
  assumes "0 \<le> c" and "c < 32"
  shows "scan_escape (117 # hex4_repr c @ t) = Some (c, t)"
proof -
  have d: "c div 4096 = 0" "c div 256 = 0" "0 \<le> c div 16" "c div 16 < 2" "0 \<le> c mod 16" "c mod 16 < 16"
    using assms by auto
  have h: "hex_value (hex_digit x) = Some x" if "0 \<le> x" "x < 16" for x
    using that by (auto simp: hex_value_def hex_digit_def)
  have "4096 * 0 + 256 * 0 + 16 * (c div 16) + c mod 16 = c" by simp
  with d assms show ?thesis by (simp add: scan_escape_def hex4_repr_def h)
qed

lemma scan_string_esc:
  "0 \<le> c \<Longrightarrow> scan_string (esc_char c @ t) = map_option (\<lambda>(x, r). (c # x, r)) (scan_string t)"
  by (auto simp: esc_char_def scan_escape_control)
    (simp_all add: scan_escape_def simple_escape_def)

lemma scan_string_json_str:
  "\<forall>c \<in> set s. 0 \<le> c \<Longrightarrow> scan_string (concat (map esc_char s) @ 34 # rest) = Some (s, rest)"
  by (induction s) (auto simp: scan_string_esc)

subsection \<open>Documents\<close>

definition float_text :: "(pystr \<Rightarrow> pystr) \<Rightarrow> pystr \<Rightarrow> bool" where
  "float_text fl r \<longleftrightarrow>
     r = lit ''NaN'' \<or> r = lit ''Infinity'' \<or> r = lit ''-Infinity'' \<or>
     parse_number fl r = Some (JFloat r, [])"

fun wf_json :: "(pystr \<Rightarrow> pystr) \<Rightarrow> json \<Rightarrow> bool" where
  "wf_json fl JNull = True"
| "wf_json fl (JBool b) = True"
| "wf_json fl (JInt i) = True"
| "wf_json fl (JFloat r) = float_text fl r"
| "wf_json fl (JStr s) = list_all (\<lambda>c. 0 \<le> c) s"
| "wf_json fl (JArr vs) = list_all (wf_json fl) vs"
| "wf_json fl (JObj kvs) =
     (distinct (map fst kvs) \<and> list_all (\<lambda>(k, v). list_all (\<lambda>c. 0 \<le> c) k \<and> wf_json fl v) kvs)"

definition value_start :: "pystr \<Rightarrow> bool" where
  "value_start s \<longleftrightarrow> s \<noteq> [] \<and> \<not> is_ws (hd s) \<and> hd s \<noteq> 93 \<and> hd s \<noteq> 125"

lemma skip_ws_start [simp]: "value_start s \<Longrightarrow> skip_ws (s @ r) = s @ r"
  by (cases s) (auto simp: value_start_def skip_ws_def)

lemma skip_ws_Cons: "skip_ws (c # t) = (if is_ws c then skip_ws t else c # t)"
  by (simp add: skip_ws_def)

lemma parse_number_start:
  "parse_number fl s = Some x \<Longrightarrow> s \<noteq> [] \<and> (hd s = 45 \<or> is_digit (hd s))"
  by (cases s) (auto simp: parse_number_def lex_int_def Let_def is_digit_def
      split: option.splits list.splits if_splits)

lemma value_start_number: "parse_number fl s = Some x \<Longrightarrow> value_start s"
  using parse_number_start [of fl s x] by (auto simp: value_start_def is_ws_def is_digit_def)

lemma value_start_dumps: "wf_json fl v \<Longrightarrow> value_start (json_dumps v)"
proof (cases v)
  case (JInt i)
  then show ?thesis using value_start_number [OF parse_number_int_repr] by simp
next
  case (JFloat r)
  moreover assume "wf_json fl v"
  ultimately show ?thesis
    by (auto simp: float_text_def value_start_number) (auto simp: value_start_def is_ws_def lit_Cons)
qed (auto simp: value_start_def is_ws_def json_str_def lit_Cons)

lemma parse_scalar_number:
  assumes "parse_number fl s = Some x"
  shows "parse_scalar fl s = Some x"
  using parse_number_start [OF assms] assms
  by (cases s) (auto simp: parse_scalar_def is_digit_def lit_Cons)

lemma parse_value_number:
  assumes "parse_number fl s = Some (v, [])" and "delim rest" and "0 < n"
  shows "parse_value fl n (s @ rest) = Some (v, rest)"
proof -
  obtain m where n: "n = Suc m" using assms(3) by (cases n) auto
  have p: "parse_number fl (s @ rest) = Some (v, rest)"
    using parse_number_append [OF assms(1,2)] by simp
  from parse_number_start [OF p] parse_scalar_number [OF p] show ?thesis
    by (cases "s @ rest") (auto simp: n is_digit_def)
qed

lemma parse_value_const:
  assumes "(s, v) \<in> {(lit ''null'', JNull), (lit ''true'', JBool True), (lit ''false'', JBool False),
      (lit ''NaN'', JFloat (lit ''NaN'')), (lit ''Infinity'', JFloat (lit ''Infinity'')),
      (lit ''-Infinity'', JFloat (lit ''-Infinity''))}" and "0 < n"
  shows "parse_value fl n (s @ rest) = Some (v, rest)"
proof -
  obtain m where n: "n = Suc m" using assms(2) by (cases n) auto
  from assms(1) show ?thesis
    by (auto simp: n lit_Cons parse_scalar_def parse_number_def lex_int_def is_digit_def)
qed

lemma parse_value_str:
  "list_all (\<lambda>c. 0 \<le> c) s \<Longrightarrow> 0 < n \<Longrightarrow> parse_value fl n (json_str s @ rest) = Some (JStr s, rest)"
  by (cases n) (auto simp: json_str_def scan_string_json_str list_all_iff)

lemma value_start_join:
  "value_start x \<Longrightarrow> value_start (py_join sep (x # xs) @ r)"
  by (cases xs; cases x) (auto simp: value_start_def)

lemma parse_elems_roundtrip:
  assumes "\<And>v n rest. v \<in> set vs \<Longrightarrow> delim rest \<Longrightarrow> length (json_dumps v) \<le> n \<Longrightarrow>
             parse_value fl n (json_dumps v @ rest) = Some (v, rest)"
    and "vs \<noteq> []" and "\<forall>v \<in> set vs. value_start (json_dumps v)"
    and "length (py_join [44, 32] (map json_dumps vs)) < n"
  shows "parse_elems fl n (py_join [44, 32] (map json_dumps vs) @ 93 # rest) = Some (vs, rest)"
  using assms
proof (induction vs arbitrary: n)
  case (Cons v vs)
  obtain m where n: "n = Suc m" using Cons.prems(4) by (cases n) auto
  show ?case
  proof (cases vs)
    case Nil
    have "parse_value fl m (json_dumps v @ 93 # rest) = Some (v, 93 # rest)"
      by (rule Cons.prems(1)) (use Cons.prems(4) n Nil in \<open>auto simp: delim_def\<close>)
    with Nil n show ?thesis by (simp add: skip_ws_Cons is_ws_def)
  next
    case (Cons w ws)
    let ?j = "py_join [44, 32] (map json_dumps vs)"
    have len: "length (json_dumps v) + 2 + length ?j \<le> m"
      using Cons.prems(4) n Cons by simp
    have 1: "parse_value fl m (json_dumps v @ 44 # 32 # ?j @ 93 # rest)
               = Some (v, 44 # 32 # ?j @ 93 # rest)"
      by (rule Cons.prems(1)) (use len in \<open>auto simp: delim_def\<close>)
    have 2: "parse_elems fl m (?j @ 93 # rest) = Some (vs, rest)"
      by (rule Cons.IH) (use Cons.prems Cons len in auto)
    have "value_start ?j" using value_start_join [of "json_dumps w" "[44, 32]" "map json_dumps ws" "[]"]
        Cons Cons.prems(3) by simp
    then have "skip_ws (32 # ?j @ 93 # rest) = ?j @ 93 # rest" by (simp add: skip_ws_Cons is_ws_def)
    with 1 2 n Cons show ?thesis by (simp add: skip_ws_Cons is_ws_def)
  qed
qed simp

abbreviation dump_member :: "pystr \<times> json \<Rightarrow> pystr" where
  "dump_member \<equiv> (\<lambda>(k, v). json_str k @ 58 # 32 # json_dumps v)"

lemma parse_members_roundtrip:
  assumes "\<And>k v n rest. (k, v) \<in> set kvs \<Longrightarrow> delim rest \<Longrightarrow> length (json_dumps v) \<le> n \<Longrightarrow>
             parse_value fl n (json_dumps v @ rest) = Some (v, rest)"
    and "kvs \<noteq> []" and "\<forall>(k, v) \<in> set kvs. value_start (json_dumps v) \<and> (\<forall>c \<in> set k. 0 \<le> c)"
    and "length (py_join [44, 32] (map dump_member kvs)) < n"
  shows "parse_members fl n (py_join [44, 32] (map dump_member kvs) @ 125 # rest) = Some (kvs, rest)"
  using assms
proof (induction kvs arbitrary: n)
  case (Cons kv kvs)
  obtain k v where kv: "kv = (k, v)" by (cases kv)
  obtain m where n: "n = Suc m" using Cons.prems(4) by (cases n) auto
  have k: "\<forall>c \<in> set k. 0 \<le> c" and vs: "value_start (json_dumps v)" using Cons.prems(3) kv by auto
  have colon: "skip_ws (58 # x) = 58 # x" for x by (simp add: skip_ws_Cons is_ws_def)
  have sp: "skip_ws (32 # json_dumps v @ r) = json_dumps v @ r" for r
    using vs by (simp add: skip_ws_Cons is_ws_def)
  show ?case
  proof (cases kvs)
    case Nil
    have "parse_value fl m (json_dumps v @ 125 # rest) = Some (v, 125 # rest)"
      by (rule Cons.prems(1)) (use Cons.prems(4) n Nil kv in \<open>auto simp: delim_def\<close>)
    with Nil n kv k show ?thesis
      by (simp add: json_str_def scan_string_json_str colon sp) (simp add: skip_ws_Cons is_ws_def)
  next
    case (Cons w ws)
    let ?j = "py_join [44, 32] (map dump_member kvs)"
    have len: "length (json_dumps v) + 2 + length ?j \<le> m"
      using Cons.prems(4) n Cons kv by simp
    have 1: "parse_value fl m (json_dumps v @ 44 # 32 # ?j @ 125 # rest)
               = Some (v, 44 # 32 # ?j @ 125 # rest)"
      by (rule Cons.prems(1)) (use len kv in \<open>auto simp: delim_def\<close>)
    have 2: "parse_members fl m (?j @ 125 # rest) = Some (kvs, rest)"
      by (rule Cons.IH) (use Cons.prems Cons len in auto)
    have "value_start (dump_member w)" by (auto simp: json_str_def value_start_def is_ws_def split: prod.splits)
    then have "value_start ?j"
      using value_start_join [of "dump_member w" "[44, 32]" "map dump_member ws" "[]"] Cons by simp
    then have 3: "skip_ws (?j @ 125 # rest) = ?j @ 125 # rest" by simp
    have e: "py_join [44, 32] (map dump_member (kv # kvs)) @ 125 # rest
        = 34 # concat (map esc_char k) @ 34 # 58 # 32 # json_dumps v @ 44 # 32 # ?j @ 125 # rest"
      using Cons kv by (simp add: json_str_def)
    show ?thesis unfolding e n
      by (simp add: scan_string_json_str k colon sp 1 2 3) (simp add: skip_ws_Cons is_ws_def 3 2 kv)
  qed
qed simp

lemma skip_ws_value_start:
  assumes "value_start s" and "c = 93 \<or> c = 125"
  shows "skip_ws s = s" "\<not> prefix [c] s"
  using skip_ws_start [of s "[]"] assms by (simp, cases s) (auto simp: value_start_def)

lemma parse_array_roundtrip:
  assumes IH: "\<And>v n rest. v \<in> set vs \<Longrightarrow> wf_json fl v \<Longrightarrow> delim rest \<Longrightarrow> length (json_dumps v) \<le> n \<Longrightarrow>
      parse_value fl n (json_dumps v @ rest) = Some (v, rest)"
    and "wf_json fl (JArr vs)" "delim rest" "length (json_dumps (JArr vs)) \<le> n"
  shows "parse_value fl n (json_dumps (JArr vs) @ rest) = Some (JArr vs, rest)"
proof -
  obtain m where n: "n = Suc m" using assms(4) by (cases n) auto
  show ?thesis
  proof (cases vs)
    case Nil
    then show ?thesis by (simp add: n skip_ws_Cons is_ws_def)
  next
    case (Cons w ws)
    let ?j = "py_join [44, 32] (map json_dumps vs)"
    have st: "\<forall>v \<in> set vs. value_start (json_dumps v)"
      using assms(2) by (auto simp: list_all_iff intro: value_start_dumps)
    have "parse_elems fl m (?j @ 93 # rest) = Some (vs, rest)"
    proof (rule parse_elems_roundtrip)
      show "parse_value fl n (json_dumps v @ rest) = Some (v, rest)"
        if "v \<in> set vs" "delim rest" "length (json_dumps v) \<le> n" for v n rest
        using IH that assms(2) by (auto simp: list_all_iff)
    qed (use assms n Cons st in auto)
    moreover have "value_start (?j @ 93 # rest)"
      using value_start_join [of "json_dumps w" "[44, 32]" "map json_dumps ws" "93 # rest"] Cons st by simp
    ultimately show ?thesis by (simp add: n skip_ws_value_start [of _ 93])
  qed
qed

lemma parse_object_roundtrip:
  assumes IH: "\<And>k v n rest. (k, v) \<in> set kvs \<Longrightarrow> wf_json fl v \<Longrightarrow> delim rest \<Longrightarrow> length (json_dumps v) \<le> n \<Longrightarrow>
      parse_value fl n (json_dumps v @ rest) = Some (v, rest)"
    and "wf_json fl (JObj kvs)" "delim rest" "length (json_dumps (JObj kvs)) \<le> n"
  shows "parse_value fl n (json_dumps (JObj kvs) @ rest) = Some (JObj kvs, rest)"
proof -
  obtain m where n: "n = Suc m" using assms(4) by (cases n) auto
  show ?thesis
  proof (cases kvs)
    case Nil
    then show ?thesis by (simp add: n skip_ws_Cons is_ws_def)
  next
    case (Cons w ws)
    let ?j = "py_join [44, 32] (map dump_member kvs)"
    have st: "\<forall>(k, v) \<in> set kvs. value_start (json_dumps v) \<and> (\<forall>c \<in> set k. 0 \<le> c)"
      using assms(2) by (auto simp: list_all_iff intro: value_start_dumps)
    have pm: "parse_members fl m (?j @ 125 # rest) = Some (kvs, rest)"
    proof (rule parse_members_roundtrip)
      show "parse_value fl n (json_dumps v @ rest) = Some (v, rest)"
        if "(k, v) \<in> set kvs" "delim rest" "length (json_dumps v) \<le> n" for k v n rest
        using IH [OF that(1)] that assms(2) by (auto simp: list_all_iff)
    qed (use assms n Cons st in auto)
    have "value_start (dump_member w)" by (auto simp: json_str_def value_start_def is_ws_def split: prod.splits)
    then have "value_start (?j @ 125 # rest)"
      using value_start_join [of "dump_member w" "[44, 32]" "map dump_member ws" "125 # rest"] Cons by simp
    with pm show ?thesis using assms(2) by (simp add: n dict_of_distinct skip_ws_value_start [of _ 125])
  qed
qed

lemma parse_value_roundtrip:
  "wf_json fl v \<Longrightarrow> delim rest \<Longrightarrow> length (json_dumps v) \<le> n \<Longrightarrow>
     parse_value fl n (json_dumps v @ rest) = Some (v, rest)"
proof (induction v arbitrary: n rest)
  case JNull
  then show ?case using parse_value_const [of "lit ''null''" JNull n fl rest] by simp
next
  case (JBool b)
  then show ?case
    using parse_value_const [of "lit ''true''" "JBool True" n fl rest]
      parse_value_const [of "lit ''false''" "JBool False" n fl rest] by (cases b) auto
next
  case (JInt i)
  have "int_repr i \<noteq> []" by (simp add: int_repr_def)
  with JInt show ?case
    using parse_value_number [OF parse_number_int_repr [of fl i], of rest n] by (cases n) auto
next
  case (JFloat r)
  then have "value_start r" using value_start_dumps [of fl "JFloat r"] by simp
  then have "0 < n" using JFloat.prems(3) by (cases r) (auto simp: value_start_def)
  with JFloat show ?case
    using parse_value_const [of r "JFloat r" n fl rest] parse_value_number [of fl r "JFloat r" rest n]
    by (auto simp: float_text_def)
next
  case (JStr s)
  then show ?case using parse_value_str [of s n fl rest] by (auto simp: json_str_def)
next
  case (JArr vs)
  then show ?case by (intro parse_array_roundtrip) simp_all
next
  case (JObj kvs)
  then show ?case by (intro parse_object_roundtrip) fastforce+
qed

lemma json_loads_dumps: 
  assumes "wf_json fl v"
  shows "json_loads fl (json_dumps v) = Inr v"
proof -
  have d: "value_start (json_dumps v)" using assms by (rule value_start_dumps)
  have b: "\<not> prefix [65279] (json_dumps v)"
  proof (cases v)
    case (JInt i)
    then show ?thesis using parse_number_start [OF parse_number_int_repr [of undefined i]]
      by (cases "int_repr i") (auto simp: is_digit_def)
  next
    case (JFloat r)
    with assms show ?thesis
      by (cases r) (auto simp: float_text_def is_digit_def lit_Cons dest: parse_number_start)
  qed (auto simp: json_str_def lit_Cons)
  have "parse_value fl (2 * length (json_dumps v) + 2) (json_dumps v @ []) = Some (v, [])"
    by (rule parse_value_roundtrip) (use assms in \<open>auto simp: delim_def\<close>)
  with d b skip_ws_start [OF d, of "[]"] show ?thesis by (simp add: json_loads_def skip_ws_def)
qed

subsection \<open>The fuel is enough\<close>

lemma scan_string_length: "scan_string s = Some (x, r) \<Longrightarrow> length r < length s"
proof (induction s arbitrary: x r rule: scan_string.induct)
  case (2 c t)
  then show ?case
    by (fastforce split: if_splits option.splits dest: scan_escape_length)
qed simp

lemma length_skip_ws: "length (skip_ws s) \<le> length s"
  by (simp add: skip_ws_def length_dropWhile_le)

lemma lex_int_length: "lex_int s = Some (i, r) \<Longrightarrow> length r < length s"
  by (cases s) (auto simp: lex_int_def Let_def split: if_splits list.splits
      intro: le_imp_less_Suc length_dropWhile_le order.trans less_SucI)

lemma lex_frac_length: "lex_frac s = (f, r) \<Longrightarrow> length r \<le> length s"
  by (auto simp: lex_frac_def split: list.splits if_splits intro: le_SucI length_dropWhile_le)

lemma lex_exp_length: "lex_exp s = (e, r) \<Longrightarrow> length r \<le> length s"
proof -
  have "length (dropWhile is_digit (drop k t)) \<le> Suc (length t)" for k t
    using length_dropWhile_le [of is_digit "drop k t"] by simp
  from this [of 0] this show "lex_exp s = (e, r) \<Longrightarrow> length r \<le> length s"
    by (auto simp: lex_exp_def Let_def split: list.splits if_splits)
qed

lemma parse_number_length: "parse_number fl s = Some (v, r) \<Longrightarrow> length r < length s"
  by (auto simp: parse_number_def split: option.splits prod.splits if_splits
      dest!: lex_int_length lex_frac_length lex_exp_length)

lemma parse_scalar_length: "parse_scalar fl s = Some (v, r) \<Longrightarrow> length r < length s"
  by (auto simp: parse_scalar_def lit_Cons split: if_splits option.splits
      dest: parse_number_length prefix_length_le)

lemma parse_length:
  "parse_value fl n s = Some (v, r) \<Longrightarrow> length r < length s"
  "parse_elems fl n s = Some (vs, r) \<Longrightarrow> length r < length s"
  "parse_members fl n s = Some (kvs, r) \<Longrightarrow> length r < length s"
proof (induction fl n s and fl n s and fl n s arbitrary: v r and vs r and kvs r
    rule: parse_value_parse_elems_parse_members.induct)
  case (2 fl n s)
  show ?case
  proof (cases s)
    case (Cons c t)
    have l: "length (skip_ws t) \<le> length t" by (rule length_skip_ws)
    show ?thesis using "2.prems" Cons l "2.IH" [OF Cons]
      by (force split: if_splits dest: scan_string_length parse_scalar_length)
  qed (use 2 in simp)
next
  case (4 fl n s)
  from "4.prems" obtain v0 r0 d t where p: "parse_value fl n s = Some (v0, r0)" "skip_ws r0 = d # t"
    by (auto split: option.splits list.splits)
  have "length r0 < length s" using "4.IH"(1) [OF p(1)] .
  moreover have "length t < length r0" using p(2) length_skip_ws [of r0] by simp
  moreover have "length (skip_ws t) \<le> length t" by (rule length_skip_ws)
  ultimately show ?case using "4.prems" p "4.IH"(2) [OF p(1) refl p(2)]
    by (fastforce split: if_splits)
next
  case (6 fl n s)
  from "6.prems" obtain q t where s: "s = q # t" by (auto split: list.splits)
  with "6.prems" obtain k r1 where k: "q = 34" "scan_string t = Some (k, r1)" "prefix [58] (skip_ws r1)"
    by (auto split: option.splits if_splits)
  with "6.prems" s obtain v0 r2 d t2 where
    v: "parse_value fl n (skip_ws (drop 1 (skip_ws r1))) = Some (v0, r2)" "skip_ws r2 = d # t2"
    by (auto split: option.splits if_splits list.splits)
  have 1: "length r1 < length t" by (rule scan_string_length [OF k(2)])
  have 2: "length r2 < length (skip_ws (drop 1 (skip_ws r1)))"
    by (rule "6.IH"(1) [OF s _ k(2) refl _ v(1)]) (use k in auto)
  have 3: "length (skip_ws (drop 1 (skip_ws r1))) \<le> length r1"
    using length_skip_ws [of "drop 1 (skip_ws r1)"] length_skip_ws [of r1] by simp
  have 4: "length t2 < length r2" "length (skip_ws t2) \<le> length t2"
    using v(2) length_skip_ws [of r2] length_skip_ws [of t2] by simp_all
  show ?case using "6.prems" s k v 1 2 3 4 "6.IH"(2) [OF s _ k(2) refl _ v(1) refl v(2)]
    by (fastforce split: if_splits)
qed simp_all

lemma parse_elems_enough:
  assumes v: "parse_value fl (Suc n) s = parse_value fl n s"
    and more: "\<And>v0 r0 t. parse_value fl n s = Some (v0, r0) \<Longrightarrow> skip_ws r0 = 44 # t \<Longrightarrow>
      parse_elems fl (Suc n) (skip_ws t) = parse_elems fl n (skip_ws t)"
  shows "parse_elems fl (Suc (Suc n)) s = parse_elems fl (Suc n) s"
proof (cases "parse_value fl n s")
  case None
  with v show ?thesis by (simp del: parse_value.simps)
next
  case (Some x)
  obtain v0 r0 where x: "x = (v0, r0)" by (cases x)
  show ?thesis
  proof (cases "skip_ws r0")
    case Nil
    with v Some x show ?thesis by (simp del: parse_value.simps)
  next
    case (Cons d t)
    with v Some x more [of v0 r0 t] show ?thesis
      by (subst parse_elems.simps(2), subst (2) parse_elems.simps(2))
        (simp del: parse_value.simps parse_elems.simps)
  qed
qed

lemma parse_members_enough:
  assumes v: "\<And>t k r1. s = 34 # t \<Longrightarrow> scan_string t = Some (k, r1) \<Longrightarrow> prefix [58] (skip_ws r1) \<Longrightarrow>
      parse_value fl (Suc n) (skip_ws (drop 1 (skip_ws r1))) = parse_value fl n (skip_ws (drop 1 (skip_ws r1)))"
    and more: "\<And>t k r1 v0 r2 u. s = 34 # t \<Longrightarrow> scan_string t = Some (k, r1) \<Longrightarrow> prefix [58] (skip_ws r1) \<Longrightarrow>
      parse_value fl n (skip_ws (drop 1 (skip_ws r1))) = Some (v0, r2) \<Longrightarrow> skip_ws r2 = 44 # u \<Longrightarrow>
      parse_members fl (Suc n) (skip_ws u) = parse_members fl n (skip_ws u)"
  shows "parse_members fl (Suc (Suc n)) s = parse_members fl (Suc n) s"
proof (cases "\<exists>t k r1. s = 34 # t \<and> scan_string t = Some (k, r1) \<and> prefix [58] (skip_ws r1)")
  case False
  then show ?thesis
    by (subst parse_members.simps(2), subst (2) parse_members.simps(2))
      (simp del: parse_value.simps parse_members.simps split: list.split option.split)
next
  case True
  then obtain t k r1 where s: "s = 34 # t" "scan_string t = Some (k, r1)" "prefix [58] (skip_ws r1)"
    by blast
  note v = v [OF s]
  show ?thesis
  proof (cases "parse_value fl n (skip_ws (drop 1 (skip_ws r1)))")
    case None
    with v s show ?thesis by (simp del: parse_value.simps)
  next
    case (Some x)
    obtain v0 r2 where x: "x = (v0, r2)" by (cases x)
    show ?thesis
    proof (cases "skip_ws r2")
      case Nil
      with v s Some x show ?thesis by (simp del: parse_value.simps)
    next
      case (Cons d u)
      with v s Some x more [OF s, of v0 r2 u] show ?thesis
        by (subst parse_members.simps(2), subst (2) parse_members.simps(2))
          (simp del: parse_value.simps parse_members.simps)
    qed
  qed
qed

lemma parse_enough:
  "2 * length s < n \<Longrightarrow> parse_value fl (Suc n) s = parse_value fl n s"
  "2 * length s + 1 < n \<Longrightarrow> parse_elems fl (Suc n) s = parse_elems fl n s"
  "2 * length s + 1 < n \<Longrightarrow> parse_members fl (Suc n) s = parse_members fl n s"
proof (induction fl n s and fl n s and fl n s rule: parse_value_parse_elems_parse_members.induct)
  case (2 fl n s)
  show ?case
  proof (cases s)
    case (Cons c t)
    have l: "2 * length (skip_ws t) + 1 < n" using length_skip_ws [of t] "2.prems" Cons by simp
    show ?thesis
      using "2.IH"(1) [OF Cons _ _ _ l] "2.IH"(2) [OF Cons _ _ _ _ l] Cons by (simp del: parse_elems.simps parse_members.simps)
  qed simp
next
  case (4 fl n s)
  show ?case
  proof (rule parse_elems_enough)
    show "parse_value fl (Suc n) s = parse_value fl n s" using "4.IH"(1) "4.prems" by simp
    fix v0 r0 t assume p: "parse_value fl n s = Some (v0, r0)" and t: "skip_ws r0 = 44 # t"
    have "2 * length (skip_ws t) + 1 < n"
      using t parse_length(1) [OF p] length_skip_ws [of r0] length_skip_ws [of t] "4.prems" by simp
    then show "parse_elems fl (Suc n) (skip_ws t) = parse_elems fl n (skip_ws t)"
      using "4.IH"(2) [OF p refl t] by simp
  qed
next
  case (6 fl n s)
  let ?w = "\<lambda>r1. skip_ws (drop 1 (skip_ws r1))"
  have l: "length (?w r1) \<le> length r1" "length r1 < length t" if "scan_string t = Some (k, r1)" for t k r1
    using length_skip_ws [of "drop 1 (skip_ws r1)"] length_skip_ws [of r1] scan_string_length [OF that]
    by simp_all
  show ?case
  proof (rule parse_members_enough)
    fix t k r1 assume s: "s = 34 # t" "scan_string t = Some (k, r1)" "prefix [58] (skip_ws r1)"
    show "parse_value fl (Suc n) (?w r1) = parse_value fl n (?w r1)"
      by (rule "6.IH"(1) [OF s(1) _ s(2) refl]) (use s l [OF s(2)] "6.prems" in auto)
    fix v0 r2 u assume p: "parse_value fl n (?w r1) = Some (v0, r2)" and u: "skip_ws r2 = 44 # u"
    have "2 * length (skip_ws u) + 1 < n"
      using u parse_length(1) [OF p] l [OF s(2)] s(1) length_skip_ws [of r2] length_skip_ws [of u] "6.prems" by simp
    then show "parse_members fl (Suc n) (skip_ws u) = parse_members fl n (skip_ws u)"
      using "6.IH"(2) [OF s(1) _ s(2) refl _ p refl u] s by simp
  qed
qed simp_all

text \<open>The fuel of \<open>json_loads\<close> decides nothing: any larger amount gives the same answer.\<close>

lemma json_loads_fuel:
  assumes "2 * length s < n"
  shows "parse_value fl (n + k) s = parse_value fl n s"
  by (induction k) (use parse_enough(1) assms in \<open>auto simp del: parse_value.simps\<close>)

end
