(* ===== verification/EncTokens.thy ===== *)
theory EncTokens
  imports PyJson
begin

text \<open>
  The special tokens and templates of \<open>deploy/overlays/dspark/deepseek_v4_encoding.py\<close>, and the
  utility functions between its templates and its message rendering: JSON serialisation, the
  conversions from and to OpenAI tool calls, the DSML form of tool-call arguments and its inverse,
  the tools section of the system prompt.
\<close>

section \<open>Special tokens\<close>

text \<open>Most tokens are a name between fullwidth bars (U+FF5C); U+2581 stands for a space.\<close>

definition sp_token :: "pystr \<Rightarrow> pystr" where
  "sp_token name = lit ''<'' @ [65372] @ name @ [65372] @ lit ''>''"

definition bos_token :: pystr where
  "bos_token = sp_token (lit ''begin'' @ [9601] @ lit ''of'' @ [9601] @ lit ''sentence'')"

definition eos_token :: pystr where
  "eos_token = sp_token (lit ''end'' @ [9601] @ lit ''of'' @ [9601] @ lit ''sentence'')"

definition thinking_start_token :: pystr where
  "thinking_start_token = lit ''<think>''"

definition thinking_end_token :: pystr where
  "thinking_end_token = lit ''</think>''"

definition dsml_token :: pystr where
  "dsml_token = [65372] @ lit ''DSML'' @ [65372]"

definition USER_SP_TOKEN :: pystr where
  "USER_SP_TOKEN = sp_token (lit ''User'')"

definition ASSISTANT_SP_TOKEN :: pystr where
  "ASSISTANT_SP_TOKEN = sp_token (lit ''Assistant'')"

definition LATEST_REMINDER_SP_TOKEN :: pystr where
  "LATEST_REMINDER_SP_TOKEN = sp_token (lit ''latest_reminder'')"

definition DS_TASK_SP_TOKENS :: "(pystr \<times> pystr) list" where
  "DS_TASK_SP_TOKENS =
     [(lit ''action'', sp_token (lit ''action'')),
      (lit ''query'', sp_token (lit ''query'')),
      (lit ''authority'', sp_token (lit ''authority'')),
      (lit ''domain'', sp_token (lit ''domain'')),
      (lit ''title'', sp_token (lit ''title'')),
      (lit ''read_url'', sp_token (lit ''read_url''))]"

definition tool_calls_block_name :: pystr where
  "tool_calls_block_name = lit ''tool_calls''"

section \<open>Templates\<close>

definition response_format_template :: "pystr \<Rightarrow> pystr" where
  \<open>response_format_template schema =
     lit ''## Response Format:\<newline>'' @
     lit ''\<newline>'' @
     lit ''You MUST strictly adhere to the following schema to reply:\<newline>'' @
     schema\<close>

definition tool_call_template :: "pystr \<Rightarrow> pystr \<Rightarrow> pystr" where
  \<open>tool_call_template name arguments =
     lit ''<'' @
     dsml_token @
     lit ''invoke name="'' @
     name @
     lit ''">\<newline>'' @
     arguments @
     lit ''\<newline>'' @
     lit ''</'' @
     dsml_token @
     lit ''invoke>''\<close>

definition tool_calls_template :: "pystr \<Rightarrow> pystr \<Rightarrow> pystr" where
  \<open>tool_calls_template tc_block_name tool_calls =
     lit ''<'' @
     dsml_token @
     tc_block_name @
     lit ''>\<newline>'' @
     tool_calls @
     lit ''\<newline>'' @
     lit ''</'' @
     dsml_token @
     tc_block_name @
     lit ''>''\<close>

definition tool_output_template :: "pystr \<Rightarrow> pystr" where
  \<open>tool_output_template content =
     lit ''<tool_result>'' @
     content @
     lit ''</tool_result>''\<close>

definition p_dsml_template :: "pystr \<Rightarrow> pystr \<Rightarrow> pystr \<Rightarrow> pystr" where
  \<open>p_dsml_template key is_str value =
     lit ''<'' @
     dsml_token @
     lit ''parameter name="'' @
     key @
     lit ''" string="'' @
     is_str @
     lit ''">'' @
     value @
     lit ''</'' @
     dsml_token @
     lit ''parameter>''\<close>

definition effort_high :: "pystr" where
  \<open>effort_high =
     lit ''Reasoning Effort: Absolute maximum with no shortcuts permitted.\<newline>'' @
     lit ''You MUST be very thorough in your thinking and comprehensively decompose the problem to resolve the root cause, rigorously stress-testing your logic against all potential paths, edge cases, and adversarial scenarios.\<newline>'' @
     lit ''Explicitly write out your entire deliberation process, documenting every intermediate step, considered alternative, and rejected hypothesis to ensure absolutely no assumption is left unchecked.\<newline>'' @
     lit ''\<newline>''\<close>

definition effort_max :: "pystr" where
  \<open>effort_max =
     lit ''Reasoning Effort: Beyond maximum '' @
     [8212] @
     lit '' exhaustive, relentless, and uncompromising.\<newline>'' @
     lit ''You MUST reason with the utmost depth and rigor, leaving absolutely nothing to chance: exhaustively decompose the problem into its most fundamental components, trace every causal chain to its root, and resolve the underlying cause rather than any surface symptom.\<newline>'' @
     lit ''Do not stop reasoning until you have independently verified the solution from multiple angles and are certain that no assumption remains unchecked and no error remains undiscovered.\<newline>'' @
     lit ''\<newline>''\<close>

definition TOOLS_TEMPLATE :: "pystr \<Rightarrow> pystr" where
  \<open>TOOLS_TEMPLATE tool_schemas =
     lit ''## Tools\<newline>'' @
     lit ''\<newline>'' @
     lit ''You have access to a set of tools to help answer the user's question. You can invoke tools by writing a "<'' @
     dsml_token @
     lit ''tool_calls>" block like the following:\<newline>'' @
     lit ''\<newline>'' @
     lit ''<'' @
     dsml_token @
     lit ''tool_calls>\<newline>'' @
     lit ''<'' @
     dsml_token @
     lit ''invoke name="$TOOL_NAME">\<newline>'' @
     lit ''<'' @
     dsml_token @
     lit ''parameter name="$PARAMETER_NAME" string="true|false">$PARAMETER_VALUE</'' @
     dsml_token @
     lit ''parameter>\<newline>'' @
     lit ''...\<newline>'' @
     lit ''</'' @
     dsml_token @
     lit ''invoke>\<newline>'' @
     lit ''<'' @
     dsml_token @
     lit ''invoke name="$TOOL_NAME2">\<newline>'' @
     lit ''...\<newline>'' @
     lit ''</'' @
     dsml_token @
     lit ''invoke>\<newline>'' @
     lit ''</'' @
     dsml_token @
     lit ''tool_calls>\<newline>'' @
     lit ''\<newline>'' @
     lit ''String parameters should be specified as is and set `string="true"`. For all other types (numbers, booleans, arrays, objects), pass the value in JSON format and set `string="false"`.\<newline>'' @
     lit ''\<newline>'' @
     lit ''If thinking_mode is enabled (triggered by '' @
     thinking_start_token @
     lit ''), you MUST output your complete reasoning inside '' @
     thinking_start_token @
     lit ''...'' @
     thinking_end_token @
     lit '' BEFORE any tool calls or final response.\<newline>'' @
     lit ''\<newline>'' @
     lit ''Otherwise, output directly after '' @
     thinking_end_token @
     lit '' with tool calls or final response.\<newline>'' @
     lit ''\<newline>'' @
     lit ''### Available Tool Schemas\<newline>'' @
     lit ''\<newline>'' @
     tool_schemas @
     lit ''\<newline>'' @
     lit ''\<newline>'' @
     lit ''You MUST strictly follow the above defined tool name and parameter schemas to invoke tool calls.\<newline>''\<close>

definition REASONING_EFFORT_PROMPTS :: "(pystr \<times> pystr) list" where
  "REASONING_EFFORT_PROMPTS =
     [(lit ''low'', []), (lit ''high'', effort_high), (lit ''max'', effort_max)]"

definition DEFAULT_REASONING_EFFORT :: pystr where
  "DEFAULT_REASONING_EFFORT = lit ''low''"

section \<open>Values as Python handles them\<close>

text \<open>
  What the encoder takes from Python's runtime beyond strings: rounding a float literal
  (\<open>json.loads\<close>) and \<open>str()\<close> of a float, list or dict. Both are parameters of the model.
\<close>

record pylib =
  py_float :: "pystr \<Rightarrow> pystr"
  py_str :: "json \<Rightarrow> pystr"

fun truthy :: "json \<Rightarrow> bool" where
  "truthy JNull = False"
| "truthy (JBool b) = b"
| "truthy (JInt i) = (i \<noteq> 0)"
| "truthy (JFloat r) = (r \<noteq> lit ''0.0'' \<and> r \<noteq> lit ''-0.0'')"
| "truthy (JStr s) = (s \<noteq> [])"
| "truthy (JArr vs) = (vs \<noteq> [])"
| "truthy (JObj kvs) = (kvs \<noteq> [])"

text \<open>\<open>"{x}".format(x=v)\<close> and f-strings.\<close>

fun fmt :: "pylib \<Rightarrow> json \<Rightarrow> pystr" where
  "fmt lib JNull = lit ''None''"
| "fmt lib (JBool b) = (if b then lit ''True'' else lit ''False'')"
| "fmt lib (JInt i) = int_repr i"
| "fmt lib (JStr s) = s"
| "fmt lib v = py_str lib v"

text \<open>\<open>v[k]\<close> with a string key, and \<open>v.get(k)\<close>.\<close>

fun getitem :: "string \<Rightarrow> json \<Rightarrow> json res" where
  "getitem k (JObj kvs) = (case map_of kvs (lit k) of None \<Rightarrow> Inl KeyError | Some v \<Rightarrow> Inr v)"
| "getitem k _ = Inl TypeError"

fun dict_get :: "string \<Rightarrow> json \<Rightarrow> json option res" where
  "dict_get k (JObj kvs) = Inr (map_of kvs (lit k))"
| "dict_get k _ = Inl AttributeError"

definition get_or :: "json \<Rightarrow> json option \<Rightarrow> json" where
  "get_or d x = (case x of None \<Rightarrow> d | Some v \<Rightarrow> v)"

text \<open>String concatenation and \<open>join\<close> accept strings only.\<close>

fun as_str :: "json \<Rightarrow> pystr res" where
  "as_str (JStr s) = Inr s"
| "as_str _ = Inl TypeError"

definition join_json :: "pystr \<Rightarrow> json list \<Rightarrow> pystr res" where
  "join_json sep vs = bindE (mapE as_str vs) (\<lambda>ss. Inr (py_join sep ss))"

section \<open>Utility functions\<close>

text \<open>
  \<open>to_json\<close>. On the JSON values of the model \<open>json.dumps(..., ensure_ascii=False)\<close> does not raise, so
  the fallback of the \<open>try\<close> is never taken.
\<close>

definition to_json :: "json \<Rightarrow> pystr" where
  "to_json v = json_dumps v"

definition tools_from_openai_format :: "json list \<Rightarrow> json list res" where
  "tools_from_openai_format tools = mapE (getitem ''function'') tools"

text \<open>A tool call in the internal format: a dict with the keys \<open>name\<close> and \<open>arguments\<close>.\<close>

record tool_call =
  tc_name :: json
  tc_arguments :: json

definition tool_calls_from_openai_format :: "json list \<Rightarrow> tool_call list res" where
  "tool_calls_from_openai_format tool_calls =
     mapE (\<lambda>tool_call.
       bindE (getitem ''function'' tool_call) (\<lambda>f.
       bindE (getitem ''name'' f) (\<lambda>n.
       bindE (getitem ''function'' tool_call) (\<lambda>f.
       bindE (getitem ''arguments'' f) (\<lambda>a.
         Inr \<lparr>tc_name = n, tc_arguments = a\<rparr>))))) tool_calls"

definition openai_call :: "tool_call \<Rightarrow> json" where
  "openai_call tool_call =
     JObj [(lit ''type'', JStr (lit ''function'')),
           (lit ''function'',
              JObj [(lit ''name'', tc_name tool_call), (lit ''arguments'', tc_arguments tool_call)])]"

definition tool_calls_to_openai_format :: "tool_call list \<Rightarrow> json list" where
  "tool_calls_to_openai_format tool_calls = map openai_call tool_calls"

text \<open>
  The arguments of a call as a value: a dict is taken as it is, anything else is given to
  \<open>json.loads\<close>; text that is not JSON, and a value that is not text, is wrapped.
\<close>

definition arguments_of :: "pylib \<Rightarrow> json \<Rightarrow> json" where
  "arguments_of lib raw =
     (case raw of
        JObj kvs \<Rightarrow> JObj kvs
      | JStr s \<Rightarrow>
          (case json_loads (py_float lib) s of
             Inl _ \<Rightarrow> JObj [(lit ''arguments'', raw)]
           | Inr v \<Rightarrow> v)
      | _ \<Rightarrow> JObj [(lit ''arguments'', raw)])"

definition dsml_param :: "pystr \<times> json \<Rightarrow> pystr" where
  "dsml_param kv =
     (case kv of
        (k, JStr s) \<Rightarrow> p_dsml_template k (lit ''true'') s
      | (k, v) \<Rightarrow> p_dsml_template k (lit ''false'') (to_json v))"

text \<open>\<open>.items()\<close> of a value that is not a dict raises.\<close>

definition encode_arguments_to_dsml :: "pylib \<Rightarrow> tool_call \<Rightarrow> pystr res" where
  "encode_arguments_to_dsml lib tool_call =
     (case arguments_of lib (tc_arguments tool_call) of
        JObj kvs \<Rightarrow> Inr (py_join (lit ''\<newline>'') (map dsml_param kvs))
      | _ \<Rightarrow> Inl AttributeError)"

definition decode_value :: "pystr \<times> (pystr \<times> pystr) \<Rightarrow> pystr" where
  "decode_value arg =
     (case arg of (key, (value, string)) \<Rightarrow>
        to_json (JStr key) @ lit '': '' @
        (if string = lit ''true'' then to_json (JStr value) else value))"

definition decode_dsml_to_arguments :: "pystr \<Rightarrow> (pystr \<times> (pystr \<times> pystr)) list \<Rightarrow> tool_call" where
  "decode_dsml_to_arguments tool_name tool_args =
     \<lparr>tc_name = JStr tool_name,
      tc_arguments =
        JStr (lit ''{'' @ py_join (lit '', '') (map decode_value tool_args) @ lit ''}'')\<rparr>"

definition render_tools :: "json list \<Rightarrow> pystr" where
  "render_tools tools = TOOLS_TEMPLATE (py_join (lit ''\<newline>'') (map to_json tools))"

end
