(* ===== verification/EncParse.thy ===== *)
theory EncParse
  imports EncTokens
begin

text \<open>
  The decoding half of \<open>deepseek_v4_encoding.py\<close>: \<open>_read_until_stop\<close>, \<open>parse_tool_calls\<close> and
  \<open>parse_message_from_completion_text\<close>, with the regular expressions of the source as the
  functions they denote and every \<open>raise\<close> and \<open>assert\<close> as a branch.
\<close>

section \<open>Reading up to a stop string\<close>

fun stop_step :: "pystr \<Rightarrow> nat \<Rightarrow> nat \<times> pystr option \<Rightarrow> pystr \<Rightarrow> nat \<times> pystr option" where
  "stop_step tx index (min_pos, matched_stop) s =
     (case py_find s tx index of
        None \<Rightarrow> (min_pos, matched_stop)
      | Some pos \<Rightarrow> if pos < min_pos then (pos, Some s) else (min_pos, matched_stop))"

definition read_until_stop :: "nat \<Rightarrow> pystr \<Rightarrow> pystr list \<Rightarrow> nat \<times> pystr \<times> pystr option" where
  "read_until_stop index tx stop =
     (case foldl (stop_step tx index) (length tx, None) stop of
        (min_pos, Some (c # cs)) \<Rightarrow>
          (min_pos + length (c # cs), take (min_pos - index) (drop index tx), Some (c # cs))
      | _ \<Rightarrow> (length tx, drop index tx, None))"

section \<open>Regular expressions\<close>

text \<open>Python's \<open>\s\<close> on text: the characters with \<open>str.isspace\<close>.\<close>

definition is_space :: "int \<Rightarrow> bool" where
  "is_space c \<longleftrightarrow>
     (9 \<le> c \<and> c \<le> 13) \<or> (28 \<le> c \<and> c \<le> 32) \<or> c = 133 \<or> c = 160 \<or> c = 5760 \<or>
     (8192 \<le> c \<and> c \<le> 8202) \<or> c = 8232 \<or> c = 8233 \<or> c = 8239 \<or> c = 8287 \<or> c = 12288"

text \<open>\<open>(.*?)\<close> under \<open>DOTALL\<close>: the shortest prefix whose remainder matches what follows.\<close>

fun lazy_split :: "(pystr \<Rightarrow> 'b option) \<Rightarrow> pystr \<Rightarrow> (pystr \<times> 'b) option" where
  "lazy_split p [] = (case p [] of Some x \<Rightarrow> Some ([], x) | None \<Rightarrow> None)"
| "lazy_split p (c # s) =
     (case p (c # s) of
        Some x \<Rightarrow> Some ([], x)
      | None \<Rightarrow> map_option (\<lambda>(l, x). (c # l, x)) (lazy_split p s))"

text \<open>\<open>$\<close> without \<open>MULTILINE\<close>: the end of the text, or just before a final newline.\<close>

definition at_end :: "pystr \<Rightarrow> bool" where
  "at_end s \<longleftrightarrow> s = [] \<or> s = [10]"

text \<open>\<open>^\s*name="(.*?)">\n$\<close>. The name attribute starts with a letter, so \<open>\s*\<close> takes every space.\<close>

definition name_tail :: "pystr \<Rightarrow> unit option" where
  "name_tail s = (if prefix (lit ''\">\<newline>'') s \<and> at_end (drop 3 s) then Some () else None)"

definition match_tool_name :: "pystr \<Rightarrow> pystr option" where
  "match_tool_name s =
     (let r = dropWhile is_space s in
      if prefix (lit ''name=\"'') r then map_option fst (lazy_split name_tail (drop 6 r)) else None)"

text \<open>\<open>^ name="(.*?)" string="(true|false)">(.*?)<$\<close>.\<close>

definition value_tail :: "pystr \<Rightarrow> unit option" where
  "value_tail s = (if prefix (lit ''<'') s \<and> at_end (drop 1 s) then Some () else None)"

definition param_tail :: "pystr \<Rightarrow> (pystr \<times> pystr) option" where
  "param_tail s =
     (if prefix (lit ''\" string=\"true\">'') s
      then map_option (\<lambda>(v, _). (lit ''true'', v)) (lazy_split value_tail (drop 16 s))
      else if prefix (lit ''\" string=\"false\">'') s
      then map_option (\<lambda>(v, _). (lit ''false'', v)) (lazy_split value_tail (drop 17 s))
      else None)"

definition match_param :: "pystr \<Rightarrow> (pystr \<times> pystr \<times> pystr) option" where
  "match_param s =
     (if prefix (lit '' name=\"'') s then lazy_split param_tail (drop 7 s) else None)"

section \<open>Tool calls\<close>

definition invoke_start :: pystr where
  "invoke_start = lit ''<'' @ dsml_token @ lit ''invoke''"

definition invoke_end :: pystr where
  "invoke_end = lit ''</'' @ dsml_token @ lit ''invoke''"

definition parameter_start :: pystr where
  "parameter_start = lit ''<'' @ dsml_token @ lit ''parameter''"

definition parameter_end :: pystr where
  "parameter_end = lit ''/'' @ dsml_token @ lit ''parameter''"

definition tool_calls_end_token :: pystr where
  "tool_calls_end_token = lit ''</'' @ dsml_token @ tool_calls_block_name @ lit ''>''"

definition tool_calls_start_token :: pystr where
  "tool_calls_start_token = lit ''\<newline>\<newline><'' @ dsml_token @ tool_calls_block_name"

text \<open>The read index never goes back and never passes the end of the text.\<close>

lemma stop_step_bounds:
  assumes "fst acc \<le> length tx" and "index \<le> fst acc" and "snd acc \<noteq> None \<longrightarrow> fst acc + length (the (snd acc)) \<le> length tx"
  shows "fst (stop_step tx index acc s) \<le> length tx \<and> index \<le> fst (stop_step tx index acc s) \<and>
     (snd (stop_step tx index acc s) \<noteq> None \<longrightarrow>
        fst (stop_step tx index acc s) + length (the (snd (stop_step tx index acc s))) \<le> length tx)"
proof (cases "py_find s tx index")
  case None
  with assms show ?thesis by (cases acc) auto
next
  case (Some pos)
  then have "index \<le> pos" "pos + length s \<le> length tx"
    by (auto simp: py_find_def split: if_splits dest: find_sub_Some)
  with Some assms show ?thesis by (cases acc) auto
qed

lemma stop_fold_bounds:
  assumes "fst acc \<le> length tx" and "index \<le> fst acc"
    and "snd acc \<noteq> None \<longrightarrow> fst acc + length (the (snd acc)) \<le> length tx"
    and "foldl (stop_step tx index) acc stop = (p, m)"
  shows "p \<le> length tx \<and> index \<le> p \<and> (m \<noteq> None \<longrightarrow> p + length (the m) \<le> length tx)"
  using assms
proof (induction stop arbitrary: acc)
  case (Cons s stop)
  show ?case
    using Cons.IH [OF _ _ _ Cons.prems(4) [unfolded foldl_Cons]] stop_step_bounds [OF Cons.prems(1-3), of s]
    by blast
qed auto

lemma read_until_stop_index:
  assumes "index \<le> length tx" and "read_until_stop index tx stop = (index', content, matched)"
  shows "index' \<le> length tx \<and> index \<le> index' \<and> (matched \<noteq> None \<longrightarrow> index < index')"
proof -
  obtain p m where f: "foldl (stop_step tx index) (length tx, None) stop = (p, m)" by fastforce
  from stop_fold_bounds [OF _ _ _ f] assms(1)
  have b: "p \<le> length tx" "index \<le> p" "m \<noteq> None \<longrightarrow> p + length (the m) \<le> length tx" by auto
  show ?thesis using assms f b
    by (auto simp: read_until_stop_def split: option.splits list.splits)
qed

lemma read_until_stop_bounds:
  "(index', content, matched) = read_until_stop index tx stop \<Longrightarrow> \<not> length tx < index \<Longrightarrow>
     index' \<le> length tx \<and> index \<le> index' \<and> (matched \<noteq> None \<longrightarrow> index < index')"
  by (rule read_until_stop_index [OF _ sym]) auto

text \<open>
  The inner loop over parameters. \<open>stop_token\<close> is the stop that ended the previous read. An index
  beyond the text cannot occur (\<open>read_until_stop_index\<close>); the test on it makes termination plain.
\<close>

function parse_params ::
  "nat \<Rightarrow> pystr \<Rightarrow> pystr option \<Rightarrow> (pystr \<times> (pystr \<times> pystr)) list \<Rightarrow>
   (nat \<times> pystr option \<times> (pystr \<times> (pystr \<times> pystr)) list) res" where
  "parse_params index tx stop_token tool_args =
     (if stop_token \<noteq> Some parameter_start \<or> length tx < index then Inr (index, stop_token, tool_args)
      else case read_until_stop index tx [parameter_end] of
        (index1, param_content, stop1) \<Rightarrow>
          (case match_param param_content of
             None \<Rightarrow> Inl ValueError
           | Some (param_name, string, param_value) \<Rightarrow>
               if param_name \<in> set (map fst tool_args) then Inl ValueError
               else case read_until_stop index1 tx [parameter_start, invoke_end] of
                 (index2, content, stop2) \<Rightarrow>
                   if content \<noteq> lit ''>\<newline>'' then Inl ValueError
                   else parse_params index2 tx stop2
                          (tool_args @ [(param_name, (param_value, string))])))"
  by pat_completeness auto
termination
  by (relation "measure (\<lambda>(index, tx, stop_token, tool_args).
         2 * (length tx - index) + (if stop_token = None then 0 else 1))")
    (simp, clarsimp, drule (1) read_until_stop_bounds, drule read_until_stop_bounds, auto)

declare parse_params.simps [simp del]

text \<open>One iteration's invoke section, from the read that found \<open>invoke_start\<close>.\<close>

definition parse_invoke :: "nat \<Rightarrow> pystr \<Rightarrow> (nat \<times> pystr option \<times> tool_call) res" where
  "parse_invoke index tx =
     (case read_until_stop index tx [parameter_start, invoke_end] of
        (index1, tool_name_content, stop1) \<Rightarrow>
          (case match_tool_name tool_name_content of
             None \<Rightarrow> Inl ValueError
           | Some tool_name \<Rightarrow>
               bindE (parse_params index1 tx stop1 []) (\<lambda>(index2, stop2, tool_args).
                 Inr (index2, stop2, decode_dsml_to_arguments tool_name tool_args))))"

lemma parse_params_index:
  "parse_params index tx stop_token tool_args = Inr (index', stop', args') \<Longrightarrow> index \<le> length tx \<Longrightarrow>
     index \<le> index' \<and> index' \<le> length tx"
proof (induction index tx stop_token tool_args rule: parse_params.induct)
  case (1 index tx stop_token tool_args)
  show ?case
  proof (cases "stop_token \<noteq> Some parameter_start \<or> length tx < index")
    case True
    with 1 show ?thesis by (subst (asm) (2) parse_params.simps) (auto split: if_splits)
  next
    case False
    obtain index1 pc stop1 where r1: "read_until_stop index tx [parameter_end] = (index1, pc, stop1)"
      by (metis prod_cases3)
    obtain index2 c stop2 where
      r2: "read_until_stop index1 tx [parameter_start, invoke_end] = (index2, c, stop2)"
      by (metis prod_cases3)
    obtain n s v where m: "match_param pc = Some (n, s, v)" "n \<notin> set (map fst tool_args)"
      "c = lit ''>\<newline>''"
      "parse_params index2 tx stop2 (tool_args @ [(n, (v, s))]) = Inr (index', stop', args')"
      using "1.prems"(1) False r1 r2
      by (subst (asm) (2) parse_params.simps) (auto split: option.splits if_splits)
    note b1 = read_until_stop_index [OF "1.prems"(2) r1]
    note b2 = read_until_stop_index [OF conjunct1 [OF b1] r2]
    have "index2 \<le> index' \<and> index' \<le> length tx"
      by (rule "1.IH" [OF False r1 [symmetric] refl m(1) refl refl _ r2 [symmetric] refl _ m(4)])
        (use m b2 in auto)
    with b1 b2 show ?thesis by auto
  qed
qed

lemma parse_invoke_index:
  assumes "parse_invoke index tx = Inr (index', stop', tc)" and "index \<le> length tx"
  shows "index \<le> index' \<and> index' \<le> length tx"
proof -
  obtain i1 c s1 where r: "read_until_stop index tx [parameter_start, invoke_end] = (i1, c, s1)"
    by (metis prod_cases3)
  from assms r obtain i2 s2 args where "parse_params i1 tx s1 [] = Inr (i2, s2, args)" "index' = i2"
    by (auto simp: parse_invoke_def exc_simps split: option.splits)
  with parse_params_index [of i1 tx s1 "[]" i2 s2 args] read_until_stop_index [OF assms(2) r]
  show ?thesis by auto
qed

lemma parse_invoke_bounds:
  "parse_invoke index tx = Inr (index', stop', tc) \<Longrightarrow> \<not> length tx < index \<Longrightarrow>
     index \<le> index' \<and> index' \<le> length tx"
  by (rule parse_invoke_index) auto

text \<open>The outer loop of \<open>parse_tool_calls\<close>, with its three variables.\<close>

function parse_calls_from ::
  "nat \<Rightarrow> pystr \<Rightarrow> pystr option \<Rightarrow> tool_call list \<Rightarrow> (nat \<times> pystr option \<times> tool_call list) res" where
  "parse_calls_from index tx stop_token calls =
     (if length tx \<le> index then Inr (index, stop_token, calls)
      else case read_until_stop index tx [invoke_start, tool_calls_end_token] of
        (index1, between, stop1) \<Rightarrow>
          if between \<noteq> lit ''>\<newline>'' then Inl ValueError
          else if stop1 = Some tool_calls_end_token then Inr (index1, stop1, calls)
          else if stop1 = None then Inl ValueError
          else case parse_invoke index1 tx of
                 Inl e \<Rightarrow> Inl e
               | Inr (index2, stop2, tool_call) \<Rightarrow>
                   parse_calls_from index2 tx stop2 (calls @ [tool_call]))"
  by pat_completeness auto
termination
  by (relation "measure (\<lambda>(index, tx, stop_token, calls). length tx - index)")
    (simp, clarsimp, drule read_until_stop_bounds, force, drule parse_invoke_bounds, auto)

declare parse_calls_from.simps [simp del]

definition parse_tool_calls :: "nat \<Rightarrow> pystr \<Rightarrow> (nat \<times> pystr option \<times> tool_call list) res" where
  "parse_tool_calls index tx = parse_calls_from index tx None []"

section \<open>Messages\<close>

text \<open>The dict the parser returns.\<close>

record parsed_message =
  pm_role :: pystr
  pm_content :: pystr
  pm_reasoning_content :: pystr
  pm_tool_calls :: "json list"

definition has_special_token :: "pystr \<Rightarrow> bool" where
  "has_special_token s \<longleftrightarrow>
     list_ex (\<lambda>t. py_in t s)
       [bos_token, eos_token, thinking_start_token, thinking_end_token, dsml_token]"

definition read_reasoning :: "pystr \<Rightarrow> pystr \<Rightarrow> (nat \<times> pystr) res" where
  "read_reasoning tx thinking_mode =
     (if thinking_mode = lit ''thinking'' then
        (case read_until_stop 0 tx [thinking_end_token, tool_calls_start_token] of
           (index, content_delta, stop_token) \<Rightarrow>
             bindE (assertE (stop_token = Some thinking_end_token)) (\<lambda>_. Inr (index, content_delta)))
      else Inr (0, []))"

definition parse_message_from_completion_text :: "pystr \<Rightarrow> pystr \<Rightarrow> parsed_message res" where
  "parse_message_from_completion_text tx thinking_mode =
     bindE (read_reasoning tx thinking_mode) (\<lambda>(index, reasoning).
     (case read_until_stop index tx [eos_token, tool_calls_start_token] of
        (index1, summary, stop1) \<Rightarrow>
          bindE
            (if stop1 = Some tool_calls_start_token then
               bindE (parse_tool_calls index1 tx) (\<lambda>(index2, _, calls).
               (case read_until_stop index2 tx [eos_token] of
                  (index3, tool_ends_text, stop3) \<Rightarrow>
                    bindE (assertE (tool_ends_text = [])) (\<lambda>_. Inr (index3, stop3, calls))))
             else bindE (assertE (stop1 = Some eos_token)) (\<lambda>_. Inr (index1, stop1, [])))
            (\<lambda>(index_end, stop_end, calls).
               bindE (assertE (length tx = index_end \<and> (stop_end = Some eos_token \<or> stop_end = None)))
                 (\<lambda>_.
               bindE (assertE (\<not> has_special_token summary \<and> \<not> has_special_token reasoning)) (\<lambda>_.
                 Inr \<lparr>pm_role = lit ''assistant'', pm_content = summary,
                      pm_reasoning_content = reasoning,
                      pm_tool_calls = tool_calls_to_openai_format calls\<rparr>)))))"

end
