(* ===== verification/EncStops.thy ===== *)
theory EncStops
  imports EncParse
begin

text \<open>
  Why a reader that looks for stop strings finds them where a writer put them: first occurrences of
  the special tokens, and substrings of text assembled from clean pieces.
\<close>

section \<open>Stops that are found where they were written\<close>

text \<open>
  \<open>compat t s\<close>: reading up to \<open>s\<close>, the stop \<open>t\<close> cannot be found earlier by straddling the place where
  \<open>s\<close> begins, nor at that place unless it is \<open>s\<close>.
\<close>

definition compat :: "pystr \<Rightarrow> pystr \<Rightarrow> bool" where
  "compat t s \<longleftrightarrow> no_overlap t s \<and> (t = s \<or> \<not> prefix t s \<and> \<not> prefix s t)"

lemma py_find_hit:
  assumes "compat s s" and "\<not> sublist s body"
  shows "py_find s (pre @ body @ s @ rest) (length pre) = Some (length pre + length body)"
  using assms find_sub_append_hit [of s body rest] by (simp add: py_find_def compat_def)

lemma py_find_later:
  assumes "compat t s" and "t \<noteq> s" and "\<not> sublist t body"
    and "py_find t (pre @ body @ s @ rest) (length pre) = Some p"
  shows "length pre + length body < p"
proof -
  have "\<not> prefix t (s @ rest)" using assms(1,2) unfolding compat_def
    by (metis prefix_def prefix_same_cases)
  with assms find_sub_append_ge [of t s body rest] show ?thesis
    by (auto simp: py_find_def compat_def)
qed

lemma read_until_stop_hit:
  assumes "s \<in> set stops" and "s \<noteq> []"
    and c: "\<And>t. t \<in> set stops \<Longrightarrow> compat t s \<and> \<not> sublist t body"
  shows "read_until_stop (length pre) (pre @ body @ s @ rest) stops
           = (length pre + length body + length s, body, Some s)"
proof -
  let ?tx = "pre @ body @ s @ rest" and ?n = "length pre + length body"
  have "foldl (stop_step ?tx (length pre)) acc stops = (?n, Some s)"
    if "s \<in> set stops \<and> ?n < fst acc \<or> acc = (?n, Some s)" for acc
    using that c
  proof (induction stops arbitrary: acc)
    case (Cons t stops)
    obtain mp ms where acc: "acc = (mp, ms)" by (cases acc)
    have t: "compat t s" "\<not> sublist t body" using Cons.prems(2) by auto
    show ?case
    proof (cases "t = s")
      case True
      have "stop_step ?tx (length pre) acc t = (?n, Some s)"
        using py_find_hit [of s body pre rest] t True Cons.prems(1) acc by auto
      with Cons show ?thesis by simp
    next
      case False
      have "?n < fst (stop_step ?tx (length pre) acc t) \<and> s \<in> set stops \<or>
            stop_step ?tx (length pre) acc t = (?n, Some s)"
        using py_find_later [OF t(1) False t(2), of pre rest] Cons.prems(1) acc False
        by (auto split: option.splits)
      then show ?thesis using Cons.IH [of "stop_step ?tx (length pre) acc t"] Cons.prems(2) by auto
    qed
  qed auto
  from this [of "(length ?tx, None)"] assms(1,2)
  have "foldl (stop_step ?tx (length pre)) (length ?tx, None) stops = (?n, Some s)" by (cases s) auto
  with assms(2) show ?thesis by (cases s) (auto simp: read_until_stop_def)
qed

lemma compat_tokens:
  "compat thinking_end_token thinking_end_token"
  "compat tool_calls_start_token thinking_end_token"
  "compat eos_token eos_token"
  "compat tool_calls_start_token eos_token"
  "compat eos_token tool_calls_start_token"
  "compat tool_calls_start_token tool_calls_start_token"
  "compat invoke_start invoke_start"
  "compat tool_calls_end_token invoke_start"
  "compat invoke_start tool_calls_end_token"
  "compat tool_calls_end_token tool_calls_end_token"
  "compat parameter_start parameter_start"
  "compat invoke_end parameter_start"
  "compat parameter_start invoke_end"
  "compat invoke_end invoke_end"
  "compat parameter_end parameter_end"
  by code_simp+

section \<open>Substrings of short pieces\<close>

lemma sublist_append_left:
  "sublist s (a @ x) \<Longrightarrow> s \<noteq> [] \<Longrightarrow> hd s \<notin> set a \<Longrightarrow> sublist s x"
proof (induction a)
  case (Cons c a)
  have "\<not> prefix s (c # a @ x)" using Cons.prems(2,3) by (cases s) auto
  with Cons.prems(1) have "sublist s (a @ x)" by (simp add: sublist_Cons_right)
  with Cons show ?case by simp
qed simp

lemma sublist_append_right:
  assumes "sublist s (x @ b)" and "s \<noteq> []" and "last s \<notin> set b"
  shows "sublist s x"
proof -
  have "sublist (rev s) (rev b @ rev x)" using assms(1) by (metis rev_append sublist_rev)
  then have "sublist (rev s) (rev x)"
    by (rule sublist_append_left) (use assms in \<open>auto simp: hd_rev\<close>)
  then show ?thesis by simp
qed

definition clean :: "pystr \<Rightarrow> bool" where
  "clean s \<longleftrightarrow> find_sub dsml_token s = None"

lemma clean_iff: "clean s \<longleftrightarrow> \<not> sublist dsml_token s"
  by (simp add: clean_def find_sub_None_iff)

lemma dsml_ends: "dsml_token \<noteq> []" "hd dsml_token = 65372" "last dsml_token = 65372"
  by (simp_all add: dsml_token_def)

lemma clean_plain: "65372 \<notin> set s \<Longrightarrow> clean s"
  unfolding clean_iff
  using sublist_append_right [of dsml_token "[]" s] dsml_ends by auto

lemma clean_wrap: "clean n \<Longrightarrow> 65372 \<notin> set a \<Longrightarrow> 65372 \<notin> set b \<Longrightarrow> clean (a @ n @ b)"
  unfolding clean_iff
  using sublist_append_left [of dsml_token a "n @ b"] sublist_append_right [of dsml_token n b] dsml_ends
  by auto

text \<open>Two clean pieces around text that has a character no token has.\<close>

lemma clean_join:
  assumes "clean a" and "clean b" and "x \<notin> set dsml_token"
  shows "clean (a @ x # b)"
  unfolding clean_iff
proof
  assume "sublist dsml_token (a @ x # b)"
  then obtain l r where e: "a @ x # b = l @ dsml_token @ r" by (auto simp: sublist_def)
  show False
  proof (cases "length l + length dsml_token \<le> length a")
    case True
    have "take (length a) (a @ x # b) = take (length a) (l @ dsml_token @ r)" using e by simp
    then have "a = l @ dsml_token @ take (length a - length l - length dsml_token) r" using True by simp
    with assms(1) show False unfolding clean_iff by (metis sublist_appendI)
  next
    case len: False
    show False
    proof (cases "length a < length l")
      case True
      have "drop (Suc (length a)) (a @ x # b) = drop (Suc (length a)) (l @ dsml_token @ r)" using e by simp
      then have "b = drop (Suc (length a)) l @ dsml_token @ r" using True by simp
      with assms(2) show False unfolding clean_iff by (metis sublist_appendI)
    next
      case False
      have lt: "length a - length l < length dsml_token" using False len by linarith
      have "x = (l @ dsml_token @ r) ! length a" using e by (metis nth_append_length)
      also have "\<dots> = dsml_token ! (length a - length l)"
        using False lt by (simp add: nth_append)
      also have "\<dots> \<in> set dsml_token" using lt by (rule nth_mem)
      finally show False using assms(3) by simp
    qed
  qed
qed

lemma sublist_dsml_tokens:
  "sublist dsml_token tool_calls_start_token" "sublist dsml_token invoke_start"
  "sublist dsml_token invoke_end" "sublist dsml_token parameter_start"
  "sublist dsml_token parameter_end" "sublist dsml_token tool_calls_end_token"
  by (simp_all add: tool_calls_start_token_def invoke_start_def invoke_end_def parameter_start_def
      parameter_end_def tool_calls_end_token_def)

lemma clean_no_token:
  "clean s \<Longrightarrow> sublist dsml_token t \<Longrightarrow> \<not> sublist t s"
  unfolding clean_iff by (meson sublist_order.order_trans)

lemmas clean_tokens = sublist_dsml_tokens [THEN clean_no_token [rotated]]

end
