(* ===== verification/EncRender.thy ===== *)
theory EncRender
  imports EncTokens
begin

text \<open>
  \<open>find_last_user_index\<close> and \<open>render_message\<close> of \<open>deepseek_v4_encoding.py\<close>: one message of a
  conversation as prompt text, with the exceptions the code raises. A message is a dict; its keys
  are the fields of the record, \<open>None\<close> for an absent key. \<open>content\<close> and the blocks are untyped
  JSON, as in the code; \<open>tools\<close> and \<open>tool_calls\<close> are \<open>[]\<close> when absent, which the code treats alike.
\<close>

record message =
  role :: "pystr option"
  content :: "json option"
  content_blocks :: "json list option"
  tools :: "json list"
  response_format :: "json option"
  tool_calls :: "json list"
  reasoning_content :: "pystr option"
  wo_eos :: "bool option"
  task :: "pystr option"
  mask :: "json option"
  tool_call_id :: "json option"

definition has_role :: "message \<Rightarrow> string \<Rightarrow> bool" where
  "has_role msg r \<longleftrightarrow> role msg = Some (lit r)"

definition is_user_or_developer :: "message \<Rightarrow> bool" where
  "is_user_or_developer msg \<longleftrightarrow> has_role msg ''user'' \<or> has_role msg ''developer''"

text \<open>The scan of \<open>find_last_user_index\<close> from index \<open>i - 1\<close> downwards.\<close>

fun last_user_below :: "message list \<Rightarrow> nat \<Rightarrow> int" where
  "last_user_below messages 0 = -1"
| "last_user_below messages (Suc i) =
     (if is_user_or_developer (messages ! i) then int i else last_user_below messages i)"

definition find_last_user_index :: "message list \<Rightarrow> int" where
  "find_last_user_index messages = last_user_below messages (length messages)"

text \<open>\<open>content or ""\<close>.\<close>

definition content_or_empty :: "json option \<Rightarrow> json" where
  "content_or_empty c = (case c of Some v \<Rightarrow> if truthy v then v else JStr [] | None \<Rightarrow> JStr [])"

definition fmt_opt :: "pylib \<Rightarrow> json option \<Rightarrow> pystr" where
  "fmt_opt lib v = fmt lib (get_or JNull v)"

definition blank_line :: pystr where
  "blank_line = lit ''\<newline>\<newline>''"

definition tools_section :: "json list \<Rightarrow> pystr" where
  "tools_section ts = (if ts = [] then [] else blank_line @ render_tools ts)"

definition format_section :: "json option \<Rightarrow> pystr" where
  "format_section rf =
     (case rf of
        Some f \<Rightarrow> if truthy f then blank_line @ response_format_template (to_json f) else []
      | None \<Rightarrow> [])"

definition render_system :: "pylib \<Rightarrow> message \<Rightarrow> json list \<Rightarrow> pystr res" where
  "render_system lib msg ts =
     Inr (fmt lib (content_or_empty (content msg))
          @ tools_section ts @ format_section (response_format msg))"

definition render_developer :: "pylib \<Rightarrow> message \<Rightarrow> json list \<Rightarrow> pystr res" where
  "render_developer lib msg ts =
     bindE (assertE (truthy (get_or JNull (content msg)))) (\<lambda>_.
     bindE (as_str (get_or JNull (content msg))) (\<lambda>c.
       Inr (USER_SP_TOKEN @ c @ tools_section ts @ format_section (response_format msg))))"

definition unsupported :: "pylib \<Rightarrow> json option \<Rightarrow> pystr" where
  "unsupported lib block_type = lit ''[Unsupported '' @ fmt_opt lib block_type @ lit '']''"

text \<open>One entry of a tool result's content list.\<close>

definition render_part :: "pylib \<Rightarrow> json \<Rightarrow> json res" where
  "render_part lib b =
     bindE (dict_get ''type'' b) (\<lambda>ty.
       if ty = Some (JStr (lit ''text''))
       then bindE (dict_get ''text'' b) (\<lambda>t. Inr (get_or (JStr []) t))
       else Inr (JStr (unsupported lib ty)))"

definition render_block :: "pylib \<Rightarrow> json \<Rightarrow> json res" where
  "render_block lib block =
     bindE (dict_get ''type'' block) (\<lambda>block_type.
       if block_type = Some (JStr (lit ''text''))
       then bindE (dict_get ''text'' block) (\<lambda>t. Inr (get_or (JStr []) t))
       else if block_type = Some (JStr (lit ''tool_result''))
       then bindE (dict_get ''content'' block) (\<lambda>c.
              case get_or (JStr []) c of
                JArr bs \<Rightarrow>
                  bindE (mapE (render_part lib) bs) (\<lambda>text_parts.
                  bindE (join_json blank_line text_parts) (\<lambda>t.
                    Inr (JStr (tool_output_template t))))
              | tool_content \<Rightarrow> Inr (JStr (tool_output_template (fmt lib tool_content))))
       else Inr (JStr (unsupported lib block_type)))"

definition render_user :: "pylib \<Rightarrow> message \<Rightarrow> pystr res" where
  "render_user lib msg =
     (case content_blocks msg of
        Some (b # bs) \<Rightarrow>
          bindE (mapE (render_block lib) (b # bs)) (\<lambda>parts.
          bindE (join_json blank_line parts) (\<lambda>t. Inr (USER_SP_TOKEN @ t)))
      | _ \<Rightarrow> bindE (as_str (content_or_empty (content msg))) (\<lambda>t. Inr (USER_SP_TOKEN @ t)))"

text \<open>The tool-calls block of an assistant message.\<close>

definition render_tool_call :: "pylib \<Rightarrow> tool_call \<Rightarrow> pystr res" where
  "render_tool_call lib tc =
     bindE (encode_arguments_to_dsml lib tc) (\<lambda>args.
       Inr (tool_call_template (fmt lib (tc_name tc)) args))"

definition render_tool_calls :: "pylib \<Rightarrow> tool_call list \<Rightarrow> pystr res" where
  "render_tool_calls lib tcs =
     (if tcs = [] then Inr []
      else bindE (mapE (render_tool_call lib) tcs) (\<lambda>tc_list.
             Inr (blank_line @
                  tool_calls_template tool_calls_block_name (py_join (lit ''\<newline>'') tc_list))))"

text \<open>The thinking part: reasoning and its end token, or nothing when reasoning is dropped.\<close>

definition thinking_part :: "nat \<Rightarrow> message list \<Rightarrow> pystr \<Rightarrow> bool \<Rightarrow> pystr" where
  "thinking_part index messages thinking_mode drop_thinking =
     (let prev_has_task = (0 < index \<and> task (messages ! (index - 1)) \<noteq> None);
          rc = (case reasoning_content (messages ! index) of None \<Rightarrow> [] | Some r \<Rightarrow> r)
      in if thinking_mode = lit ''thinking'' \<and> \<not> prev_has_task \<and>
            (\<not> drop_thinking \<or> find_last_user_index messages < int index)
         then rc @ thinking_end_token else [])"

definition render_assistant ::
  "pylib \<Rightarrow> nat \<Rightarrow> message list \<Rightarrow> pystr \<Rightarrow> bool \<Rightarrow> tool_call list \<Rightarrow> pystr res" where
  "render_assistant lib index messages thinking_mode drop_thinking tcs =
     bindE (render_tool_calls lib tcs) (\<lambda>tc_content.
       Inr (thinking_part index messages thinking_mode drop_thinking
            @ fmt lib (content_or_empty (content (messages ! index))) @ tc_content
            @ (if wo_eos (messages ! index) = Some True then [] else eos_token)))"

text \<open>The role dispatch of \<open>render_message\<close>.\<close>

definition render_body ::
  "pylib \<Rightarrow> nat \<Rightarrow> message list \<Rightarrow> pystr \<Rightarrow> bool \<Rightarrow> json list \<Rightarrow> tool_call list \<Rightarrow> pystr res" where
  "render_body lib index messages thinking_mode drop_thinking ts tcs =
     (let msg = messages ! index in
      if has_role msg ''system'' then render_system lib msg ts
      else if has_role msg ''developer'' then render_developer lib msg ts
      else if has_role msg ''user'' then render_user lib msg
      else if has_role msg ''latest_reminder'' then
        Inr (LATEST_REMINDER_SP_TOKEN @ fmt_opt lib (content msg))
      else if has_role msg ''tool'' then Inl NotImplementedError
      else if has_role msg ''assistant'' then
        render_assistant lib index messages thinking_mode drop_thinking tcs
      else Inl NotImplementedError)"

text \<open>The tokens that follow a message, depending on what comes next.\<close>

definition transition :: "nat \<Rightarrow> message list \<Rightarrow> pystr \<Rightarrow> bool \<Rightarrow> pystr res" where
  "transition index messages thinking_mode drop_thinking =
     (if Suc index < length messages \<and>
         \<not> (has_role (messages ! Suc index) ''assistant'' \<or>
            has_role (messages ! Suc index) ''latest_reminder'')
      then Inr []
      else case task (messages ! index) of
        Some t \<Rightarrow>
          (case map_of DS_TASK_SP_TOKENS t of
             None \<Rightarrow> Inl AssertionError
           | Some task_sp_token \<Rightarrow>
               Inr (if t \<noteq> lit ''action'' then task_sp_token
                    else ASSISTANT_SP_TOKEN
                         @ (if thinking_mode \<noteq> lit ''thinking''
                            then thinking_end_token else thinking_start_token)
                         @ task_sp_token))
      | None \<Rightarrow>
          Inr (if is_user_or_developer (messages ! index)
               then ASSISTANT_SP_TOKEN
                    @ (if \<not> drop_thinking \<and> thinking_mode = lit ''thinking''
                       then thinking_start_token
                       else if drop_thinking \<and> thinking_mode = lit ''thinking'' \<and>
                               find_last_user_index messages \<le> int index
                       then thinking_start_token
                       else thinking_end_token)
               else []))"

definition effort_of :: "pystr option \<Rightarrow> pystr" where
  "effort_of reasoning_effort =
     (case reasoning_effort of
        Some (c # cs) \<Rightarrow> c # cs
      | _ \<Rightarrow> DEFAULT_REASONING_EFFORT)"

definition render_message ::
  "pylib \<Rightarrow> nat \<Rightarrow> message list \<Rightarrow> pystr \<Rightarrow> bool \<Rightarrow> pystr option \<Rightarrow> pystr res" where
  "render_message lib index messages thinking_mode drop_thinking reasoning_effort =
     bindE (assertE (index < length messages)) (\<lambda>_.
     bindE (assertE (thinking_mode = lit ''chat'' \<or> thinking_mode = lit ''thinking'')) (\<lambda>_.
     bindE (tools_from_openai_format (tools (messages ! index))) (\<lambda>ts.
     bindE (tool_calls_from_openai_format (tool_calls (messages ! index))) (\<lambda>tcs.
       (case map_of REASONING_EFFORT_PROMPTS (effort_of reasoning_effort) of
          None \<Rightarrow> Inl AssertionError
        | Some effort \<Rightarrow>
            bindE (render_body lib index messages thinking_mode drop_thinking ts tcs) (\<lambda>body.
            bindE (transition index messages thinking_mode drop_thinking) (\<lambda>tail.
              Inr ((if index = 0 \<and> thinking_mode = lit ''thinking'' then effort else [])
                   @ body @ tail))))))))"

end
