(* ===== verification/EncPreprocess.thy ===== *)
theory EncPreprocess
  imports EncRender
begin

text \<open>
  The preprocessing passes and the entry point of \<open>deepseek_v4_encoding.py\<close>:
  \<open>merge_tool_messages\<close>, \<open>sort_tool_results_by_call_order\<close>, \<open>_drop_thinking_messages\<close> and
  \<open>encode_messages\<close>. The code copies messages before changing them, except where
  \<open>sort_tool_results_by_call_order\<close> writes into the caller's \<open>context\<close>; that write is visible in
  the model as the context the later pass starts from.
\<close>

section \<open>Merging tool messages\<close>

definition empty_message :: message where
  "empty_message =
     \<lparr>role = None, content = None, content_blocks = None, tools = [], response_format = None,
      tool_calls = [], reasoning_content = None, wo_eos = None, task = None, mask = None,
      tool_call_id = None\<rparr>"

definition tool_block_of :: "message \<Rightarrow> json" where
  "tool_block_of msg =
     JObj [(lit ''type'', JStr (lit ''tool_result'')),
           (lit ''tool_use_id'', get_or (JStr []) (tool_call_id msg)),
           (lit ''content'', get_or (JStr []) (content msg))]"

definition text_block_of :: "message \<Rightarrow> json" where
  "text_block_of msg =
     JObj [(lit ''type'', JStr (lit ''text'')), (lit ''text'', get_or (JStr []) (content msg))]"

text \<open>Whether the last merged message is a user message that already carries blocks.\<close>

definition open_user :: "message list \<Rightarrow> bool" where
  "open_user merged \<longleftrightarrow>
     merged \<noteq> [] \<and> has_role (last merged) ''user'' \<and> content_blocks (last merged) \<noteq> None"

definition append_block :: "json \<Rightarrow> message list \<Rightarrow> message list" where
  "append_block block merged =
     butlast merged @
       [(last merged)\<lparr>content_blocks := map_option (\<lambda>bs. bs @ [block]) (content_blocks (last merged))\<rparr>]"

definition merge_step :: "message list \<Rightarrow> message \<Rightarrow> message list" where
  "merge_step merged msg =
     (if has_role msg ''tool'' then
        (if open_user merged then append_block (tool_block_of msg) merged
         else merged @ [empty_message\<lparr>role := Some (lit ''user''),
                                      content_blocks := Some [tool_block_of msg]\<rparr>])
      else if has_role msg ''user'' then
        (if open_user merged \<and> task (last merged) = None
         then append_block (text_block_of msg) merged
         else merged @ [empty_message\<lparr>role := Some (lit ''user''),
                                      content := Some (get_or (JStr []) (content msg)),
                                      content_blocks := Some [text_block_of msg],
                                      task := task msg, wo_eos := wo_eos msg, mask := mask msg\<rparr>])
      else merged @ [msg])"

definition merge_tool_messages :: "message list \<Rightarrow> message list" where
  "merge_tool_messages messages = foldl merge_step [] messages"

section \<open>Sorting tool results\<close>

text \<open>
  \<open>tc.get("id") or tc.get("function", {}).get("id", "")\<close>: the identifier of a tool call, if it has
  one. Identifiers are strings.
\<close>

definition json_id :: "json option \<Rightarrow> pystr option" where
  "json_id v = (case v of Some (JStr (c # cs)) \<Rightarrow> Some (c # cs) | _ \<Rightarrow> None)"

definition call_id :: "json \<Rightarrow> pystr option res" where
  "call_id tc =
     bindE (dict_get ''id'' tc) (\<lambda>i.
       if json_id i \<noteq> None then Inr (json_id i)
       else bindE (dict_get ''function'' tc) (\<lambda>f.
            bindE (dict_get ''id'' (get_or (JObj []) f)) (\<lambda>j. Inr (json_id j))))"

text \<open>\<open>last_tool_call_order\<close>: identifier to position, a later duplicate overwriting an earlier one.\<close>

fun call_order_from :: "nat \<Rightarrow> json list \<Rightarrow> (pystr \<times> nat) list \<Rightarrow> (pystr \<times> nat) list res" where
  "call_order_from i [] order = Inr order"
| "call_order_from i (tc # tcs) order =
     bindE (call_id tc) (\<lambda>tc_id.
       call_order_from (Suc i) tcs
         (case tc_id of None \<Rightarrow> order | Some x \<Rightarrow> dict_put x i order))"

definition call_order :: "json list \<Rightarrow> (pystr \<times> nat) list res" where
  "call_order tcs = call_order_from 0 tcs []"

definition is_tool_result :: "json \<Rightarrow> bool" where
  "is_tool_result b \<longleftrightarrow> dict_get ''type'' b = Inr (Some (JStr (lit ''tool_result'')))"

text \<open>\<open>last_tool_call_order.get(b.get("tool_use_id", ""), 0)\<close>.\<close>

definition result_key :: "(pystr \<times> nat) list \<Rightarrow> json \<Rightarrow> nat" where
  "result_key order b =
     (case dict_get ''tool_use_id'' b of
        Inr (Some (JStr x)) \<Rightarrow> (case map_of order x of Some i \<Rightarrow> i | None \<Rightarrow> 0)
      | Inr None \<Rightarrow> (case map_of order [] of Some i \<Rightarrow> i | None \<Rightarrow> 0)
      | _ \<Rightarrow> 0)"

text \<open>The loop that puts the sorted tool results back into the places tool results had.\<close>

fun refill :: "json list \<Rightarrow> json list \<Rightarrow> json list" where
  "refill sorted_blocks [] = []"
| "refill sorted_blocks (b # bs) =
     (if is_tool_result b
      then (case sorted_blocks of
              [] \<Rightarrow> b # refill [] bs
            | s # ss \<Rightarrow> s # refill ss bs)
      else b # refill sorted_blocks bs)"

definition sort_blocks :: "(pystr \<times> nat) list \<Rightarrow> json list \<Rightarrow> json list" where
  "sort_blocks order bs =
     (let tool_blocks = filter is_tool_result bs in
      if 1 < length tool_blocks \<and> order \<noteq> []
      then refill (sort_key (result_key order) tool_blocks) bs
      else bs)"

text \<open>The pass over the messages, with \<open>last_tool_call_order\<close> as its state.\<close>

fun sort_results_from :: "(pystr \<times> nat) list \<Rightarrow> message list \<Rightarrow> message list res" where
  "sort_results_from order [] = Inr []"
| "sort_results_from order (msg # msgs) =
     (if has_role msg ''assistant'' \<and> tool_calls msg \<noteq> [] then
        bindE (call_order (tool_calls msg)) (\<lambda>order'.
        bindE (sort_results_from order' msgs) (\<lambda>ms. Inr (msg # ms)))
      else if has_role msg ''user'' then
        (case content_blocks msg of
           Some (b # bs) \<Rightarrow>
             bindE (mapE (dict_get ''type'') (b # bs)) (\<lambda>_.
             bindE (sort_results_from order msgs) (\<lambda>ms.
               Inr (msg\<lparr>content_blocks := Some (sort_blocks order (b # bs))\<rparr> # ms)))
         | _ \<Rightarrow> bindE (sort_results_from order msgs) (\<lambda>ms. Inr (msg # ms)))
      else bindE (sort_results_from order msgs) (\<lambda>ms. Inr (msg # ms)))"

definition sort_tool_results_by_call_order :: "message list \<Rightarrow> message list res" where
  "sort_tool_results_by_call_order messages = sort_results_from [] messages"

section \<open>Dropping reasoning\<close>

definition keep_role :: "message \<Rightarrow> bool" where
  "keep_role msg \<longleftrightarrow>
     has_role msg ''user'' \<or> has_role msg ''system'' \<or> has_role msg ''tool'' \<or>
     has_role msg ''latest_reminder'' \<or> has_role msg ''direct_search_results''"

fun drop_from :: "int \<Rightarrow> int \<Rightarrow> message list \<Rightarrow> message list" where
  "drop_from last_user_idx idx [] = []"
| "drop_from last_user_idx idx (msg # msgs) =
     (if keep_role msg \<or> last_user_idx \<le> idx then msg # drop_from last_user_idx (idx + 1) msgs
      else if has_role msg ''assistant''
      then msg\<lparr>reasoning_content := None\<rparr> # drop_from last_user_idx (idx + 1) msgs
      else drop_from last_user_idx (idx + 1) msgs)"

definition drop_thinking_messages :: "message list \<Rightarrow> message list" where
  "drop_thinking_messages messages = drop_from (find_last_user_index messages) 0 messages"

section \<open>The entry point\<close>

text \<open>
  The rendering loop \<open>for idx in range(num_to_render)\<close>. The model's counts are \<open>int\<close> because the code
  subtracts lengths; a negative \<open>num_to_render\<close> renders nothing.
\<close>

fun render_range ::
  "pylib \<Rightarrow> message list \<Rightarrow> pystr \<Rightarrow> bool \<Rightarrow> pystr option \<Rightarrow> nat \<Rightarrow> nat \<Rightarrow> pystr res" where
  "render_range lib msgs thinking_mode drop_thinking reasoning_effort first 0 = Inr []"
| "render_range lib msgs thinking_mode drop_thinking reasoning_effort first (Suc n) =
     bindE (render_message lib first msgs thinking_mode drop_thinking reasoning_effort) (\<lambda>p.
     bindE (render_range lib msgs thinking_mode drop_thinking reasoning_effort (Suc first) n) (\<lambda>ps.
       Inr (p @ ps)))"

definition encode_messages ::
  "pylib \<Rightarrow> message list \<Rightarrow> pystr \<Rightarrow> message list \<Rightarrow> bool \<Rightarrow> bool \<Rightarrow> pystr option \<Rightarrow> pystr res" where
  "encode_messages lib messages0 thinking_mode context0 drop_thinking add_default_bos_token
       reasoning_effort =
     bindE (sort_tool_results_by_call_order (context0 @ merge_tool_messages messages0)) (\<lambda>sorted.
     (let messages = drop (length context0) sorted;
          context1 = merge_tool_messages (take (length context0) sorted)
      in
     bindE (if context0 = [] then Inr [] else sort_tool_results_by_call_order context1) (\<lambda>context.
     (let full_messages = context @ messages;
          prompt = (if add_default_bos_token \<and> context = [] then bos_token else []);
          effective_drop = (drop_thinking \<and> \<not> list_ex (\<lambda>m. tools m \<noteq> []) full_messages)
      in
      if thinking_mode = lit ''thinking'' \<and> effective_drop then
        (let full = drop_thinking_messages full_messages;
             num_to_render = int (length full) - int (length (drop_thinking_messages context));
             context_len = int (length full) - num_to_render
         in bindE (render_range lib full thinking_mode effective_drop reasoning_effort
                     (nat context_len) (nat num_to_render)) (\<lambda>p. Inr (prompt @ p)))
      else
        bindE (render_range lib full_messages thinking_mode effective_drop reasoning_effort
                 (length context) (length messages)) (\<lambda>p. Inr (prompt @ p))))))"

end
