(* ===== verification/EncRoundtrip.thy ===== *)
theory EncRoundtrip
  imports EncStops EncPreprocess
begin

text \<open>
  The parser inverts the renderer: parameters, invocations, the tool-calls block and the whole
  assistant turn, each read back from the place in the text where it was written.
\<close>

section \<open>Parameters\<close>

definition param_flag :: "json \<Rightarrow> pystr" where
  "param_flag v = (case v of JStr s \<Rightarrow> lit ''true'' | _ \<Rightarrow> lit ''false'')"

definition param_value :: "json \<Rightarrow> pystr" where
  "param_value v = (case v of JStr s \<Rightarrow> s | _ \<Rightarrow> to_json v)"

definition param_body :: "pystr \<times> json \<Rightarrow> pystr" where
  "param_body kv =
     lit '' name=\"'' @ fst kv @ lit ''\" string=\"'' @ param_flag (snd kv) @ lit ''\">''
       @ param_value (snd kv) @ lit ''<''"

lemma dsml_param_eq: "dsml_param kv = parameter_start @ param_body kv @ parameter_end @ lit ''>''"
  by (cases kv; cases "snd kv")
    (auto simp: dsml_param_def param_body_def p_dsml_template_def parameter_start_def
      parameter_end_def param_flag_def param_value_def lit_Cons)

lemma lazy_split_hit:
  "p y = Some r \<Longrightarrow> (\<And>c b. \<exists>a. x = a @ c # b \<Longrightarrow> p (c # b @ y) = None) \<Longrightarrow>
     lazy_split p (x @ y) = Some (x, r)"
proof (induction x)
  case Nil
  then show ?case by (cases y) auto
next
  case (Cons c x)
  have "p (c # x @ y) = None" using Cons.prems(2) [of c x] by blast
  moreover have "lazy_split p (x @ y) = Some (x, r)"
  proof (rule Cons.IH [OF Cons.prems(1)])
    show "p (d # b @ y) = None" if "\<exists>a. x = a @ d # b" for d b
      using Cons.prems(2) [of d b] that by (metis append_Cons)
  qed
  ultimately show ?case by simp
qed

lemma lazy_value: "lazy_split value_tail (v @ [60]) = Some (v, ())"
  by (rule lazy_split_hit) (auto simp: value_tail_def at_end_def lit_Cons)

lemma param_tail_hit:
  "param_tail (lit ''\" string=\"'' @ param_flag v @ lit ''\">'' @ w @ [60]) = Some (param_flag v, w)"
  using lazy_value [of w]
  by (cases v) (simp_all add: param_tail_def param_flag_def lit_Cons)

lemma match_param_body:
  assumes "34 \<notin> set k"
  shows "match_param (param_body (k, v)) = Some (k, param_flag v, param_value v)"
proof -
  have "lazy_split param_tail
          (k @ lit ''\" string=\"'' @ param_flag v @ lit ''\">'' @ param_value v @ [60])
        = Some (k, param_flag v, param_value v)"
  proof (rule lazy_split_hit)
    show "param_tail (lit ''\" string=\"'' @ param_flag v @ lit ''\">'' @ param_value v @ [60])
        = Some (param_flag v, param_value v)" by (rule param_tail_hit)
    show "param_tail (c # b @ lit ''\" string=\"'' @ param_flag v @ lit ''\">'' @ param_value v @ [60])
        = None" if "\<exists>a. k = a @ c # b" for c b
      using that assms by (auto simp: param_tail_def lit_Cons)
  qed
  then show ?thesis by (simp add: match_param_def param_body_def lit_Cons)
qed

text \<open>A parameter the parser reads back: no quote in the key, no DSML token in key or value.\<close>

definition param_ok :: "pystr \<times> json \<Rightarrow> bool" where
  "param_ok kv \<longleftrightarrow> 34 \<notin> set (fst kv) \<and> clean (fst kv) \<and> clean (param_value (snd kv))"

lemma dsml_set: "set dsml_token = {65372, 68, 83, 77, 76}"
  by (auto simp: dsml_token_def lit_Cons)

lemma clean_suffix: "clean n \<Longrightarrow> 65372 \<notin> set b \<Longrightarrow> clean (n @ b)"
  using clean_wrap [of n "[]" b] by simp

lemma clean_prefix: "clean n \<Longrightarrow> 65372 \<notin> set a \<Longrightarrow> clean (a @ n)"
  using clean_wrap [of n a "[]"] by simp

lemma param_body_clean:
  assumes "param_ok kv"
  shows "clean (param_body kv)"
proof -
  let ?r = "lit '' string=\"'' @ param_flag (snd kv) @ lit ''\"''"
  have "65372 \<notin> set (param_flag v)" for v by (cases v) (auto simp: param_flag_def lit_Cons)
  then have r: "clean ?r" by (intro clean_plain) (simp add: lit_Cons)
  have v: "clean (param_value (snd kv) @ lit ''<'')"
    using assms by (intro clean_suffix) (simp_all add: param_ok_def lit_Cons)
  have k: "clean (lit '' name=\"'' @ fst kv)"
    using assms by (intro clean_prefix) (simp_all add: param_ok_def lit_Cons)
  have "clean (?r @ 62 # param_value (snd kv) @ lit ''<'')"
    by (rule clean_join [OF r v]) (simp add: dsml_set)
  then have "clean ((lit '' name=\"'' @ fst kv) @ 34 # ?r @ 62 # param_value (snd kv) @ lit ''<'')"
    by (rule clean_join [OF k]) (simp add: dsml_set)
  then show ?thesis by (simp add: param_body_def lit_Cons)
qed

text \<open>The text after the token that opened the first parameter.\<close>

fun ptail :: "(pystr \<times> json) list \<Rightarrow> pystr" where
  "ptail [] = invoke_end"
| "ptail (p # ps) = parameter_start @ param_body p @ parameter_end @ lit ''>\<newline>'' @ ptail ps"

definition parsed_arg :: "pystr \<times> json \<Rightarrow> pystr \<times> (pystr \<times> pystr)" where
  "parsed_arg kv = (fst kv, (param_value (snd kv), param_flag (snd kv)))"

lemma newline_clean: "clean (lit ''>\<newline>'')"
  by (rule clean_plain) (simp add: lit_Cons)

lemma tokens_nonempty [simp]:
  "invoke_start \<noteq> []" "invoke_end \<noteq> []" "parameter_start \<noteq> []" "parameter_end \<noteq> []"
  "tool_calls_end_token \<noteq> []" "tool_calls_start_token \<noteq> []" "eos_token \<noteq> []" "thinking_end_token \<noteq> []"
  by (simp_all add: invoke_start_def invoke_end_def parameter_start_def parameter_end_def
      tool_calls_end_token_def tool_calls_start_token_def eos_token_def sp_token_def
      thinking_end_token_def lit_Cons)

lemma tokens_distinct [simp]: "invoke_end \<noteq> parameter_start" "parameter_start \<noteq> invoke_end"
  "invoke_start \<noteq> tool_calls_end_token" "tool_calls_end_token \<noteq> invoke_start"
  "eos_token \<noteq> tool_calls_start_token" "tool_calls_start_token \<noteq> eos_token"
  by (simp_all add: invoke_start_def invoke_end_def parameter_start_def tool_calls_start_token_def
      tool_calls_end_token_def eos_token_def sp_token_def lit_Cons)

lemma parse_params_roundtrip:
  assumes "list_all param_ok (p # ps)" and "distinct (map fst acc @ map fst (p # ps))"
  shows "parse_params (length pre)
           (pre @ param_body p @ parameter_end @ lit ''>\<newline>'' @ ptail ps @ rest)
           (Some parameter_start) acc
         = Inr (length (pre @ param_body p @ parameter_end @ lit ''>\<newline>'' @ ptail ps),
                Some invoke_end, acc @ map parsed_arg (p # ps))"
  using assms
proof (induction ps arbitrary: p pre acc)
  case Nil
  let ?t = "pre @ param_body p @ parameter_end @ lit ''>\<newline>'' @ invoke_end @ rest"
  have r1: "read_until_stop (length pre) ?t [parameter_end]
      = (length pre + length (param_body p) + length parameter_end, param_body p, Some parameter_end)"
    by (rule read_until_stop_hit) (use Nil clean_tokens param_body_clean compat_tokens in auto)
  have r2: "read_until_stop (length (pre @ param_body p @ parameter_end))
        ((pre @ param_body p @ parameter_end) @ lit ''>\<newline>'' @ invoke_end @ rest) [parameter_start, invoke_end]
      = (length (pre @ param_body p @ parameter_end) + length (lit ''>\<newline>'') + length invoke_end,
          lit ''>\<newline>'', Some invoke_end)"
    by (rule read_until_stop_hit) (use clean_tokens newline_clean compat_tokens in auto)
  have m: "match_param (param_body p) = Some (fst p, param_flag (snd p), param_value (snd p))"
    using match_param_body [of "fst p" "snd p"] Nil.prems(1) by (simp add: param_ok_def)
  have f: "parse_params n ?t (Some invoke_end) a = Inr (n, Some invoke_end, a)" for n a
    by (subst parse_params.simps) simp
  show ?case
    using Nil.prems(2) r2 by (subst parse_params.simps) (simp add: r1 m f parsed_arg_def add.assoc)
next
  case (Cons q ps)
  let ?n = "pre @ param_body p @ parameter_end"
  let ?r = "param_body q @ parameter_end @ lit ''>\<newline>'' @ ptail ps @ rest"
  let ?t = "?n @ lit ''>\<newline>'' @ parameter_start @ ?r"
  have r1: "read_until_stop (length pre) (pre @ param_body p @ parameter_end @ (lit ''>\<newline>'' @ parameter_start @ ?r))
        [parameter_end]
      = (length pre + length (param_body p) + length parameter_end, param_body p, Some parameter_end)"
    by (rule read_until_stop_hit) (use Cons clean_tokens param_body_clean compat_tokens in auto)
  have r2: "read_until_stop (length ?n) ?t [parameter_start, invoke_end]
      = (length ?n + length (lit ''>\<newline>'') + length parameter_start, lit ''>\<newline>'', Some parameter_start)"
    by (rule read_until_stop_hit) (use clean_tokens newline_clean compat_tokens in auto)
  have m: "match_param (param_body p) = Some (fst p, param_flag (snd p), param_value (snd p))"
    using match_param_body [of "fst p" "snd p"] Cons.prems(1) by (simp add: param_ok_def)
  let ?pre' = "?n @ lit ''>\<newline>'' @ parameter_start"
  have IH: "parse_params (length ?pre') (?pre' @ ?r) (Some parameter_start) (acc @ [parsed_arg p])
      = Inr (length (?pre' @ param_body q @ parameter_end @ lit ''>\<newline>'' @ ptail ps), Some invoke_end,
             (acc @ [parsed_arg p]) @ map parsed_arg (q # ps))"
    by (rule Cons.IH) (use Cons.prems in \<open>auto simp: parsed_arg_def\<close>)
  show ?case
    using Cons.prems(2) r1 r2 IH
    by (subst parse_params.simps) (simp add: m parsed_arg_def add.assoc)
qed

section \<open>Invocations\<close>

lemma match_tool_name_hit:
  assumes "34 \<notin> set n" and "t = [] \<or> t = [10]"
  shows "match_tool_name (lit '' name=\"'' @ n @ lit ''\">\<newline>'' @ t) = Some n"
proof -
  have "lazy_split name_tail (n @ lit ''\">\<newline>'' @ t) = Some (n, ())"
  proof (rule lazy_split_hit)
    show "name_tail (lit ''\">\<newline>'' @ t) = Some ()"
      using assms(2) by (auto simp: name_tail_def at_end_def lit_Cons)
    show "name_tail (c # b @ lit ''\">\<newline>'' @ t) = None" if "\<exists>a. n = a @ c # b" for c b
      using that assms(1) by (auto simp: name_tail_def lit_Cons)
  qed
  then show ?thesis by (simp add: match_tool_name_def lit_Cons is_space_def)
qed

text \<open>A call with its arguments resolved to a dict.\<close>

type_synonym call = "pystr \<times> (pystr \<times> json) list"

definition call_ok :: "call \<Rightarrow> bool" where
  "call_ok c \<longleftrightarrow> 34 \<notin> set (fst c) \<and> clean (fst c) \<and> list_all param_ok (snd c) \<and> distinct (map fst (snd c))"

definition invoke_rest :: "call \<Rightarrow> pystr" where
  "invoke_rest c =
     lit '' name=\"'' @ fst c @ lit ''\">\<newline>''
       @ (if snd c = [] then lit ''\<newline>'' @ invoke_end else ptail (snd c))"

definition parsed_call :: "call \<Rightarrow> tool_call" where
  "parsed_call c = \<lparr>tc_name = JStr (fst c), tc_arguments = JStr (json_dumps (JObj (snd c)))\<rparr>"

lemma decode_parsed_args:
  "decode_dsml_to_arguments n (map parsed_arg kvs) = parsed_call (n, kvs)"
proof -
  have "decode_value (parsed_arg (k, v)) = json_str k @ [58, 32] @ json_dumps v" for k v
    by (cases v) (auto simp: decode_value_def parsed_arg_def to_json_def param_flag_def param_value_def
        lit_Cons)
  then have "map (decode_value \<circ> parsed_arg) kvs
      = map (\<lambda>(k, v). json_str k @ [58, 32] @ json_dumps v) kvs" by (auto simp del: append.simps)
  moreover have "lit ''{'' = [123]" "lit ''}'' = [125]" "lit '', '' = [44, 32]" by (simp_all add: lit_Cons)
  ultimately show ?thesis
    by (simp only: decode_dsml_to_arguments_def parsed_call_def map_map json_dumps.simps fst_conv snd_conv)
qed

lemma name_clean:
  assumes "clean n" and "65372 \<notin> set t"
  shows "clean (lit '' name=\"'' @ n @ lit ''\">\<newline>'' @ t)"
  using clean_wrap [of n "lit '' name=\"''" "lit ''\">\<newline>'' @ t"] assms by (simp add: lit_Cons)

lemma parse_invoke_roundtrip:
  assumes "call_ok c"
  shows "parse_invoke (length pre) (pre @ invoke_rest c @ rest)
         = Inr (length (pre @ invoke_rest c), Some invoke_end, parsed_call c)"
proof (cases "snd c")
  case Nil
  have b: "clean (lit '' name=\"'' @ fst c @ lit ''\">\<newline>'' @ lit ''\<newline>'')"
    using assms by (intro name_clean) (auto simp: call_ok_def lit_Cons)
  have r: "read_until_stop (length pre)
       (pre @ (lit '' name=\"'' @ fst c @ lit ''\">\<newline>'' @ lit ''\<newline>'') @ invoke_end @ rest)
       [parameter_start, invoke_end]
     = (length pre + length (lit '' name=\"'' @ fst c @ lit ''\">\<newline>'' @ lit ''\<newline>'') + length invoke_end,
        lit '' name=\"'' @ fst c @ lit ''\">\<newline>'' @ lit ''\<newline>'', Some invoke_end)"
    by (rule read_until_stop_hit) (use clean_tokens b compat_tokens in auto)
  have m: "match_tool_name (lit '' name=\"'' @ fst c @ lit ''\">\<newline>'' @ lit ''\<newline>'') = Some (fst c)"
    by (rule match_tool_name_hit) (use assms in \<open>auto simp: call_ok_def lit_Cons\<close>)
  have f: "parse_params n t (Some invoke_end) [] = Inr (n, Some invoke_end, [])" for n t
    by (subst parse_params.simps) simp
  show ?thesis
    using r m decode_parsed_args [of "fst c" "[]"] Nil
    by (cases c) (simp add: parse_invoke_def invoke_rest_def f add.assoc)
next
  case (Cons p ps)
  have b: "clean (lit '' name=\"'' @ fst c @ lit ''\">\<newline>'')"
    using assms name_clean [of "fst c" "[]"] by (auto simp: call_ok_def)
  let ?q = "param_body p @ parameter_end @ lit ''>\<newline>'' @ ptail ps @ rest"
  have r: "read_until_stop (length pre)
       (pre @ (lit '' name=\"'' @ fst c @ lit ''\">\<newline>'') @ parameter_start @ ?q) [parameter_start, invoke_end]
     = (length pre + length (lit '' name=\"'' @ fst c @ lit ''\">\<newline>'') + length parameter_start,
        lit '' name=\"'' @ fst c @ lit ''\">\<newline>'', Some parameter_start)"
    by (rule read_until_stop_hit) (use clean_tokens b compat_tokens in auto)
  have m: "match_tool_name (lit '' name=\"'' @ fst c @ lit ''\">\<newline>'') = Some (fst c)"
    using match_tool_name_hit [of "fst c" "[]"] assms by (auto simp: call_ok_def)
  let ?pre' = "pre @ lit '' name=\"'' @ fst c @ lit ''\">\<newline>'' @ parameter_start"
  have p: "parse_params (length ?pre') (?pre' @ ?q) (Some parameter_start) []
     = Inr (length (?pre' @ param_body p @ parameter_end @ lit ''>\<newline>'' @ ptail ps), Some invoke_end,
            [] @ map parsed_arg (p # ps))"
    by (rule parse_params_roundtrip) (use assms Cons in \<open>auto simp: call_ok_def\<close>)
  have d: "decode_dsml_to_arguments (fst c) (parsed_arg p # map parsed_arg ps) = parsed_call c"
    using decode_parsed_args [of "fst c" "p # ps"] Cons by (cases c) simp
  show ?thesis
    using r m p d Cons by (simp add: parse_invoke_def invoke_rest_def add.assoc)
qed

section \<open>The tool-calls block\<close>

fun ctail :: "call list \<Rightarrow> pystr" where
  "ctail [] = lit ''>\<newline>'' @ tool_calls_end_token"
| "ctail (c # cs) = lit ''>\<newline>'' @ invoke_start @ invoke_rest c @ ctail cs"

lemma parse_calls_roundtrip:
  assumes "list_all call_ok cs"
  shows "parse_calls_from (length pre) (pre @ ctail cs @ rest) st acc
         = Inr (length (pre @ ctail cs), Some tool_calls_end_token, acc @ map parsed_call cs)"
  using assms
proof (induction cs arbitrary: pre st acc)
  case Nil
  have r: "read_until_stop (length pre) (pre @ lit ''>\<newline>'' @ tool_calls_end_token @ rest)
        [invoke_start, tool_calls_end_token]
      = (length pre + length (lit ''>\<newline>'') + length tool_calls_end_token, lit ''>\<newline>'',
         Some tool_calls_end_token)"
    by (rule read_until_stop_hit) (use clean_tokens newline_clean compat_tokens in auto)
  show ?case using r by (subst parse_calls_from.simps) (simp add: add.assoc)
next
  case (Cons c cs)
  let ?t = "pre @ lit ''>\<newline>'' @ invoke_start @ invoke_rest c @ ctail cs @ rest"
  have r: "read_until_stop (length pre) ?t [invoke_start, tool_calls_end_token]
      = (length pre + length (lit ''>\<newline>'') + length invoke_start, lit ''>\<newline>'', Some invoke_start)"
    by (rule read_until_stop_hit) (use clean_tokens newline_clean compat_tokens in auto)
  have i: "parse_invoke (length (pre @ lit ''>\<newline>'' @ invoke_start))
        ((pre @ lit ''>\<newline>'' @ invoke_start) @ invoke_rest c @ ctail cs @ rest)
      = Inr (length ((pre @ lit ''>\<newline>'' @ invoke_start) @ invoke_rest c), Some invoke_end, parsed_call c)"
    by (rule parse_invoke_roundtrip) (use Cons.prems in simp)
  have IH: "parse_calls_from (length (pre @ lit ''>\<newline>'' @ invoke_start @ invoke_rest c))
        ((pre @ lit ''>\<newline>'' @ invoke_start @ invoke_rest c) @ ctail cs @ rest) (Some invoke_end)
        (acc @ [parsed_call c])
      = Inr (length ((pre @ lit ''>\<newline>'' @ invoke_start @ invoke_rest c) @ ctail cs),
             Some tool_calls_end_token, (acc @ [parsed_call c]) @ map parsed_call cs)"
    by (rule Cons.IH) (use Cons.prems in simp)
  show ?case using r i IH by (subst parse_calls_from.simps) (simp add: add.assoc)
qed

definition call_text :: "call \<Rightarrow> pystr" where
  "call_text c = tool_call_template (fst c) (py_join (lit ''\<newline>'') (map dsml_param (snd c)))"

lemma params_join:
  "py_join (lit ''\<newline>'') (map dsml_param (p # ps)) @ lit ''\<newline>'' @ invoke_end = ptail (p # ps)"
proof (induction ps arbitrary: p)
  case Nil
  show ?case by (simp add: dsml_param_eq lit_Cons)
next
  case (Cons q ps)
  then show ?case by (simp add: dsml_param_eq lit_Cons)
qed

lemma call_text_eq: "call_text c = invoke_start @ invoke_rest c @ lit ''>''"
proof -
  have t: "tool_call_template n a
      = invoke_start @ lit '' name=\"'' @ n @ lit ''\">\<newline>'' @ (a @ lit ''\<newline>'' @ invoke_end) @ lit ''>''" for n a
    by (simp add: tool_call_template_def invoke_start_def invoke_end_def lit_Cons)
  show ?thesis
  proof (cases "snd c")
    case Nil
    then show ?thesis by (simp add: call_text_def t invoke_rest_def)
  next
    case (Cons p ps)
    then show ?thesis using params_join [of p ps] by (simp add: call_text_def t invoke_rest_def)
  qed
qed

lemma calls_join:
  "py_join (lit ''\<newline>'') (map call_text (c # cs)) @ lit ''\<newline>'' @ tool_calls_end_token
     = invoke_start @ invoke_rest c @ ctail cs"
proof (induction cs arbitrary: c)
  case Nil
  show ?case by (simp add: call_text_eq lit_Cons)
next
  case (Cons d cs)
  then show ?case by (simp add: call_text_eq lit_Cons)
qed

lemma tool_calls_text:
  assumes "cs \<noteq> []"
  shows "blank_line @ tool_calls_template tool_calls_block_name (py_join (lit ''\<newline>'') (map call_text cs))
     = tool_calls_start_token @ ctail cs"
proof -
  obtain c cs' where c: "cs = c # cs'" using assms by (cases cs) auto
  have "blank_line @ tool_calls_template tool_calls_block_name x
      = tool_calls_start_token @ lit ''>\<newline>'' @ x @ lit ''\<newline>'' @ tool_calls_end_token" for x
    by (simp add: blank_line_def tool_calls_template_def tool_calls_start_token_def tool_calls_end_token_def
        lit_Cons)
  then show ?thesis using calls_join [of c cs'] c by simp
qed

section \<open>Resolving the calls of a message\<close>

text \<open>The calls of a message whose names are strings and whose arguments resolve to dicts.\<close>

definition resolves :: "pylib \<Rightarrow> tool_call \<Rightarrow> call \<Rightarrow> bool" where
  "resolves lib tc c \<longleftrightarrow>
     tc_name tc = JStr (fst c) \<and> arguments_of lib (tc_arguments tc) = JObj (snd c)"

lemma render_tool_calls_text:
  assumes "list_all2 (resolves lib) tcs cs"
  shows "render_tool_calls lib tcs = Inr (if cs = [] then [] else tool_calls_start_token @ ctail cs)"
proof -
  have "mapE (render_tool_call lib) tcs = Inr (map call_text cs)"
    using assms
    by (induction rule: list_all2_induct)
      (auto simp: render_tool_call_def resolves_def encode_arguments_to_dsml_def call_text_def)
  moreover have "tcs = [] \<longleftrightarrow> cs = []" using assms by (auto dest: list_all2_lengthD)
  ultimately show ?thesis using tool_calls_text [of cs] by (simp add: render_tool_calls_def)
qed

section \<open>The assistant turn\<close>

text \<open>Text the final checks of the parser accept.\<close>

definition plain :: "pystr \<Rightarrow> bool" where
  "plain s \<longleftrightarrow> \<not> has_special_token s"

lemma plain_tokens:
  assumes "plain s"
  shows "\<not> sublist eos_token s" "\<not> sublist thinking_end_token s" "\<not> sublist tool_calls_start_token s"
    "clean s"
  using assms clean_tokens(1) [of s]
  by (auto simp: plain_def has_special_token_def find_sub_None_iff clean_iff)

lemma read_reasoning_hit:
  assumes "plain rc"
  shows "read_reasoning (rc @ thinking_end_token @ rest) (lit ''thinking'')
           = Inr (length (rc @ thinking_end_token), rc)"
proof -
  have "read_until_stop (length ([] :: pystr)) ([] @ rc @ thinking_end_token @ rest)
          [thinking_end_token, tool_calls_start_token]
      = (length ([] :: pystr) + length rc + length thinking_end_token, rc, Some thinking_end_token)"
    by (rule read_until_stop_hit) (use plain_tokens [OF assms] compat_tokens in auto)
  then show ?thesis by (simp add: read_reasoning_def)
qed

lemma parse_rest:
  assumes "read_reasoning (pre @ c @ (if cs = [] then [] else tool_calls_start_token @ ctail cs) @ eos_token) mode
             = Inr (length pre, rc)"
    and "plain rc" and "plain c" and "list_all call_ok cs"
  shows "parse_message_from_completion_text
           (pre @ c @ (if cs = [] then [] else tool_calls_start_token @ ctail cs) @ eos_token) mode
         = Inr \<lparr>pm_role = lit ''assistant'', pm_content = c, pm_reasoning_content = rc,
                pm_tool_calls = map (openai_call \<circ> parsed_call) cs\<rparr>"
proof (cases "cs = []")
  case True
  have "read_until_stop (length pre) (pre @ c @ eos_token @ []) [eos_token, tool_calls_start_token]
      = (length pre + length c + length eos_token, c, Some eos_token)"
    by (rule read_until_stop_hit) (use plain_tokens [OF assms(3)] compat_tokens in auto)
  with True assms show ?thesis
    by (simp add: parse_message_from_completion_text_def plain_def tool_calls_to_openai_format_def)
next
  case False
  let ?t = "pre @ c @ tool_calls_start_token @ ctail cs @ eos_token"
  have r: "read_until_stop (length pre) ?t [eos_token, tool_calls_start_token]
      = (length pre + length c + length tool_calls_start_token, c, Some tool_calls_start_token)"
    by (rule read_until_stop_hit) (use plain_tokens [OF assms(3)] compat_tokens in auto)
  have p: "parse_calls_from (length (pre @ c @ tool_calls_start_token))
        ((pre @ c @ tool_calls_start_token) @ ctail cs @ eos_token) None []
      = Inr (length ((pre @ c @ tool_calls_start_token) @ ctail cs), Some tool_calls_end_token,
             [] @ map parsed_call cs)"
    by (rule parse_calls_roundtrip [OF assms(4)])
  have e: "read_until_stop (length (pre @ c @ tool_calls_start_token @ ctail cs))
        ((pre @ c @ tool_calls_start_token @ ctail cs) @ [] @ eos_token @ []) [eos_token]
      = (length (pre @ c @ tool_calls_start_token @ ctail cs) + length ([] :: pystr) + length eos_token, [],
         Some eos_token)"
    by (rule read_until_stop_hit) (use compat_tokens in auto)
  show ?thesis
    using False assms r p e
    by (simp add: parse_message_from_completion_text_def parse_tool_calls_def plain_def
        tool_calls_to_openai_format_def add.assoc)
qed



section \<open>One more assistant message\<close>

lemma assistant_role:
  assumes "has_role a ''assistant''"
  shows "\<not> has_role a ''tool''" "\<not> has_role a ''user''" "\<not> has_role a ''developer''"
    "\<not> has_role a ''system''" "\<not> has_role a ''latest_reminder''" "\<not> is_user_or_developer a"
  using assms by (simp_all add: has_role_def is_user_or_developer_def lit_Cons)

lemma merge_append:
  "has_role a ''assistant'' \<Longrightarrow> merge_tool_messages (msgs @ [a]) = merge_tool_messages msgs @ [a]"
  by (simp add: merge_tool_messages_def merge_step_def assistant_role)

lemma merge_step_nonempty: "merge_step ms m \<noteq> []"
  by (simp add: merge_step_def append_block_def)

lemma merge_nonempty: "msgs \<noteq> [] \<Longrightarrow> merge_tool_messages msgs \<noteq> []"
  by (cases msgs rule: rev_cases) (simp_all add: merge_tool_messages_def merge_step_nonempty)

lemma sort_append:
  assumes "has_role a ''assistant''" and "call_order (tool_calls a) = Inr o'"
  shows "sort_results_from order (ms @ [a]) = bindE (sort_results_from order ms) (\<lambda>ys. Inr (ys @ [a]))"
proof (induction ms arbitrary: order)
  case Nil
  show ?case using assms by (simp add: assistant_role)
next
  case (Cons msg ms)
  have b: "bindE (bindE m f) g = bindE m (\<lambda>x. bindE (f x) g)" for m :: "'e + 'x" and f :: "'x \<Rightarrow> 'e + 'y"
    and g :: "'y \<Rightarrow> 'e + 'z" by (cases m) auto
  show ?case by (auto simp: Cons b split: option.split list.split)
qed

lemma sort_tasks:
  "sort_results_from order ms = Inr ys \<Longrightarrow> map task ys = map task ms"
  by (induction order ms arbitrary: ys rule: sort_results_from.induct)
    (auto simp: exc_simps split: if_splits option.splits list.splits)

lemma sort_length: "sort_results_from order ms = Inr ys \<Longrightarrow> length ys = length ms"
  using sort_tasks [of order ms ys] by (metis length_map)

lemma last_user_append:
  "\<not> is_user_or_developer a \<Longrightarrow> n \<le> length ms \<Longrightarrow> last_user_below (ms @ [a]) n = last_user_below ms n"
  by (induction n) (auto simp: nth_append)

lemma find_last_user_append:
  "\<not> is_user_or_developer a \<Longrightarrow> find_last_user_index (ms @ [a]) = find_last_user_index ms"
  by (simp add: find_last_user_index_def last_user_append)

lemma last_user_below_less: "last_user_below ms n < int n"
  by (induction n) auto

lemma drop_from_append:
  "idx + int (length ms) \<ge> l \<Longrightarrow> drop_from l idx (ms @ [a]) = drop_from l idx ms @ [a]"
  by (induction l idx ms rule: drop_from.induct) auto

lemma drop_append:
  assumes "has_role a ''assistant''"
  shows "drop_thinking_messages (ms @ [a]) = drop_thinking_messages ms @ [a]"
proof -
  have "find_last_user_index ms \<le> 0 + int (length ms)"
    using last_user_below_less [of ms "length ms"] by (simp add: find_last_user_index_def)
  then show ?thesis
    using drop_from_append assistant_role [OF assms]
    by (simp add: drop_thinking_messages_def find_last_user_append)
qed

lemma drop_from_nonempty:
  "ms \<noteq> [] \<Longrightarrow> l < idx + int (length ms) \<Longrightarrow> drop_from l idx ms \<noteq> []"
  by (induction l idx ms rule: drop_from.induct) (auto, case_tac msgs, auto)

lemma drop_nonempty: "ms \<noteq> [] \<Longrightarrow> drop_thinking_messages ms \<noteq> []"
  using drop_from_nonempty [of ms "find_last_user_index ms" 0] last_user_below_less [of ms "length ms"]
  by (simp add: drop_thinking_messages_def find_last_user_index_def)

lemma drop_from_tasks: "list_all (\<lambda>m. task m = None) ms \<Longrightarrow> list_all (\<lambda>m. task m = None) (drop_from l idx ms)"
  by (induction l idx ms rule: drop_from.induct) auto

lemma merge_step_tasks:
  "list_all (\<lambda>m. task m = None) ms \<Longrightarrow> task m = None \<Longrightarrow> list_all (\<lambda>m. task m = None) (merge_step ms m)"
  by (auto simp: merge_step_def append_block_def list_all_iff empty_message_def open_user_def
      dest: in_set_butlastD)

lemma merge_tasks:
  "list_all (\<lambda>m. task m = None) msgs \<Longrightarrow> list_all (\<lambda>m. task m = None) (merge_tool_messages msgs)"
  by (induction msgs rule: rev_induct) (auto simp: merge_tool_messages_def merge_step_tasks)

lemma render_message_append:
  assumes "has_role a ''assistant''" and "i < length ms"
  shows "render_message lib i (ms @ [a]) mode drp eff = render_message lib i ms mode drp eff"
proof -
  have u: "find_last_user_index (ms @ [a]) = find_last_user_index ms"
    by (rule find_last_user_append) (rule assistant_role [OF assms(1)])
  have n: "(ms @ [a]) ! i = ms ! i" "(ms @ [a]) ! (i - 1) = ms ! (i - 1)"
    using assms(2) by (auto simp: nth_append)
  have s: "(Suc i < length (ms @ [a]) \<and> \<not> (has_role ((ms @ [a]) ! Suc i) ''assistant'' \<or>
             has_role ((ms @ [a]) ! Suc i) ''latest_reminder''))
      = (Suc i < length ms \<and> \<not> (has_role (ms ! Suc i) ''assistant'' \<or>
             has_role (ms ! Suc i) ''latest_reminder''))"
    using assms by (auto simp: nth_append not_less less_Suc_eq dest: antisym)
  have t: "transition i (ms @ [a]) mode drp = transition i ms mode drp"
    unfolding transition_def s n u ..
  have "thinking_part i (ms @ [a]) mode drp = thinking_part i ms mode drp"
    unfolding thinking_part_def u n ..
  then have b: "render_body lib i (ms @ [a]) mode drp ts tcs = render_body lib i ms mode drp ts tcs" for ts tcs
    by (simp add: render_body_def render_assistant_def n Let_def)
  show ?thesis unfolding render_message_def t n(1) b using assms(2) by simp
qed

lemma render_range_append:
  assumes "has_role a ''assistant''" and "first + n \<le> length ms"
  shows "render_range lib (ms @ [a]) mode drp eff first n = render_range lib ms mode drp eff first n"
  using assms(2)
  by (induction n arbitrary: first) (simp_all add: render_message_append [OF assms(1)])

lemma render_range_snoc:
  "render_range lib ms mode drp eff first (Suc n) =
     bindE (render_range lib ms mode drp eff first n) (\<lambda>p.
     bindE (render_message lib (first + n) ms mode drp eff) (\<lambda>b. Inr (p @ b)))"
proof (induction n arbitrary: first)
  case 0
  show ?case by (cases "render_message lib first ms mode drp eff") auto
next
  case (Suc n)
  have "render_range lib ms mode drp eff first (Suc (Suc n)) =
      bindE (render_message lib first ms mode drp eff) (\<lambda>p.
      bindE (render_range lib ms mode drp eff (Suc first) (Suc n)) (\<lambda>ps. Inr (p @ ps)))"
    by simp
  also have "\<dots> = bindE (render_range lib ms mode drp eff first (Suc n)) (\<lambda>p.
     bindE (render_message lib (first + Suc n) ms mode drp eff) (\<lambda>b. Inr (p @ b)))"
    unfolding Suc [of "Suc first"] render_range.simps(2) [of _ _ _ _ _ first n]
    by (cases "render_message lib first ms mode drp eff"; cases "render_range lib ms mode drp eff (Suc first) n";
        cases "render_message lib (Suc first + n) ms mode drp eff") auto
  finally show ?case .
qed

text \<open>What \<open>encode_messages\<close> renders when there is no context.\<close>

definition prepared :: "pystr \<Rightarrow> bool \<Rightarrow> message list \<Rightarrow> message list" where
  "prepared mode drp ms = (if mode = lit ''thinking'' \<and> drp then drop_thinking_messages ms else ms)"

lemma encode_no_context:
  "encode_messages lib msgs mode [] drp bos eff =
     bindE (sort_results_from [] (merge_tool_messages msgs)) (\<lambda>ms.
     (let eff_drp = (drp \<and> \<not> list_ex (\<lambda>m. tools m \<noteq> []) ms)
      in bindE (render_range lib (prepared mode eff_drp ms) mode eff_drp eff 0
                  (length (prepared mode eff_drp ms)))
           (\<lambda>p. Inr ((if bos then bos_token else []) @ p))))"
  by (simp add: encode_messages_def sort_tool_results_by_call_order_def prepared_def Let_def
      merge_tool_messages_def drop_thinking_messages_def bindE_def split: sum.split)

lemma prepared_append:
  "has_role a ''assistant'' \<Longrightarrow> prepared mode drp (ms @ [a]) = prepared mode drp ms @ [a]"
  by (simp add: prepared_def drop_append)

lemma prepared_nonempty: "ms \<noteq> [] \<Longrightarrow> prepared mode drp ms \<noteq> []"
  by (simp add: prepared_def drop_nonempty)

lemma prepared_tasks:
  "list_all (\<lambda>m. task m = None) ms \<Longrightarrow> list_all (\<lambda>m. task m = None) (prepared mode drp ms)"
  by (simp add: prepared_def drop_thinking_messages_def drop_from_tasks)

text \<open>Appending an assistant message appends its rendering.\<close>

lemma encode_append:
  assumes "has_role a ''assistant''" and "tools a = []" and "call_order (tool_calls a) = Inr o'"
    and "sort_results_from [] (merge_tool_messages msgs) = Inr ms"
    and "eff_drp = (drp \<and> \<not> list_ex (\<lambda>m. tools m \<noteq> []) ms)"
    and "encode_messages lib msgs mode [] drp bos eff = Inr p"
    and "render_message lib (length (prepared mode eff_drp ms)) (prepared mode eff_drp ms @ [a]) mode eff_drp eff
           = Inr b"
  shows "encode_messages lib (msgs @ [a]) mode [] drp bos eff = Inr (p @ b)"
proof -
  let ?f = "prepared mode eff_drp ms"
  have s: "sort_results_from [] (merge_tool_messages (msgs @ [a])) = Inr (ms @ [a])"
    using sort_append [OF assms(1,3), of "[]" "merge_tool_messages msgs"] assms(4)
    by (simp add: merge_append [OF assms(1)])
  have e: "(drp \<and> \<not> list_ex (\<lambda>m. tools m \<noteq> []) (ms @ [a])) = eff_drp" using assms(2,5) by simp
  obtain q where q: "render_range lib ?f mode eff_drp eff 0 (length ?f) = Inr q"
    "p = (if bos then bos_token else []) @ q"
    using assms(6) unfolding encode_no_context assms(4) bindE_Inr Let_def assms(5) [symmetric]
    by (auto simp: exc_simps)
  have "render_range lib (?f @ [a]) mode eff_drp eff 0 (Suc (length ?f)) = Inr (q @ b)"
    unfolding render_range_snoc
    using render_range_append [OF assms(1), of 0 "length ?f" ?f lib mode eff_drp eff] q(1) assms(7) by simp
  then show ?thesis
    unfolding encode_no_context s bindE_Inr Let_def e prepared_append [OF assms(1)] using q(2) by simp
qed

lemma render_message_valid:
  "render_message lib i ms mode drp eff = Inr p \<Longrightarrow>
     (mode = lit ''chat'' \<or> mode = lit ''thinking'') \<and>
     map_of REASONING_EFFORT_PROMPTS (effort_of eff) \<noteq> None"
  by (auto simp: render_message_def exc_simps split: option.splits)

text \<open>The rendering of a last assistant message whose calls resolve.\<close>

lemma render_last_assistant:
  assumes "has_role a ''assistant''" and "tools a = []" and "task a = None" and "wo_eos a \<noteq> Some True"
    and "tool_calls_from_openai_format (tool_calls a) = Inr tcs" and "list_all2 (resolves lib) tcs cs"
    and "content a = Some (JStr c)" and "ms \<noteq> []" and "task (last ms) = None"
    and "mode = lit ''chat'' \<or> mode = lit ''thinking''"
    and "map_of REASONING_EFFORT_PROMPTS (effort_of eff) \<noteq> None"
  shows "render_message lib (length ms) (ms @ [a]) mode drp eff =
     Inr ((if mode = lit ''thinking''
           then (case reasoning_content a of None \<Rightarrow> [] | Some r \<Rightarrow> r) @ thinking_end_token else [])
          @ c @ (if cs = [] then [] else tool_calls_start_token @ ctail cs) @ eos_token)"
proof -
  note r = assistant_role [OF assms(1)]
  have u: "find_last_user_index (ms @ [a]) < int (length ms)"
    using last_user_below_less [of ms "length ms"] find_last_user_append [OF r(6), of ms]
    by (simp add: find_last_user_index_def)
  have t: "task ((ms @ [a]) ! (length ms - 1)) = None"
    using assms(8,9) by (simp add: nth_append last_conv_nth)
  have tp: "thinking_part (length ms) (ms @ [a]) mode drp
      = (if mode = lit ''thinking''
         then (case reasoning_content a of None \<Rightarrow> [] | Some r \<Rightarrow> r) @ thinking_end_token else [])"
    using u t by (simp add: thinking_part_def Let_def)
  have ra: "render_assistant lib (length ms) (ms @ [a]) mode drp tcs =
     Inr ((if mode = lit ''thinking''
           then (case reasoning_content a of None \<Rightarrow> [] | Some r \<Rightarrow> r) @ thinking_end_token else [])
          @ c @ (if cs = [] then [] else tool_calls_start_token @ ctail cs) @ eos_token)"
    using assms(4,7) unfolding render_assistant_def render_tool_calls_text [OF assms(6)] tp
    by (auto simp: content_or_empty_def)
  have tr: "transition (length ms) (ms @ [a]) mode drp = Inr []"
    using assms(3) r by (simp add: transition_def)
  show ?thesis
    using assms(2,5,8,10,11) r ra tr assms(1)
    by (auto simp: render_message_def render_body_def Let_def tools_from_openai_format_def)
qed


end
