(* ===== verification/EncFacts.thy ===== *)
theory EncFacts
  imports EncPreprocess EncStops
begin

text \<open>
  Facts about the encoder's passes: \<open>_read_until_stop\<close> finds the earliest stop, merging keeps the
  stream of blocks, sorting permutes the tool results in place, and dropping cuts at the last user turn.
\<close>

section \<open>Stops\<close>

lemma py_find_Some:
  "py_find s tx i = Some p \<Longrightarrow>
     i \<le> p \<and> prefix s (drop p tx) \<and> (\<forall>q. i \<le> q \<and> q < p \<longrightarrow> \<not> prefix s (drop q tx))"
proof -
  assume "py_find s tx i = Some p"
  then obtain r where r: "find_sub s (drop i tx) = Some r" "p = i + r"
    by (auto simp: py_find_def split: if_splits)
  from find_sub_Some [OF r(1)]
  have a: "prefix s (drop p tx)" "\<And>q. q < r \<Longrightarrow> \<not> prefix s (drop (i + q) tx)"
    by (auto simp: r(2) add.commute)
  have "\<not> prefix s (drop q tx)" if "i \<le> q" "q < p" for q
    using a(2) [of "q - i"] that r(2) by simp
  with a(1) r(2) show ?thesis by simp
qed

lemma py_find_None:
  assumes "py_find s tx i = None" and "s \<noteq> []" and "i \<le> q"
  shows "\<not> prefix s (drop q tx)"
proof (cases "length tx < i")
  case True
  with assms show ?thesis by simp
next
  case False
  with assms(1) have "find_sub s (drop i tx) = None" by (simp add: py_find_def)
  from find_sub_NoneD [OF this, of "q - i"] assms(3) show ?thesis by simp
qed

text \<open>What the scan over the stop strings keeps: no stop begins before the position it holds.\<close>

lemma stop_fold_earliest:
  assumes "[] \<notin> set stops"
    and "\<And>t q. t \<in> T \<Longrightarrow> index \<le> q \<Longrightarrow> q < fst acc \<Longrightarrow> \<not> prefix t (drop q tx)"
    and "case snd acc of None \<Rightarrow> fst acc = length tx
         | Some s \<Rightarrow> s \<in> T \<and> index \<le> fst acc \<and> prefix s (drop (fst acc) tx)"
    and "foldl (stop_step tx index) acc stops = (p, m)"
  shows "(\<forall>t \<in> T \<union> set stops. \<forall>q. index \<le> q \<and> q < p \<longrightarrow> \<not> prefix t (drop q tx)) \<and>
         (case m of None \<Rightarrow> p = length tx
          | Some s \<Rightarrow> s \<in> T \<union> set stops \<and> index \<le> p \<and> prefix s (drop p tx))"
  using assms
proof (induction stops arbitrary: acc T)
  case Nil
  then show ?case by (auto split: option.splits)
next
  case (Cons s stops)
  let ?a = "stop_step tx index acc s"
  obtain ap am where acc: "acc = (ap, am)" by (cases acc)
  have s: "s \<noteq> []" using Cons.prems(1) by auto
  have 1: "\<not> prefix t (drop q tx)" if "t \<in> insert s T" "index \<le> q" "q < fst ?a" for t q
  proof (cases "py_find s tx index")
    case None
    with that Cons.prems(2) [of t q] acc py_find_None [OF None s, of q] show ?thesis by auto
  next
    case (Some r)
    with that Cons.prems(2) [of t q] acc py_find_Some [OF Some] show ?thesis
      by (auto split: if_splits)
  qed
  have 2: "case snd ?a of None \<Rightarrow> fst ?a = length tx
         | Some u \<Rightarrow> u \<in> insert s T \<and> index \<le> fst ?a \<and> prefix u (drop (fst ?a) tx)"
    using Cons.prems(3) acc py_find_Some [of s tx index]
    by (cases "py_find s tx index") (auto split: option.splits if_splits)
  have ns: "[] \<notin> set stops" using Cons.prems(1) by simp
  from Cons.IH [OF ns 1 2] Cons.prems(4)
  show ?case by (cases m) simp_all
qed

lemma stop_fold_init:
  assumes "[] \<notin> set stops" and "foldl (stop_step tx index) (length tx, None) stops = (p, m)"
  shows "(\<forall>t \<in> set stops. \<forall>q. index \<le> q \<and> q < p \<longrightarrow> \<not> prefix t (drop q tx)) \<and>
         (case m of None \<Rightarrow> p = length tx
          | Some s \<Rightarrow> s \<in> set stops \<and> index \<le> p \<and> prefix s (drop p tx))"
  using stop_fold_earliest [OF assms(1) _ _ assms(2), of "{}"] by (auto split: option.splits)

lemma read_until_stop_cases:
  assumes "[] \<notin> set stops" and "read_until_stop index tx stops = (index', body, matched)"
  shows "case matched of
      Some s \<Rightarrow> s \<in> set stops \<and> drop index tx = body @ s @ drop index' tx \<and>
                index' = index + length body + length s \<and>
                (\<forall>t \<in> set stops. \<forall>q < length body. \<not> prefix t (drop (index + q) tx))
    | None \<Rightarrow> index' = length tx \<and> body = drop index tx \<and>
                (\<forall>t \<in> set stops. \<forall>q. index \<le> q \<and> q < length tx \<longrightarrow> \<not> prefix t (drop q tx))"
proof -
  obtain p m where f: "foldl (stop_step tx index) (length tx, None) stops = (p, m)" by fastforce
  note i = stop_fold_init [OF assms(1) f]
  show ?thesis
  proof (cases m)
    case None
    with f i assms(2) show ?thesis by (auto simp: read_until_stop_def)
  next
    case (Some s)
    with i have s: "s \<in> set stops" "index \<le> p" "prefix s (drop p tx)" by auto
    with assms(1) obtain c cs where c: "s = c # cs" by (cases s) auto
    from f assms(2) Some c
    have r: "index' = p + length s" "body = take (p - index) (drop index tx)" "matched = Some s"
      by (auto simp: read_until_stop_def)
    from s(3) obtain zs where z: "drop p tx = s @ zs" by (auto simp: prefix_def)
    then have zs: "zs = drop index' tx"
      using r(1) by (metis append_eq_conv_conj drop_drop add.commute)
    have "p < length tx" using z c by (metis append_Cons drop_all linorder_not_less neq_Nil_conv)
    then have lb: "length body = p - index" using r(2) s(2) by simp
    have "drop index tx = body @ drop (p - index) (drop index tx)"
      unfolding r(2) by (rule append_take_drop_id [symmetric])
    also have "drop (p - index) (drop index tx) = drop p tx" using s(2) by simp
    finally have "drop index tx = body @ s @ drop index' tx" using z zs by simp
    moreover have "\<forall>t \<in> set stops. \<forall>q < length body. \<not> prefix t (drop (index + q) tx)"
      using i lb by auto
    ultimately show ?thesis using r lb s by simp
  qed
qed

section \<open>Merging\<close>

definition blocks_of :: "message \<Rightarrow> json list" where
  "blocks_of m = (case content_blocks m of None \<Rightarrow> [] | Some bs \<Rightarrow> bs)"

text \<open>The blocks a message contributes to the merged conversation.\<close>

definition stream_of :: "message \<Rightarrow> json list" where
  "stream_of m =
     (if has_role m ''tool'' then [tool_block_of m]
      else if has_role m ''user'' then [text_block_of m] else blocks_of m)"

lemma roles_distinct:
  "lit ''user'' \<noteq> lit ''tool''" "lit ''tool'' \<noteq> lit ''user''" "lit ''assistant'' \<noteq> lit ''user''"
  "lit ''assistant'' \<noteq> lit ''tool''" "lit ''user'' \<noteq> lit ''assistant''"
  "lit ''user'' \<noteq> lit ''developer''" "lit ''developer'' \<noteq> lit ''user''"
  "lit ''assistant'' \<noteq> lit ''developer''" "lit ''user'' \<noteq> lit ''latest_reminder''"
  "lit ''user'' \<noteq> lit ''system''" "lit ''system'' \<noteq> lit ''user''"
  "lit ''assistant'' \<noteq> lit ''system''" "lit ''system'' \<noteq> lit ''developer''"
  "lit ''assistant'' \<noteq> lit ''latest_reminder''" "lit ''developer'' \<noteq> lit ''assistant''"
  "lit ''system'' \<noteq> lit ''assistant''"
  "lit ''chat'' \<noteq> lit ''thinking''" "lit ''thinking'' \<noteq> lit ''chat''"
  by (simp_all add: lit_Cons)

lemma blocks_append_block:
  "open_user ms \<Longrightarrow> concat (map blocks_of (append_block b ms)) = concat (map blocks_of ms) @ [b]"
  by (cases ms rule: rev_cases) (auto simp: open_user_def append_block_def blocks_of_def)

lemma others_append_block:
  "open_user ms \<Longrightarrow> filter (\<lambda>m. \<not> has_role m ''user'') (append_block b ms)
     = filter (\<lambda>m. \<not> has_role m ''user'') ms"
  by (cases ms rule: rev_cases) (auto simp: open_user_def append_block_def has_role_def)

lemma tool_append_block:
  "open_user ms \<Longrightarrow> list_ex (\<lambda>m. has_role m ''tool'') (append_block b ms) = list_ex (\<lambda>m. has_role m ''tool'') ms"
  by (cases ms rule: rev_cases) (auto simp: open_user_def append_block_def has_role_def)

lemma merge_step_stream:
  "concat (map blocks_of (merge_step ms m)) = concat (map blocks_of ms) @ stream_of m"
  by (auto simp: merge_step_def blocks_append_block stream_of_def blocks_of_def empty_message_def)

lemma merge_step_others:
  "filter (\<lambda>m. \<not> has_role m ''user'') (merge_step ms m) =
     filter (\<lambda>m. \<not> has_role m ''user'') ms
       @ (if has_role m ''tool'' \<or> has_role m ''user'' then [] else [m])"
  using others_append_block [of ms] by (auto simp: merge_step_def) (auto simp: has_role_def empty_message_def)

lemma merge_step_tool:
  "list_ex (\<lambda>m. has_role m ''tool'') (merge_step ms m) = list_ex (\<lambda>m. has_role m ''tool'') ms"
  by (auto simp: merge_step_def tool_append_block)
    (auto simp: has_role_def empty_message_def roles_distinct)

lemma merge_facts:
  "concat (map blocks_of (foldl merge_step acc ms)) = concat (map blocks_of acc) @ concat (map stream_of ms)"
  "filter (\<lambda>m. \<not> has_role m ''user'') (foldl merge_step acc ms) =
     filter (\<lambda>m. \<not> has_role m ''user'') acc
       @ filter (\<lambda>m. \<not> (has_role m ''tool'' \<or> has_role m ''user'')) ms"
  "list_ex (\<lambda>m. has_role m ''tool'') (foldl merge_step acc ms) = list_ex (\<lambda>m. has_role m ''tool'') acc"
  by (induction ms arbitrary: acc) (simp_all add: merge_step_stream merge_step_others merge_step_tool)

section \<open>Sorting\<close>

lemma refill_sorted:
  "length ss = length (filter is_tool_result bs) \<Longrightarrow> list_all is_tool_result ss \<Longrightarrow>
     filter is_tool_result (refill ss bs) = ss \<and>
     map is_tool_result (refill ss bs) = map is_tool_result bs \<and>
     filter (\<lambda>b. \<not> is_tool_result b) (refill ss bs) = filter (\<lambda>b. \<not> is_tool_result b) bs"
  by (induction ss bs rule: refill.induct) (auto split: list.splits)

lemma sort_key_short: "length xs \<le> 1 \<Longrightarrow> sort_key f xs = xs"
  by (cases xs) auto

lemma sort_blocks_facts:
  "map is_tool_result (sort_blocks order bs) = map is_tool_result bs"
  "filter (\<lambda>b. \<not> is_tool_result b) (sort_blocks order bs) = filter (\<lambda>b. \<not> is_tool_result b) bs"
  "filter is_tool_result (sort_blocks order bs) =
     (if order = [] then filter is_tool_result bs
      else sort_key (result_key order) (filter is_tool_result bs))"
proof -
  let ?s = "sort_key (result_key order) (filter is_tool_result bs)"
  have "length ?s = length (filter is_tool_result bs)" "list_all is_tool_result ?s"
    by (simp_all add: list_all_iff)
  from refill_sorted [OF this]
  show "map is_tool_result (sort_blocks order bs) = map is_tool_result bs"
    "filter (\<lambda>b. \<not> is_tool_result b) (sort_blocks order bs) = filter (\<lambda>b. \<not> is_tool_result b) bs"
    "filter is_tool_result (sort_blocks order bs) =
     (if order = [] then filter is_tool_result bs
      else sort_key (result_key order) (filter is_tool_result bs))"
    by (auto simp: sort_blocks_def Let_def sort_key_short)
qed

section \<open>The last user turn\<close>

lemma last_user_below_bounds: "-1 \<le> last_user_below ms n \<and> last_user_below ms n < int n"
  by (induction n) auto

lemma last_user_below_spec:
  "(last_user_below ms n = -1 \<longleftrightarrow> (\<forall>j < n. \<not> is_user_or_developer (ms ! j))) \<and>
   (0 \<le> last_user_below ms n \<longrightarrow>
      is_user_or_developer (ms ! nat (last_user_below ms n)) \<and>
      (\<forall>j < n. last_user_below ms n < int j \<longrightarrow> \<not> is_user_or_developer (ms ! j)))"
  by (induction n) (auto simp: less_Suc_eq)

lemma last_user_below_eq:
  "k < n \<Longrightarrow> is_user_or_developer (ms ! k) \<Longrightarrow>
     (\<And>j. k < j \<Longrightarrow> j < n \<Longrightarrow> \<not> is_user_or_developer (ms ! j)) \<Longrightarrow> last_user_below ms n = int k"
  by (induction n) (auto simp: less_Suc_eq)

lemma find_last_user_split:
  assumes "is_user_or_developer u" and "list_all (\<lambda>m. \<not> is_user_or_developer m) post"
  shows "find_last_user_index (pre @ u # post) = int (length pre)"
  unfolding find_last_user_index_def
proof (rule last_user_below_eq)
  show "\<not> is_user_or_developer ((pre @ u # post) ! j)"
    if "length pre < j" "j < length (pre @ u # post)" for j
    using assms(2) that by (auto simp: nth_append nth_Cons list_all_length split: nat.splits)
qed (use assms(1) in simp_all)

text \<open>What dropping does to a message before the last user turn.\<close>

definition strip_reasoning :: "message \<Rightarrow> message" where
  "strip_reasoning m = (if keep_role m then m else m\<lparr>reasoning_content := None\<rparr>)"

definition survives :: "message \<Rightarrow> bool" where
  "survives m \<longleftrightarrow> keep_role m \<or> has_role m ''assistant''"

lemma drop_from_after: "l \<le> i \<Longrightarrow> drop_from l i ms = ms"
  by (induction ms arbitrary: i) auto

lemma drop_from_before:
  "i + int (length pre) \<le> l \<Longrightarrow>
     drop_from l i (pre @ ms) = map strip_reasoning (filter survives pre) @ drop_from l (i + int (length pre)) ms"
  by (induction pre arbitrary: i) (auto simp: strip_reasoning_def survives_def add.assoc)

lemma drop_thinking_split:
  assumes "is_user_or_developer u" and "list_all (\<lambda>m. \<not> is_user_or_developer m) post"
  shows "drop_thinking_messages (pre @ u # post) = map strip_reasoning (filter survives pre) @ u # post"
  using find_last_user_split [OF assms, of pre]
    drop_from_before [of 0 pre "int (length pre)" "u # post"]
  by (simp add: drop_thinking_messages_def drop_from_after)

end
