(* ===== verification/EncTurns.thy ===== *)
theory EncTurns
  imports EncRoundtrip EncFacts
begin

text \<open>
  Turns of a conversation: what the parser's first reads return, what an encoded prompt ends with,
  and conversations on which every pass of \<open>encode_messages\<close> succeeds.
\<close>

lemma special_tokens_nonempty:
  "[] \<notin> set [eos_token, tool_calls_start_token]"
  "[] \<notin> set [thinking_end_token, tool_calls_start_token]"
  by code_simp+

lemma read_reasoning_split:
  assumes "read_reasoning tx mode = Inr (index, rc)"
  shows "\<exists>rest. tx = (if mode = lit ''thinking'' then rc @ thinking_end_token else []) @ rest \<and>
     index = length (if mode = lit ''thinking'' then rc @ thinking_end_token else []) \<and>
     (mode \<noteq> lit ''thinking'' \<longrightarrow> rc = [])"
proof (cases "mode = lit ''thinking''")
  case True
  obtain i b m where r: "read_until_stop 0 tx [thinking_end_token, tool_calls_start_token] = (i, b, m)"
    by (metis prod_cases3)
  with assms True have "i = index" "b = rc" "m = Some thinking_end_token"
    by (auto simp: read_reasoning_def exc_simps)
  with read_until_stop_cases [OF special_tokens_nonempty(2) r] True
  show ?thesis by (auto intro: exI [of _ "drop index tx"])
qed (use assms in \<open>simp add: read_reasoning_def\<close>)

lemma split_eq:
  "map P xs = map P ys \<Longrightarrow> filter P xs = filter P ys \<Longrightarrow>
     filter (\<lambda>x. \<not> P x) xs = filter (\<lambda>x. \<not> P x) ys \<Longrightarrow> xs = ys"
proof (induction xs arbitrary: ys)
  case (Cons x xs)
  then obtain y ys' where "ys = y # ys'" by (cases ys) auto
  with Cons show ?case by (auto split: if_splits)
qed simp

lemma plain_Nil: "plain []"
  by code_simp

lemma merge_step_user_last:
  assumes "has_role u ''user''" and "task u = None"
  shows "merge_step ms u \<noteq> [] \<and> has_role (last (merge_step ms u)) ''user'' \<and>
    task (last (merge_step ms u)) = None"
  using assms roles_distinct(1,2)
  by (auto simp: merge_step_def append_block_def) (auto simp: has_role_def open_user_def empty_message_def)

lemma sort_nonempty: "sort_results_from order ms = Inr ms' \<Longrightarrow> ms' = [] \<longleftrightarrow> ms = []"
  by (auto dest: sort_length)

lemma sort_last_task:
  assumes "sort_results_from order ms = Inr ms'" and "ms \<noteq> []"
  shows "task (last ms') = task (last ms)"
proof -
  have "last (map task ms') = last (map task ms)" using sort_tasks [OF assms(1)] by simp
  with assms sort_nonempty [OF assms(1)] show ?thesis by (simp add: last_map)
qed

lemma sort_roles: "sort_results_from order ms = Inr ms' \<Longrightarrow> map role ms' = map role ms"
proof (induction ms arbitrary: order ms')
  case (Cons m ms)
  then show ?case by (auto simp: exc_simps split: if_splits option.splits list.splits)
qed simp

lemma last_user_of_user_last:
  "is_user_or_developer u \<Longrightarrow> find_last_user_index (ms @ [u]) = int (length ms)"
  using find_last_user_split [of u "[]" ms] by simp

lemma transition_last_user:
  assumes "ms \<noteq> []" and "has_role (last ms) ''user''" and "task (last ms) = None"
  shows "transition (length ms - 1) ms mode drp = Inr (ASSISTANT_SP_TOKEN
     @ (if mode = lit ''thinking'' then thinking_start_token else thinking_end_token))"
proof -
  obtain xs u where ms: "ms = xs @ [u]" using assms(1) by (cases ms rule: rev_cases) auto
  have u: "is_user_or_developer u" using assms(2) ms by (simp add: is_user_or_developer_def)
  then show ?thesis
    using assms ms last_user_of_user_last [OF u, of xs] by (simp add: transition_def)
qed

lemma prepared_last_user:
  assumes "ms \<noteq> []" and "has_role (last ms) ''user''"
  shows "prepared mode drp ms \<noteq> [] \<and> last (prepared mode drp ms) = last ms"
proof -
  obtain xs u where ms: "ms = xs @ [u]" using assms(1) by (cases ms rule: rev_cases) auto
  have "is_user_or_developer u" using assms(2) ms by (simp add: is_user_or_developer_def)
  with drop_thinking_split [of u "[]" xs] ms show ?thesis by (simp add: prepared_def)
qed

lemma render_message_ends:
  assumes "render_message lib i ms mode drp eff = Inr b" and "transition i ms mode drp = Inr tail"
  shows "suffix tail b"
  using assms by (auto simp: render_message_def exc_simps suffix_def split: option.splits if_splits)

section \<open>Conversations that encode\<close>

definition string_content :: "message \<Rightarrow> bool" where
  "string_content m \<longleftrightarrow> (case content m of None \<Rightarrow> True | Some (JStr _) \<Rightarrow> True | _ \<Rightarrow> False)"

definition chat_turn :: "message \<Rightarrow> bool" where
  "chat_turn m \<longleftrightarrow>
     (has_role m ''user'' \<or> has_role m ''assistant'' \<or> has_role m ''system'' \<or> has_role m ''tool'') \<and>
     tools m = [] \<and> tool_calls m = [] \<and> task m = None \<and> string_content m \<and> content_blocks m = None"

definition ok_block :: "pylib \<Rightarrow> json \<Rightarrow> bool" where
  "ok_block lib b \<longleftrightarrow> (\<exists>ty. dict_get ''type'' b = Inr ty) \<and> (\<exists>s. render_block lib b = Inr (JStr s))"

text \<open>A message the passes produce from chat turns, and \<open>render_message\<close> accepts.\<close>

definition merged_turn :: "pylib \<Rightarrow> message \<Rightarrow> bool" where
  "merged_turn lib m \<longleftrightarrow>
     (has_role m ''user'' \<or> has_role m ''assistant'' \<or> has_role m ''system'') \<and>
     tools m = [] \<and> tool_calls m = [] \<and> task m = None \<and> string_content m \<and>
     list_all (ok_block lib) (blocks_of m)"

lemma string_content_get: "string_content m \<Longrightarrow> \<exists>s. get_or (JStr []) (content m) = JStr s"
  by (auto simp: string_content_def get_or_def split: option.splits json.splits)

lemma ok_text_block: "string_content m \<Longrightarrow> ok_block lib (text_block_of m)"
  using string_content_get [of m]
  by (auto simp: ok_block_def text_block_of_def render_block_def get_or_def lit_Cons)

lemma ok_tool_block: "string_content m \<Longrightarrow> ok_block lib (tool_block_of m)"
  using string_content_get [of m]
  by (auto simp: ok_block_def tool_block_of_def render_block_def get_or_def lit_Cons)

lemma merged_append_block:
  "open_user ms \<Longrightarrow> list_all (merged_turn lib) ms \<Longrightarrow> ok_block lib b \<Longrightarrow>
     list_all (merged_turn lib) (append_block b ms)"
  by (cases ms rule: rev_cases)
    (auto simp: open_user_def append_block_def merged_turn_def blocks_of_def has_role_def string_content_def)

lemma merged_step:
  assumes "list_all (merged_turn lib) ms" and "chat_turn m"
  shows "list_all (merged_turn lib) (merge_step ms m)"
proof -
  have c: "string_content m" "content_blocks m = None" "tools m = []" "tool_calls m = []" "task m = None"
    using assms(2) by (simp_all add: chat_turn_def)
  note t = ok_text_block [OF c(1), of lib] ok_tool_block [OF c(1), of lib]
  have "string_content (empty_message\<lparr>role := r, content := Some (get_or (JStr []) (content m)),
      content_blocks := b, task := k, wo_eos := w, mask := mk\<rparr>)" for r b k w mk
    using string_content_get [OF c(1)] by (auto simp: string_content_def)
  with assms c t show ?thesis
    by (auto simp: merge_step_def merged_append_block)
      (auto simp: merged_turn_def chat_turn_def blocks_of_def empty_message_def has_role_def string_content_def)
qed

lemma merged_turns:
  assumes "list_all chat_turn msgs"
  shows "list_all (merged_turn lib) (merge_tool_messages msgs)"
proof -
  have "list_all (merged_turn lib) (foldl merge_step acc msgs)" if "list_all (merged_turn lib) acc" for acc
    using that assms by (induction msgs arbitrary: acc) (simp_all add: merged_step)
  then show ?thesis by (simp add: merge_tool_messages_def)
qed

lemma sort_merged:
  "list_all (merged_turn lib) ms \<Longrightarrow> sort_results_from [] ms = Inr ms"
proof (induction ms)
  case (Cons m ms)
  have IH: "sort_results_from [] ms = Inr ms" using Cons by simp
  show ?case
  proof (cases "has_role m ''user'' \<and> blocks_of m \<noteq> []")
    case True
    then obtain b bs where cb: "content_blocks m = Some (b # bs)"
      by (auto simp: blocks_of_def split: option.splits) (metis neq_Nil_conv)
    have "\<forall>x \<in> set (b # bs). \<exists>y. dict_get ''type'' x = Inr y"
      using Cons.prems cb by (auto simp: merged_turn_def blocks_of_def ok_block_def list_all_iff)
    from mapE_ex_total [OF this] obtain ys where "mapE (dict_get ''type'') (b # bs) = Inr ys" by blast
    moreover have "sort_blocks [] (b # bs) = b # bs" by (simp add: sort_blocks_def)
    moreover have "m\<lparr>content_blocks := Some (b # bs)\<rparr> = m" using cb by (cases m) simp
    moreover have "tool_calls m = []" using Cons.prems by (simp add: merged_turn_def)
    ultimately show ?thesis using IH cb True by (simp del: mapE.simps)
  next
    case False
    with Cons.prems IH show ?thesis
      by (auto simp: merged_turn_def blocks_of_def split: option.splits list.splits)
  qed
qed simp

lemma merged_drop_from:
  "list_all (merged_turn lib) ms \<Longrightarrow> list_all (merged_turn lib) (drop_from l i ms)"
  by (induction ms arbitrary: i)
    (auto simp: merged_turn_def blocks_of_def has_role_def string_content_def)

lemma as_str_strings: "mapE as_str (map JStr ss) = Inr ss"
  by (induction ss) simp_all

lemma render_blocks_strings:
  "\<forall>x \<in> set bs. \<exists>s. render_block lib x = Inr (JStr s) \<Longrightarrow>
     \<exists>ss. mapE (render_block lib) bs = Inr (map JStr ss)"
proof (induction bs)
  case (Cons x bs)
  then obtain s ss where "render_block lib x = Inr (JStr s)" "mapE (render_block lib) bs = Inr (map JStr ss)"
    by auto
  then show ?case by (auto intro: exI [of _ "s # ss"])
qed (auto intro: exI [of _ "[]"])

lemma merged_render_body:
  assumes "merged_turn lib (ms ! i)"
  shows "\<exists>b. render_body lib i ms mode drp [] [] = Inr b"
proof -
  let ?m = "ms ! i"
  have s: "\<exists>s. content_or_empty (content ?m) = JStr s"
    using assms by (auto simp: merged_turn_def string_content_def content_or_empty_def split: option.splits json.splits)
  have "\<exists>b. render_user lib ?m = Inr b"
  proof (cases "blocks_of ?m")
    case Nil
    with s show ?thesis by (auto simp: render_user_def blocks_of_def split: option.splits)
  next
    case (Cons b bs)
    then have cb: "content_blocks ?m = Some (b # bs)" by (auto simp: blocks_of_def split: option.splits)
    have "\<forall>x \<in> set (b # bs). \<exists>s. render_block lib x = Inr (JStr s)"
      using assms Cons by (auto simp: merged_turn_def ok_block_def list_all_iff)
    from render_blocks_strings [OF this] obtain ss where
      "mapE (render_block lib) (b # bs) = Inr (map JStr ss)" by blast
    moreover have "\<exists>t. join_json blank_line (map JStr ss) = Inr t" 
      by (simp add: join_json_def as_str_strings)
    ultimately show ?thesis by (auto simp: render_user_def cb simp del: mapE.simps)
  qed
  then show ?thesis using assms
    by (auto simp: render_body_def render_system_def render_assistant_def render_tool_calls_def merged_turn_def
        has_role_def roles_distinct Let_def)
qed

lemma merged_render_message:
  assumes "list_all (merged_turn lib) ms" and "i < length ms"
    and "mode \<in> {lit ''chat'', lit ''thinking''}" and "map_of REASONING_EFFORT_PROMPTS (effort_of eff) \<noteq> None"
  shows "\<exists>b. render_message lib i ms mode drp eff = Inr b"
proof -
  have m: "merged_turn lib (ms ! i)" using assms(1,2) by (simp add: list_all_length)
  then have e: "tools (ms ! i) = []" "tool_calls (ms ! i) = []" "task (ms ! i) = None"
    by (simp_all add: merged_turn_def)
  have t: "tools_from_openai_format [] = Inr []" "tool_calls_from_openai_format [] = Inr []"
    by (simp_all add: tools_from_openai_format_def tool_calls_from_openai_format_def)
  obtain b where b: "render_body lib i ms mode drp [] [] = Inr b"
    using merged_render_body [OF m] by blast
  obtain tail where tl: "transition i ms mode drp = Inr tail"
    using e(3) by (cases "transition i ms mode drp") (auto simp: transition_def split: if_splits)
  obtain effort_text where ef: "map_of REASONING_EFFORT_PROMPTS (effort_of eff) = Some effort_text"
    using assms(4) by blast
  have "assertE (i < length ms) = Inr ()" "assertE (mode = lit ''chat'' \<or> mode = lit ''thinking'') = Inr ()"
    using assms(2,3) by auto
  then show ?thesis by (simp add: render_message_def e t b tl ef)
qed

lemma merged_render_range:
  assumes "list_all (merged_turn lib) ms" and "first + n \<le> length ms"
    and "mode \<in> {lit ''chat'', lit ''thinking''}" and "map_of REASONING_EFFORT_PROMPTS (effort_of eff) \<noteq> None"
  shows "\<exists>b. render_range lib ms mode drp eff first n = Inr b"
  using assms(2)
proof (induction n arbitrary: first)
  case (Suc n)
  then obtain b where "render_range lib ms mode drp eff (Suc first) n = Inr b" by force
  moreover obtain p where "render_message lib first ms mode drp eff = Inr p"
    using merged_render_message [OF assms(1) _ assms(3,4), of first] Suc.prems by force
  ultimately show ?case by simp
qed simp

end
