(* ===== verification/PyJsonAppend.thy ===== *)
theory PyJsonAppend
  imports PyJson
begin

text \<open>
  Reading JSON inside a longer text: what the reader takes from a text it also takes when the text goes on with a
  delimiter, so that texts of values can be put together to the text of an object.
\<close>

section \<open>Scalars and strings\<close>

lemma skip_ws_Nil [simp]: "skip_ws [] = []"
  by (simp add: skip_ws_def)

lemma skip_ws_append: "skip_ws s \<noteq> [] \<Longrightarrow> skip_ws (s @ rest) = skip_ws s @ rest"
  by (induction s) (auto simp: skip_ws_Cons)

lemma skip_ws_only: "skip_ws s = [] \<Longrightarrow> skip_ws (s @ rest) = skip_ws rest"
  by (induction s) (auto simp: skip_ws_Cons split: if_splits)

lemma parse_Nil [simp]: "parse_value fl n [] = None" "parse_elems fl n [] = None" "parse_members fl n [] = None"
proof -
  show v: "parse_value fl n [] = None" for n by (cases n) simp_all
  show "parse_elems fl n [] = None" "parse_members fl n [] = None" by (cases n; simp add: v)+
qed

lemma hex4_append: "hex4 s = Some (x, t) \<Longrightarrow> hex4 (s @ rest) = Some (x, t @ rest)"
  by (induction s rule: hex4.induct) (auto split: option.splits)

text \<open>The look-ahead for a second escape sees at most one character, so two characters of the rest are enough.\<close>

lemma scan_escape_append:
  assumes "scan_escape t = Some (c, t')" and "t' \<noteq> []" and "t' \<noteq> [92]"
  shows "scan_escape (t @ rest) = Some (c, t' @ rest)"
proof -
  obtain e t2 where t: "t = e # t2" using assms(1) by (cases t) (auto simp: scan_escape_def)
  show ?thesis
  proof (cases "e = 117")
    case False
    with assms(1) t show ?thesis by (auto simp: scan_escape_def)
  next
    case True
    with assms(1) t obtain x t3 where h: "hex4 t2 = Some (x, t3)"
      by (auto simp: scan_escape_def split: option.splits)
    show ?thesis
    proof (cases "55296 \<le> x \<and> x \<le> 56319 \<and> prefix [92, 117] t3")
      case True
      then obtain u where u: "t3 = 92 # 117 # u" by (auto simp: prefix_def)
      with assms(1) t h True \<open>e = 117\<close> obtain y t4 where y: "hex4 u = Some (y, t4)"
        by (auto simp: scan_escape_def split: option.splits)
      show ?thesis
        using assms(1) t h True \<open>e = 117\<close> u y
        by (simp add: scan_escape_def hex4_append [OF h] hex4_append [OF y] split: if_splits)
    next
      case False
      then have "t' = t3" using assms(1) t h \<open>e = 117\<close> by (auto simp: scan_escape_def)
      then have "prefix [92, 117] (t3 @ rest) = prefix [92, 117] t3"
        using assms(2,3) by (cases t3; cases "tl t3") auto
      with False assms(1) t h \<open>e = 117\<close> show ?thesis
        by (auto simp: scan_escape_def hex4_append [OF h])
    qed
  qed
qed

lemma scan_string_append: "scan_string s = Some (x, r) \<Longrightarrow> scan_string (s @ rest) = Some (x, r @ rest)"
proof (induction s arbitrary: x r rule: scan_string.induct)
  case (2 c t)
  show ?case
  proof (cases "c = 92")
    case False
    with 2 show ?thesis by (auto split: if_splits)
  next
    case True
    with "2.prems" obtain d t' y where e: "scan_escape t = Some (d, t')" and y: "scan_string t' = Some (y, r)" "x = d # y"
      by (auto split: option.splits)
    have "t' \<noteq> []" "t' \<noteq> [92]" using y(1) by (auto simp: scan_escape_def)
    from scan_escape_append [OF e this] "2.IH"(1) [OF _ True e refl y(1)] True y(2) show ?thesis by simp
  qed
qed simp

lemma prefix_plain:
  assumes "delim rest" and "\<forall>c \<in> set w. c \<noteq> 44 \<and> c \<noteq> 93 \<and> c \<noteq> 125"
  shows "prefix w (s @ rest) \<longleftrightarrow> prefix w s"
  using assms(2)
proof (induction w arbitrary: s)
  case (Cons c w)
  have "\<not> prefix (c # w) rest" using Cons.prems assms(1) by (cases rest) (auto simp: delim_def)
  with Cons.IH Cons.prems show ?case by (cases s) simp_all
qed simp

lemma lex_int_delim: "delim rest \<Longrightarrow> lex_int rest = None" "delim rest \<Longrightarrow> lex_int (45 # rest) = None"
  by (erule delimE; simp add: lex_int_def is_digit_def)+

lemma lex_int_none_append:
  assumes "delim rest" and "lex_int s = None"
  shows "lex_int (s @ rest) = None"
proof (cases s)
  case Nil
  with lex_int_delim(1) [OF assms(1)] show ?thesis by simp
next
  case (Cons c t)
  show ?thesis
  proof (cases "c = 45 \<and> t = []")
    case True
    with lex_int_delim(2) [OF assms(1)] Cons show ?thesis by simp
  next
    case False
    with assms(2) Cons show ?thesis
      by (cases t) (auto simp: lex_int_def Let_def split: if_splits)
  qed
qed

lemma parse_number_none_append:
  assumes "delim rest" and "parse_number fl s = None"
  shows "parse_number fl (s @ rest) = None"
proof -
  have "lex_int s = None"
    using assms(2) by (auto simp: parse_number_def Let_def split: option.splits prod.splits if_splits)
  with lex_int_none_append [OF assms(1)] show ?thesis by (simp add: parse_number_def)
qed

lemma parse_scalar_append:
  assumes "parse_scalar fl s = Some (v, r)" and "delim rest"
  shows "parse_scalar fl (s @ rest) = Some (v, r @ rest)"
proof -
  have p: "prefix (lit w) (s @ rest) = prefix (lit w) s"
    if "w \<in> {''null'', ''true'', ''false'', ''NaN'', ''Infinity'', ''-Infinity''}" for w
    using that by (intro prefix_plain [OF assms(2)]) (auto simp: lit_Cons)
  have d: "drop (length w) (s @ rest) = drop (length w) s @ rest" if "prefix (lit w) s" for w
    using prefix_length_le [OF that] by simp
  have d': "prefix (lit ''null'') s \<Longrightarrow> drop 4 (s @ rest) = drop 4 s @ rest"
    "prefix (lit ''true'') s \<Longrightarrow> drop 4 (s @ rest) = drop 4 s @ rest"
    "prefix (lit ''false'') s \<Longrightarrow> drop 5 (s @ rest) = drop 5 s @ rest"
    "prefix (lit ''NaN'') s \<Longrightarrow> drop 3 (s @ rest) = drop 3 s @ rest"
    "prefix (lit ''Infinity'') s \<Longrightarrow> drop 8 (s @ rest) = drop 8 s @ rest"
    "prefix (lit ''-Infinity'') s \<Longrightarrow> drop 9 (s @ rest) = drop 9 s @ rest"
    using d [of "''null''"] d [of "''true''"] d [of "''false''"] d [of "''NaN''"] d [of "''Infinity''"]
      d [of "''-Infinity''"] by (simp_all add: numeral_eq_Suc del: drop_append)
  note words = p [of "''null''"] p [of "''true''"] p [of "''false''"] p [of "''NaN''"] p [of "''Infinity''"] p [of "''-Infinity''"]
  show ?thesis
  proof (cases "parse_number fl s")
    case None
    with assms(1) words d' parse_number_none_append [OF assms(2) None] show ?thesis
      by (simp add: parse_scalar_def del: drop_append split: if_splits)
  next
    case (Some x)
    with assms(1) words d' parse_number_append [OF _ assms(2), of fl s] show ?thesis
      by (cases x) (simp add: parse_scalar_def del: drop_append split: if_splits)
  qed
qed

section \<open>Values\<close>

lemma parse_append:
  "parse_value fl n s = Some (v, r) \<Longrightarrow> delim rest \<Longrightarrow> parse_value fl n (s @ rest) = Some (v, r @ rest)"
  "parse_elems fl n s = Some (vs, r) \<Longrightarrow> delim rest \<Longrightarrow> parse_elems fl n (s @ rest) = Some (vs, r @ rest)"
  "parse_members fl n s = Some (kvs, r) \<Longrightarrow> delim rest \<Longrightarrow> parse_members fl n (s @ rest) = Some (kvs, r @ rest)"
proof (induction fl n s and fl n s and fl n s arbitrary: v r and vs r and kvs r
    rule: parse_value_parse_elems_parse_members.induct)
  case (2 fl n s)
  from "2.prems"(1) obtain c t where s: "s = c # t" by (cases s) auto
  have w: "skip_ws (t @ rest) = skip_ws t @ rest" if "c = 123 \<or> c = 91"
    by (rule skip_ws_append) (use "2.prems"(1) s that in auto)
  have p: "prefix [b] (skip_ws t @ rest) = prefix [b] (skip_ws t)" if "c = 123 \<or> c = 91" for b
    using w [OF that] "2.prems"(1) s that by (cases "skip_ws t"; cases n) auto
  show ?case
    using "2.prems" "2.IH" [OF s] w p s
    by (force split: if_splits dest: scan_string_append parse_scalar_append simp: drop_Cons' prefix_def)
next
  case (4 fl n s)
  from "4.prems"(1) obtain v0 r0 d t where p: "parse_value fl n s = Some (v0, r0)" "skip_ws r0 = d # t"
    by (auto split: option.splits list.splits)
  have a: "parse_value fl n (s @ rest) = Some (v0, r0 @ rest)" using "4.IH"(1) p "4.prems"(2) by blast
  have b: "skip_ws (r0 @ rest) = d # t @ rest" using skip_ws_append [of r0 rest] p(2) by simp
  show ?case
  proof (cases "d = 93")
    case True
    with "4.prems"(1) p a b show ?thesis by simp
  next
    case False
    with "4.prems"(1) p obtain vs' where c: "d = 44" "parse_elems fl n (skip_ws t) = Some (vs', r)" "vs = v0 # vs'"
      by (auto split: if_splits)
    have "skip_ws t \<noteq> []" using c(2) by auto
    with "4.IH"(2) [OF p(1) refl p(2) False c(1) c(2) "4.prems"(2)] a b c False show ?thesis
      by (simp add: skip_ws_append)
  qed
next
  case (6 fl n s)
  from "6.prems"(1) obtain t k r1 where s: "s = 34 # t" and k: "scan_string t = Some (k, r1)" "prefix [58] (skip_ws r1)"
    by (auto split: list.splits option.splits if_splits)
  let ?w = "skip_ws (drop 1 (skip_ws r1))"
  from "6.prems"(1) s k obtain v0 r2 d t2 where v: "parse_value fl n ?w = Some (v0, r2)" "skip_ws r2 = d # t2"
    by (auto split: option.splits list.splits)
  obtain u where u: "skip_ws r1 = 58 # u" using k(2) by (cases "skip_ws r1") auto
  have ne: "skip_ws u \<noteq> []" using v(1) u by auto
  have k': "scan_string (t @ rest) = Some (k, r1 @ rest)" by (rule scan_string_append [OF k(1)])
  have w: "skip_ws (r1 @ rest) = 58 # u @ rest" "skip_ws (u @ rest) = skip_ws u @ rest"
    using skip_ws_append [of r1 rest] skip_ws_append [OF ne, of rest] u by simp_all
  have a: "parse_value fl n (?w @ rest) = Some (v0, r2 @ rest)"
    using "6.IH"(1) [OF s _ k(1) refl _ v(1) "6.prems"(2)] k(2) by simp
  have b: "skip_ws (r2 @ rest) = d # t2 @ rest" using skip_ws_append [of r2 rest] v(2) by simp
  show ?case
  proof (cases "d = 125")
    case True
    with "6.prems"(1) s k v k' w a b u show ?thesis by simp
  next
    case False
    with "6.prems"(1) s k v obtain kvs' where c: "d = 44" "parse_members fl n (skip_ws t2) = Some (kvs', r)" "kvs = (k, v0) # kvs'"
      by (auto split: if_splits)
    have "skip_ws t2 \<noteq> []" using c(2) by auto
    with "6.IH"(2) [OF s _ k(1) refl _ v(1) refl v(2) False c(1) c(2) "6.prems"(2)] s k v k' w a b c u False
    show ?thesis by (simp add: skip_ws_append)
  qed
qed simp_all

end
