(* ===== verification/EncTypes.thy ===== *)
theory EncTypes
  imports PyJsonAppend EncParse
begin

text \<open>
  The type of what the parser hands out: the arguments of a tool call, which are put together as text from the
  parameters of an invocation, are the text of a JSON object.
\<close>

section \<open>Putting texts together\<close>

text \<open>A text that loads also reads as that value inside an object, whatever its own white space.\<close>

lemma loads_inside:
  assumes "json_loads fl tx = Inr v" and "delim rest" and "2 * length tx + 2 \<le> m"
  obtains r where "skip_ws (tx @ rest) = skip_ws tx @ rest"
    and "parse_value fl m (skip_ws (tx @ rest)) = Some (v, r @ rest)" and "skip_ws (r @ rest) = skip_ws rest"
proof -
  obtain r where p: "parse_value fl (2 * length tx + 2) (skip_ws tx) = Some (v, r)" and r: "skip_ws r = []"
    using assms(1) by (auto simp: json_loads_def split: if_splits option.splits)
  obtain k where "m = 2 * length tx + 2 + k" using assms(3) le_iff_add by blast
  moreover have "2 * length (skip_ws tx) < 2 * length tx + 2" using length_skip_ws [of tx] by simp
  ultimately have m: "parse_value fl m (skip_ws tx) = Some (v, r)"
    using p json_loads_fuel by metis
  then have "skip_ws tx \<noteq> []" by auto
  then have "skip_ws (tx @ rest) = skip_ws tx @ rest" by (rule skip_ws_append)
  with that [of r] parse_append(1) [OF m assms(2)] skip_ws_only [OF r] show thesis by simp
qed

definition member_text :: "pystr \<times> pystr \<times> json \<Rightarrow> pystr" where
  "member_text = (\<lambda>(k, tx, v). json_str k @ [58, 32] @ tx)"

lemma parse_members_texts:
  assumes "ms \<noteq> []" and "\<forall>(k, tx, v) \<in> set ms. json_loads fl tx = Inr v \<and> (\<forall>c \<in> set k. 0 \<le> c)"
    and "2 * length (py_join [44, 32] (map member_text ms)) < n"
  shows "parse_members fl n (py_join [44, 32] (map member_text ms) @ [125]) = Some (map (\<lambda>(k, tx, v). (k, v)) ms, [])"
  using assms
proof (induction ms arbitrary: n)
  case (Cons e ms)
  obtain k tx v where e: "e = (k, tx, v)" by (cases e)
  have tx: "json_loads fl tx = Inr v" and k: "\<forall>c \<in> set k. 0 \<le> c" using Cons.prems(2) e by auto
  obtain m where n: "n = Suc m" using Cons.prems(3) by (cases n) auto
  have l: "length tx + 4 \<le> length (member_text e)" by (simp add: e member_text_def json_str_def)
  have ws: "skip_ws (58 # x) = 58 # x" "skip_ws (44 # x) = 44 # x" "skip_ws (125 # x) = 125 # x"
    "skip_ws (32 # x) = skip_ws x" for x by (simp_all add: skip_ws_Cons is_ws_def)
  have d: "delim (44 # x)" "delim (125 # x)" for x by (simp_all add: delim_def)
  show ?case
  proof (cases ms)
    case Nil
    have "2 * length tx + 2 \<le> m" using Cons.prems(3) n l Nil by simp
    from loads_inside [OF tx d(2) this] obtain r where
      "parse_value fl m (skip_ws (tx @ [125])) = Some (v, r @ [125])" "skip_ws (r @ [125]) = skip_ws [125]" .
    with Nil n show ?thesis
      by (simp add: e member_text_def json_str_def scan_string_json_str k ws)
  next
    case (Cons e' ms')
    let ?j = "py_join [44, 32] (map member_text ms)"
    have len: "length (member_text e) + 2 + length ?j = length (py_join [44, 32] (map member_text (e # ms)))"
      using Cons by simp
    have "2 * length tx + 2 \<le> m" using Cons.prems(3) n l len by simp
    from loads_inside [OF tx d(1) this] obtain r where
      v: "parse_value fl m (skip_ws (tx @ 44 # 32 # ?j @ [125])) = Some (v, r @ 44 # 32 # ?j @ [125])"
        "skip_ws (r @ 44 # 32 # ?j @ [125]) = skip_ws (44 # 32 # ?j @ [125])" .
    obtain j where j: "?j = 34 # j"
      using Cons by (cases e'; cases ms') (auto simp: member_text_def json_str_def)
    have IH: "parse_members fl m (?j @ [125]) = Some (map (\<lambda>(k, tx, v). (k, v)) ms, [])"
      by (rule Cons.IH) (use Cons.prems Cons n len l in auto)
    have "skip_ws (?j @ [125]) = ?j @ [125]" unfolding j by (simp add: skip_ws_Cons is_ws_def)
    with v IH n Cons show ?thesis
      by (simp add: e member_text_def json_str_def scan_string_json_str k ws)
  qed
qed simp

lemma loads_object:
  assumes "\<forall>(k, tx, v) \<in> set ms. json_loads fl tx = Inr v \<and> (\<forall>c \<in> set k. 0 \<le> c)" and "distinct (map fst ms)"
  shows "json_loads fl (123 # py_join [44, 32] (map member_text ms) @ [125])
    = Inr (JObj (map (\<lambda>(k, tx, v). (k, v)) ms))"
proof (cases ms)
  case Nil
  then show ?thesis by (simp add: json_loads_def skip_ws_Cons is_ws_def numeral_eq_Suc)
next
  case (Cons e ms')
  let ?j = "py_join [44, 32] (map member_text ms)"
  obtain j where j: "?j = 34 # j"
    using Cons by (cases e; cases ms') (auto simp: member_text_def json_str_def)
  have q: "skip_ws (?j @ [125]) = ?j @ [125]" "\<not> prefix [125] (?j @ [125])"
    unfolding j by (simp_all add: skip_ws_Cons is_ws_def)
  have p: "parse_members fl (Suc (2 * length (?j @ [125]) + 2)) (?j @ [125])
      = Some (map (\<lambda>(k, tx, v). (k, v)) ms, [])"
    by (rule parse_members_texts) (use assms(1) Cons in auto)
  have m: "map fst (map (\<lambda>(k, tx, v). (k, v)) ms) = map fst ms" by (induction ms) auto
  have "dict_of (map (\<lambda>(k, tx, v). (k, v)) ms) = map (\<lambda>(k, tx, v). (k, v)) ms"
    by (rule dict_of_distinct) (unfold m, rule assms(2))
  with p q show ?thesis
    by (simp add: json_loads_def skip_ws_Cons is_ws_def del: parse_members.simps)
qed

section \<open>Parameters\<close>

text \<open>
  The value a parameter stands for: the text itself when it is declared a string, what the text loads as otherwise.
\<close>

definition argument_value :: "(pystr \<Rightarrow> pystr) \<Rightarrow> pystr \<times> pystr \<Rightarrow> json res" where
  "argument_value fl = (\<lambda>(value, string). if string = lit ''true'' then Inr (JStr value) else json_loads fl value)"

definition is_text :: "pystr \<Rightarrow> bool" where
  "is_text s \<longleftrightarrow> (\<forall>c \<in> set s. 0 \<le> c)"

definition args_ok :: "(pystr \<times> (pystr \<times> pystr)) list \<Rightarrow> bool" where
  "args_ok args \<longleftrightarrow> distinct (map fst args) \<and>
     (\<forall>(k, value, string) \<in> set args. is_text k \<and> is_text value \<and> string \<in> {lit ''true'', lit ''false''})"

lemma arguments_load:
  assumes "args_ok args" and "list_all2 (\<lambda>(k, a) (k', v). k' = k \<and> argument_value fl a = Inr v) args kvs"
  shows "\<exists>t. tc_arguments (decode_dsml_to_arguments n args) = JStr t \<and> json_loads fl t = Inr (JObj kvs)"
proof -
  define ms where "ms = map2 (\<lambda>(k, value, string) (_, v). (k, if string = lit ''true'' then json_str value else value, v)) args kvs"
  have l: "length kvs = length args" using assms(2) by (simp add: list_all2_lengthD)
  have at: "fst (kvs ! i) = fst (args ! i) \<and> argument_value fl (snd (args ! i)) = Inr (snd (kvs ! i))" if "i < length args" for i
    using list_all2_nthD [OF assms(2) that] by (simp add: case_prod_beta)
  have kvs: "kvs = map (\<lambda>(k, tx, v). (k, v)) ms"
    using l at by (auto simp: ms_def case_prod_beta intro!: nth_equalityI prod_eqI)
  have keys: "map fst ms = map fst args"
    using l by (auto simp: ms_def case_prod_beta intro!: nth_equalityI)
  have str: "json_loads fl (json_str s) = Inr (JStr s)" if "is_text s" for s
    using that json_loads_dumps [of fl "JStr s"] by (simp add: is_text_def list_all_iff)
  have "json_loads fl tx = Inr v \<and> (\<forall>c \<in> set k. 0 \<le> c)" if "(k, tx, v) \<in> set ms" for k tx v
  proof -
    have "length ms = length args" using l by (simp add: ms_def)
    with that obtain i where i: "i < length args" "(k, tx, v) = ms ! i" by (metis in_set_conv_nth)
    obtain k' val flag where a: "args ! i = (k', val, flag)" by (metis prod_cases3)
    have "(k', val, flag) \<in> set args" using i(1) a by (metis nth_mem)
    then have "is_text k'" "is_text val" using assms(1) by (auto simp: args_ok_def)
    with at [OF i(1)] i l a str show ?thesis
      by (cases "kvs ! i") (auto simp: ms_def argument_value_def is_text_def split: if_splits)
  qed
  then have "json_loads fl (123 # py_join [44, 32] (map member_text ms) @ [125]) = Inr (JObj kvs)"
    unfolding kvs using assms(1) keys by (intro loads_object) (auto simp: args_ok_def)
  moreover have "map member_text ms = map decode_value args"
    using l by (intro nth_equalityI)
      (auto simp: ms_def member_text_def decode_value_def to_json_def case_prod_beta lit_Cons)
  ultimately show ?thesis
    by (simp add: decode_dsml_to_arguments_def lit_Cons)
qed

section \<open>What the parser reads\<close>

lemma lazy_split_parts:
  "lazy_split p s = Some (l, x) \<Longrightarrow> \<exists>rest. s = l @ rest \<and> p rest = Some x"
  by (induction p s arbitrary: l x rule: lazy_split.induct) (auto split: option.splits)

lemma match_param_parts:
  assumes "match_param s = Some (k, string, value)" and "is_text s"
  shows "is_text k \<and> is_text value \<and> string \<in> {lit ''true'', lit ''false''}"
proof -
  obtain u where s: "drop 7 s = k @ u" and u: "param_tail u = Some (string, value)"
    using assms(1) by (auto simp: match_param_def dest: lazy_split_parts split: if_splits)
  obtain w where w: "set w \<subseteq> set u" "prefix value w" "string \<in> {lit ''true'', lit ''false''}"
  proof (cases "prefix (lit ''\" string=\"true\">'') u")
    case True
    with u obtain x where "lazy_split value_tail (drop 16 u) = Some (value, x)" "string = lit ''true''"
      by (auto simp: param_tail_def)
    then show ?thesis using that [of "drop 16 u"] lazy_split_parts by (force simp: set_drop_subset)
  next
    case False
    with u obtain x where "lazy_split value_tail (drop 17 u) = Some (value, x)" "string = lit ''false''"
      by (auto simp: param_tail_def split: if_splits)
    then show ?thesis using that [of "drop 17 u"] lazy_split_parts by (force simp: set_drop_subset)
  qed
  have "set k \<union> set u \<subseteq> set s" using s set_drop_subset [of 7 s] by auto
  moreover have "set value \<subseteq> set w" using w(2) by (auto simp: prefix_def)
  ultimately have "set k \<subseteq> set s" "set value \<subseteq> set s" using w(1) by auto
  with assms(2) w(3) show ?thesis by (auto simp: is_text_def)
qed

lemma read_until_stop_text:
  "read_until_stop index tx stop = (index', content, matched) \<Longrightarrow> is_text tx \<Longrightarrow> is_text content"
  by (auto simp: read_until_stop_def is_text_def split: prod.splits option.splits list.splits
      dest!: in_set_dropD in_set_takeD)

lemma parse_params_args:
  "parse_params index tx stop_token args = Inr (index', stop', args') \<Longrightarrow> is_text tx \<Longrightarrow> args_ok args \<Longrightarrow> args_ok args'"
proof (induction index tx stop_token args rule: parse_params.induct)
  case (1 index tx stop_token args)
  show ?case
  proof (cases "stop_token \<noteq> Some parameter_start \<or> length tx < index")
    case True
    with 1 show ?thesis by (subst (asm) (2) parse_params.simps) (auto split: if_splits)
  next
    case False
    obtain index1 pc stop1 where r1: "read_until_stop index tx [parameter_end] = (index1, pc, stop1)"
      by (metis prod_cases3)
    obtain index2 c stop2 where
      r2: "read_until_stop index1 tx [parameter_start, invoke_end] = (index2, c, stop2)"
      by (metis prod_cases3)
    obtain n s v where m: "match_param pc = Some (n, s, v)" "n \<notin> set (map fst args)"
      "c = lit ''>\<newline>''"
      "parse_params index2 tx stop2 (args @ [(n, (v, s))]) = Inr (index', stop', args')"
      using "1.prems"(1) False r1 r2
      by (subst (asm) (2) parse_params.simps) (auto split: option.splits if_splits)
    have ok: "args_ok (args @ [(n, (v, s))])"
      using match_param_parts [OF m(1) read_until_stop_text [OF r1 "1.prems"(2)]] m(2) "1.prems"(3)
      by (auto simp: args_ok_def)
    show ?thesis
      by (rule "1.IH" [OF False r1 [symmetric] refl m(1) refl refl _ r2 [symmetric] refl _ m(4) "1.prems"(2) ok])
        (use m in auto)
  qed
qed

lemma parse_calls_args:
  "parse_calls_from index tx stop_token calls = Inr (index', stop', calls') \<Longrightarrow> is_text tx \<Longrightarrow> call \<in> set calls' \<Longrightarrow>
     call \<in> set calls \<or> (\<exists>n args. call = decode_dsml_to_arguments n args \<and> args_ok args)"
proof (induction index tx stop_token calls rule: parse_calls_from.induct)
  case (1 index tx stop_token calls)
  show ?case
  proof (cases "length tx \<le> index")
    case True
    with 1 show ?thesis by (subst (asm) (2) parse_calls_from.simps) auto
  next
    case False
    obtain index1 b stop1 where r: "read_until_stop index tx [invoke_start, tool_calls_end_token] = (index1, b, stop1)"
      by (metis prod_cases3)
    note step = "1.prems"(1) [unfolded parse_calls_from.simps [of index tx stop_token calls]]
    have b: "b = lit ''>\<newline>''" "stop1 \<noteq> None" using step False r by (auto split: if_splits)
    show ?thesis
    proof (cases "stop1 = Some tool_calls_end_token")
      case True
      with step "1.prems"(3) False r b show ?thesis by auto
    next
      case notend: False
      obtain index2 stop2 c where i: "parse_invoke index1 tx = Inr (index2, stop2, c)"
        and rest: "parse_calls_from index2 tx stop2 (calls @ [c]) = Inr (index', stop', calls')"
        using step False r b notend by (auto split: sum.splits)
      obtain n args where "c = decode_dsml_to_arguments n args" "args_ok args"
        using i parse_params_args [OF _ "1.prems"(2), of _ _ "[]"]
        by (auto simp: parse_invoke_def exc_simps args_ok_def split: prod.splits option.splits)
      moreover have "call \<in> set (calls @ [c]) \<or> (\<exists>n args. call = decode_dsml_to_arguments n args \<and> args_ok args)"
        by (rule "1.IH" [OF False r [symmetric] refl _ notend b(2) i refl refl rest "1.prems"(2,3)]) (use b in auto)
      ultimately show ?thesis by auto
    qed
  qed
qed

end
