(* ===== verification/EncProps.thy ===== *)
theory EncProps
  imports EncTurns EncTypes
begin

text \<open>
  The properties of the encoder, on the facts of \<open>EncFacts\<close>, \<open>EncRoundtrip\<close> and \<open>EncTurns\<close>.
\<close>

section \<open>Example messages\<close>

definition ex_lib :: pylib where
  "ex_lib = \<lparr>py_float = id, py_str = json_dumps\<rparr>"

definition ex_user :: message where
  "ex_user = empty_message\<lparr>role := Some (lit ''user''), content := Some (JStr (lit ''hi''))\<rparr>"

definition ex_args :: "(pystr \<times> json) list" where
  "ex_args = [(lit ''city'', JStr (lit ''Oslo'')), (lit ''days'', JInt 3)]"

definition ex_call :: json where
  "ex_call = JObj [(lit ''id'', JStr (lit ''c1'')),
     (lit ''function'', JObj [(lit ''name'', JStr (lit ''w'')),
        (lit ''arguments'', JStr (json_dumps (JObj ex_args)))])]"

definition ex_assistant :: message where
  "ex_assistant = empty_message\<lparr>role := Some (lit ''assistant''), content := Some (JStr (lit ''ok'')),
     reasoning_content := Some (lit ''so''), tool_calls := [ex_call]\<rparr>"

definition ex_developer :: message where
  "ex_developer = empty_message\<lparr>role := Some (lit ''developer''), content := Some (JStr (lit ''be brief''))\<rparr>"

section \<open>Properties\<close>

text \<open>
  C3. An assistant turn, appended to an encoded conversation, is rendered as a completion that
  \<open>parse_message_from_completion_text\<close> reads back: same content, same reasoning,
  and tool calls with the same names and arguments.
\<close>

theorem completion_roundtrip:
  assumes "has_role a ''assistant''" and "tools a = []" and "task a = None"
    and "wo_eos a \<noteq> Some True"
    and "tool_calls_from_openai_format (tool_calls a) = Inr tcs"
    and "list_all2 (resolves lib) tcs cs" and "list_all call_ok cs"
    and "call_order (tool_calls a) = Inr order"
    and "content a = Some (JStr c)" and "plain c"
    and "rc = (case reasoning_content a of None \<Rightarrow> [] | Some r \<Rightarrow> r)" and "plain rc"
    and "msgs \<noteq> []" and "list_all (\<lambda>m. task m = None) msgs"
    and "encode_messages lib msgs mode [] drop_thinking bos effort = Inr prompt"
  shows "\<exists>completion.
     encode_messages lib (msgs @ [a]) mode [] drop_thinking bos effort = Inr (prompt @ completion) \<and>
     parse_message_from_completion_text completion mode =
       Inr \<lparr>pm_role = lit ''assistant'', pm_content = c,
            pm_reasoning_content = (if mode = lit ''thinking'' then rc else []),
            pm_tool_calls = map (openai_call \<circ> parsed_call) cs\<rparr>"
proof -
  obtain ms where ms: "sort_results_from [] (merge_tool_messages msgs) = Inr ms"
    using assms(15) by (auto simp: encode_no_context exc_simps)
  define eff where "eff = (drop_thinking \<and> \<not> list_ex (\<lambda>m. tools m \<noteq> []) ms)"
  let ?f = "prepared mode eff ms"
  have ne: "?f \<noteq> []"
    using sort_length [OF ms] merge_nonempty [OF assms(13)] by (intro prepared_nonempty) auto
  have "list_all (\<lambda>t. t = None) (map task ms)"
    using merge_tasks [OF assms(14)] by (simp add: sort_tasks [OF ms] list_all_iff)
  then have tk: "list_all (\<lambda>m. task m = None) ?f" by (intro prepared_tasks) (simp add: list_all_iff)
  obtain n where n: "length ?f = Suc n" using ne by (cases "length ?f") auto
  obtain p0 where "render_message lib 0 ?f mode eff effort = Inr p0"
    using assms(15) unfolding encode_no_context ms bindE_Inr Let_def eff_def [symmetric] n
    by (auto simp: exc_simps)
  note v = render_message_valid [OF this]
  let ?b = "(if mode = lit ''thinking'' then rc @ thinking_end_token else [])
     @ c @ (if cs = [] then [] else tool_calls_start_token @ ctail cs) @ eos_token"
  have "task (last ?f) = None" using tk last_in_set [OF ne] by (auto simp: list_all_iff)
  with assms v ne have "render_message lib (length ?f) (?f @ [a]) mode eff effort = Inr ?b"
    by (subst render_last_assistant) auto
  with encode_append [OF assms(1,2,8) ms eff_def assms(15)]
  have 1: "encode_messages lib (msgs @ [a]) mode [] drop_thinking bos effort = Inr (prompt @ ?b)" by simp
  have 2: "parse_message_from_completion_text ?b mode =
       Inr \<lparr>pm_role = lit ''assistant'', pm_content = c,
            pm_reasoning_content = (if mode = lit ''thinking'' then rc else []),
            pm_tool_calls = map (openai_call \<circ> parsed_call) cs\<rparr>"
  proof (rule parse_rest)
    show "read_reasoning ?b mode = Inr (length (if mode = lit ''thinking'' then rc @ thinking_end_token else []),
        if mode = lit ''thinking'' then rc else [])"
      using read_reasoning_hit [OF assms(12)] by (auto simp: read_reasoning_def)
    show "plain (if mode = lit ''thinking'' then rc else [])"
      using assms(12) plain_Nil by simp
  qed (use assms in auto)
  from 1 2 show ?thesis by blast
qed

theorem completion_roundtrip_witness:
  "\<exists>prompt completion.
     encode_messages ex_lib [ex_user] (lit ''thinking'') [] True True None = Inr prompt \<and>
     encode_messages ex_lib [ex_user, ex_assistant] (lit ''thinking'') [] True True None
       = Inr (prompt @ completion) \<and>
     parse_message_from_completion_text completion (lit ''thinking'') =
       Inr \<lparr>pm_role = lit ''assistant'', pm_content = lit ''ok'', pm_reasoning_content = lit ''so'',
            pm_tool_calls = map (openai_call \<circ> parsed_call) [(lit ''w'', ex_args)]\<rparr>"
proof -
  have "\<not> isl (encode_messages ex_lib [ex_user] (lit ''thinking'') [] True True None)"
    by code_simp
  then obtain prompt where
    e: "encode_messages ex_lib [ex_user] (lit ''thinking'') [] True True None = Inr prompt"
    by (auto simp: isl_def)
       (metis sum.exhaust)
  have h: "has_role ex_assistant ''assistant''" "tools ex_assistant = []" "task ex_assistant = None"
    "wo_eos ex_assistant \<noteq> Some True" "content ex_assistant = Some (JStr (lit ''ok''))"
    "lit ''so'' = (case reasoning_content ex_assistant of None \<Rightarrow> [] | Some r \<Rightarrow> r)"
    by (simp_all add: ex_assistant_def has_role_def empty_message_def)
  have t: "tool_calls_from_openai_format (tool_calls ex_assistant)
      = Inr [\<lparr>tc_name = JStr (lit ''w''), tc_arguments = JStr (json_dumps (JObj ex_args))\<rparr>]"
    by (simp add: tool_calls_from_openai_format_def ex_assistant_def ex_call_def lit_Cons)
  have r: "list_all2 (resolves ex_lib) [\<lparr>tc_name = JStr (lit ''w''), tc_arguments = JStr (json_dumps (JObj ex_args))\<rparr>]
      [(lit ''w'', ex_args)]"
  proof -
    have "wf_json id (JObj ex_args)" by code_simp
    then have "json_loads id (json_dumps (JObj ex_args)) = Inr (JObj ex_args)"
      by (rule json_loads_dumps)
    then show ?thesis
      by (simp add: resolves_def arguments_of_def ex_lib_def del: json_dumps.simps)
  qed
  have o: "call_order (tool_calls ex_assistant) = Inr [(lit ''c1'', 0)]" by code_simp
  have c: "list_all call_ok [(lit ''w'', ex_args)]" "plain (lit ''ok'')" "plain (lit ''so'')"
    "list_all (\<lambda>m. task m = None) [ex_user]"
    by code_simp+
  from completion_roundtrip [OF h(1-4) t r c(1) o h(5) c(2) h(6) c(3) _ c(4) e]
  show ?thesis using e by auto
qed

text \<open>
  The arguments string the parser builds from a call's parameters is JSON for exactly the
  arguments dict that was written.
\<close>

theorem tool_arguments_load:
  assumes "wf_json fl (JObj args)"
  shows "\<exists>arguments.
     tc_arguments (decode_dsml_to_arguments name (map parsed_arg args)) = JStr arguments \<and>
     json_loads fl arguments = Inr (JObj args)"
proof -
  have "tc_arguments (decode_dsml_to_arguments name (map parsed_arg args)) = JStr (json_dumps (JObj args))"
    by (simp add: decode_parsed_args parsed_call_def del: json_dumps.simps)
  with json_loads_dumps [OF assms] show ?thesis by blast
qed

theorem tool_arguments_load_witness:
  "\<exists>arguments.
     tc_arguments (decode_dsml_to_arguments (lit ''w'') (map parsed_arg ex_args)) = JStr arguments \<and>
     json_loads id arguments = Inr (JObj ex_args)"
proof -
  have "wf_json id (JObj ex_args)" by code_simp
  then show ?thesis by (rule tool_arguments_load)
qed

text \<open>
  C10. \<open>_read_until_stop\<close> splits the text at the earliest occurrence of any stop
  string, and without one returns the whole rest.
\<close>

theorem read_until_stop_earliest:
  assumes "[] \<notin> set stops" and "read_until_stop index tx stops = (index', body, matched)"
  shows "case matched of
      Some s \<Rightarrow> s \<in> set stops \<and> drop index tx = body @ s @ drop index' tx \<and>
                index' = index + length body + length s \<and>
                (\<forall>t \<in> set stops. \<forall>q < length body. \<not> prefix t (drop (index + q) tx))
    | None \<Rightarrow> index' = length tx \<and> body = drop index tx \<and>
                (\<forall>t \<in> set stops. \<forall>q. index \<le> q \<and> q < length tx \<longrightarrow> \<not> prefix t (drop q tx))"
  using assms by (rule read_until_stop_cases)

theorem read_until_stop_earliest_witness:
  "read_until_stop 1 (lit ''xabcd'') [lit ''cd'', lit ''bc''] = (4, lit ''a'', Some (lit ''bc'')) \<and>
   \<not> prefix (lit ''cd'') (drop 1 (lit ''xabcd'')) \<and> \<not> prefix (lit ''bc'') (drop 1 (lit ''xabcd''))"
proof -
  have "read_until_stop 1 (lit ''xabcd'') [lit ''cd'', lit ''bc''] = (4, lit ''a'', Some (lit ''bc''))"
    by code_simp
  from this read_until_stop_earliest [OF _ this] show ?thesis by (force simp: lit_Cons)
qed

text \<open>
  C11. A completion that parses is its reasoning, content and an end, in this order, and neither
  part holds a special token.
\<close>

theorem parse_success_text:
  assumes "parse_message_from_completion_text tx mode = Inr msg"
  shows "\<not> has_special_token (pm_content msg) \<and> \<not> has_special_token (pm_reasoning_content msg) \<and>
     (\<exists>rest. tx = (if mode = lit ''thinking'' then pm_reasoning_content msg @ thinking_end_token else [])
                  @ pm_content msg @ rest \<and>
             (rest = eos_token \<and> pm_tool_calls msg = [] \<or> prefix tool_calls_start_token rest))"
proof -
  obtain index rc where r: "read_reasoning tx mode = Inr (index, rc)"
    using assms by (auto simp: parse_message_from_completion_text_def exc_simps)
  obtain i1 sm s1 where u: "read_until_stop index tx [eos_token, tool_calls_start_token] = (i1, sm, s1)"
    by (metis prod_cases3)
  from read_reasoning_split [OF r] obtain rest where
    t: "tx = (if mode = lit ''thinking'' then rc @ thinking_end_token else []) @ rest"
      "drop index tx = rest" by auto
  have m: "pm_content msg = sm" "pm_reasoning_content msg = rc" "\<not> has_special_token sm"
    "\<not> has_special_token rc" "s1 = Some eos_token \<or> s1 = Some tool_calls_start_token"
    "s1 = Some eos_token \<Longrightarrow> i1 = length tx \<and> pm_tool_calls msg = []"
    using assms r u
    by (auto simp: parse_message_from_completion_text_def exc_simps tool_calls_to_openai_format_def
        split: if_splits prod.splits)
  with read_until_stop_cases [OF special_tokens_nonempty(1) u] t show ?thesis by auto
qed

theorem parse_success_text_witness:
  "\<not> has_special_token (lit ''hi'') \<and>
     (\<exists>rest. lit ''hi'' @ eos_token = lit ''hi'' @ rest \<and>
        (rest = eos_token \<or> prefix tool_calls_start_token rest))"
proof -
  have p: "parse_message_from_completion_text (lit ''hi'' @ eos_token) (lit ''chat'') =
      Inr \<lparr>pm_role = lit ''assistant'', pm_content = lit ''hi'', pm_reasoning_content = [], pm_tool_calls = []\<rparr>"
    by code_simp
  show ?thesis using parse_success_text [OF p] by (auto simp: lit_Cons)
qed

text \<open>
  Text without an end token or tool block fails with \<open>AssertionError\<close>, not
  with the \<open>ValueError\<close> the docstring of the parser announces.
\<close>

theorem missing_end_is_an_assertion:
  assumes "\<not> sublist eos_token tx" and "\<not> sublist tool_calls_start_token tx"
  shows "parse_message_from_completion_text tx (lit ''chat'') = Inl AssertionError"
proof -
  obtain i1 sm s1 where u: "read_until_stop 0 tx [eos_token, tool_calls_start_token] = (i1, sm, s1)"
    by (metis prod_cases3)
  have "drop 0 tx = sm @ t @ r \<Longrightarrow> sublist t tx" for t r by (simp add: sublist_appendI)
  with read_until_stop_cases [OF special_tokens_nonempty(1) u] assms have "s1 = None"
    by (cases s1) (auto simp del: drop0)
  with u show ?thesis
    by (simp add: parse_message_from_completion_text_def read_reasoning_def lit_Cons)
qed

theorem missing_end_is_an_assertion_witness:
  "parse_message_from_completion_text (lit ''hi'') (lit ''chat'') = Inl AssertionError"
proof -
  have "\<not> sublist eos_token (lit ''hi'')" "\<not> sublist tool_calls_start_token (lit ''hi'')"
    unfolding find_sub_None_iff [symmetric] by code_simp+
  then show ?thesis by (rule missing_end_is_an_assertion)
qed


text \<open>
  C19. Sorting only permutes tool results among the places tool results have, stably by call
  order, and is idempotent.
\<close>

theorem sort_blocks_in_place:
  "map is_tool_result (sort_blocks order bs) = map is_tool_result bs \<and>
   filter (\<lambda>b. \<not> is_tool_result b) (sort_blocks order bs) = filter (\<lambda>b. \<not> is_tool_result b) bs \<and>
   filter is_tool_result (sort_blocks order bs) =
     (if order = [] then filter is_tool_result bs
      else sort_key (result_key order) (filter is_tool_result bs)) \<and>
   sort_blocks order (sort_blocks order bs) = sort_blocks order bs"
proof -
  have "sort_blocks order (sort_blocks order bs) = sort_blocks order bs"
    by (rule split_eq [of is_tool_result])
      (simp_all add: sort_blocks_facts sort_key_id_if_sorted)
  then show ?thesis by (simp add: sort_blocks_facts)
qed

text \<open>
  Dropping leaves the messages from the last user turn on alone, strips the reasoning of
  earlier assistant turns, removes earlier developer messages, and is idempotent.
\<close>

theorem drop_thinking_cuts_at_last_user:
  assumes "is_user_or_developer u" and "list_all (\<lambda>m. \<not> is_user_or_developer m) post"
  shows "drop_thinking_messages (pre @ u # post) = map strip_reasoning (filter survives pre) @ u # post \<and>
     drop_thinking_messages (drop_thinking_messages (pre @ u # post)) = drop_thinking_messages (pre @ u # post)"
proof -
  have "survives (strip_reasoning m) = survives m" "strip_reasoning (strip_reasoning m) = strip_reasoning m" for m
    by (simp_all add: strip_reasoning_def survives_def keep_role_def has_role_def)
  then have "map strip_reasoning (filter survives (map strip_reasoning (filter survives pre)))
      = map strip_reasoning (filter survives pre)"
    by (induction pre) auto
  with drop_thinking_split [OF assms] show ?thesis by simp
qed

theorem drop_thinking_cuts_at_last_user_witness:
  "drop_thinking_messages [ex_assistant, ex_user, ex_assistant]
     = [ex_assistant\<lparr>reasoning_content := None\<rparr>, ex_user, ex_assistant]"
proof -
  have "is_user_or_developer ex_user" "list_all (\<lambda>m. \<not> is_user_or_developer m) [ex_assistant]"
    "survives ex_assistant" "\<not> keep_role ex_assistant"
    by code_simp+
  with drop_thinking_cuts_at_last_user [of ex_user "[ex_assistant]" "[ex_assistant]"]
  show ?thesis by (simp add: strip_reasoning_def)
qed

text \<open>
  \<open>find_last_user_index\<close> is -1 exactly when there is no user or developer
  message, and otherwise the index of the last one.
\<close>

theorem last_user_index:
  "(find_last_user_index messages = -1 \<longleftrightarrow> \<not> list_ex is_user_or_developer messages) \<and>
   -1 \<le> find_last_user_index messages \<and> find_last_user_index messages < int (length messages) \<and>
   (find_last_user_index messages = -1 \<or>
      is_user_or_developer (messages ! nat (find_last_user_index messages)) \<and>
      \<not> list_ex is_user_or_developer (drop (nat (find_last_user_index messages + 1)) messages))"
proof -
  let ?l = "find_last_user_index messages"
  note b = last_user_below_bounds [of messages "length messages", folded find_last_user_index_def]
  note s = last_user_below_spec [of messages "length messages", folded find_last_user_index_def]
  have "\<not> is_user_or_developer (drop (nat (?l + 1)) messages ! j)"
    if "0 \<le> ?l" "j < length (drop (nat (?l + 1)) messages)" for j
    using that s by (auto simp: nat_add_distrib)
  then have "?l = -1 \<or> \<not> list_ex is_user_or_developer (drop (nat (?l + 1)) messages)"
    using b by (force simp: list_ex_length)
  with b s show ?thesis by (auto simp: list_ex_length)
qed

text \<open>
  A prompt whose last message is a plain user turn ends by opening the assistant turn, with
  thinking opened in thinking mode and closed otherwise.
\<close>

theorem prompt_opens_the_assistant_turn:
  assumes "has_role u ''user''" and "task u = None"
    and "encode_messages lib (msgs @ [u]) mode [] drop_thinking bos effort = Inr prompt"
  shows "suffix (ASSISTANT_SP_TOKEN
     @ (if mode = lit ''thinking'' then thinking_start_token else thinking_end_token)) prompt"
proof -
  let ?m = "merge_tool_messages (msgs @ [u])"
  have m: "?m \<noteq> []" "has_role (last ?m) ''user''" "task (last ?m) = None"
    using merge_step_user_last [OF assms(1,2)] by (simp_all add: merge_tool_messages_def)
  obtain ms where ms: "sort_results_from [] ?m = Inr ms"
    using assms(3) by (auto simp: encode_no_context exc_simps)
  then have "last (map role ms) = last (map role ?m)" by (simp add: sort_roles)
  with m ms have l: "ms \<noteq> []" "has_role (last ms) ''user''" "task (last ms) = None"
    using sort_nonempty [OF ms] sort_last_task [OF ms] by (auto simp: has_role_def last_map)
  define eff where "eff = (drop_thinking \<and> \<not> list_ex (\<lambda>m. tools m \<noteq> []) ms)"
  let ?f = "prepared mode eff ms"
  have f: "?f \<noteq> []" "has_role (last ?f) ''user''" "task (last ?f) = None"
    using prepared_last_user [OF l(1,2)] l by simp_all
  obtain n where n: "length ?f = Suc n" using f(1) by (cases "length ?f") auto
  from assms(3) obtain p q where q: "render_message lib n ?f mode eff effort = Inr q"
    "prompt = (if bos then bos_token else []) @ p @ q"
    unfolding encode_no_context ms bindE_Inr Let_def eff_def [symmetric] n render_range_snoc
    by (auto simp: exc_simps)
  from render_message_ends [OF q(1)] transition_last_user [OF f, of mode eff] n q(2)
  show ?thesis by (simp add: suffix_append)
qed

theorem prompt_opens_the_assistant_turn_witness:
  "\<exists>prompt. encode_messages ex_lib ([] @ [ex_user]) (lit ''thinking'') [] True True None = Inr prompt \<and>
     suffix (ASSISTANT_SP_TOKEN @ thinking_start_token) prompt"
proof -
  have "\<not> isl (encode_messages ex_lib ([] @ [ex_user]) (lit ''thinking'') [] True True None)"
    by code_simp
  then obtain prompt where
    e: "encode_messages ex_lib ([] @ [ex_user]) (lit ''thinking'') [] True True None = Inr prompt"
    by (auto simp: isl_def) (metis sum.exhaust)
  have "has_role ex_user ''user''" "task ex_user = None" by code_simp+
  from prompt_opens_the_assistant_turn [OF this e] e show ?thesis by auto
qed

text \<open>
  C20. A conversation of text messages always encodes: no exception in any pass.
\<close>

theorem chat_turns_encode:
  assumes "list_all chat_turn msgs" and "mode \<in> {lit ''chat'', lit ''thinking''}"
    and "map_of REASONING_EFFORT_PROMPTS (effort_of effort) \<noteq> None"
  shows "\<exists>prompt. encode_messages lib msgs mode [] drop_thinking bos effort = Inr prompt"
proof -
  let ?ms = "merge_tool_messages msgs"
  have m: "list_all (merged_turn lib) ?ms" using assms(1) by (rule merged_turns)
  then have "list_all (merged_turn lib) (prepared mode drp ?ms)" for drp
    by (simp add: prepared_def drop_thinking_messages_def merged_drop_from)
  from merged_render_range [OF this _ assms(2,3)]
  have "\<exists>b. render_range lib (prepared mode drp ?ms) mode drp effort 0 (length (prepared mode drp ?ms)) = Inr b"
    for drp by simp
  then show ?thesis unfolding encode_no_context sort_merged [OF m] bindE_Inr Let_def
    by (metis bindE_Inr)
qed

theorem chat_turns_encode_witness:
  "\<exists>prompt. encode_messages ex_lib [ex_user, ex_user\<lparr>role := Some (lit ''tool'')\<rparr>]
     (lit ''thinking'') [] True True None = Inr prompt"
proof (rule chat_turns_encode)
  show "list_all chat_turn [ex_user, ex_user\<lparr>role := Some (lit ''tool'')\<rparr>]" by code_simp
  show "map_of REASONING_EFFORT_PROMPTS (effort_of None) \<noteq> None" by code_simp
qed simp

text \<open>
  A completion that stops right after an invoke, with the tool block never closed and no
  end token, is accepted as a complete message.
\<close>

theorem truncated_tool_block_is_accepted:
  "parse_message_from_completion_text
     (tool_calls_start_token @ lit ''>\<newline>'' @ invoke_start @ lit '' name=\"f\">\<newline>'' @ invoke_end)
     (lit ''chat'') =
     Inr \<lparr>pm_role = lit ''assistant'', pm_content = [], pm_reasoning_content = [],
          pm_tool_calls = [openai_call \<lparr>tc_name = JStr (lit ''f''), tc_arguments = JStr (lit ''{}'')\<rparr>]\<rparr>"
  by code_simp

text \<open>
  With a context that ends in a developer message, dropping reasoning makes the count of
  messages to render zero and the new user message is missing from the prompt.
\<close>

theorem developer_context_hides_the_message:
  "encode_messages ex_lib [ex_user] (lit ''thinking'') [ex_user, ex_developer] True True None = Inr [] \<and>
   encode_messages ex_lib [ex_user] (lit ''thinking'') [ex_user] True True None
     = Inr (USER_SP_TOKEN @ lit ''hi'' @ ASSISTANT_SP_TOKEN @ thinking_start_token)"
  by code_simp

text \<open>
  C4. The parameters read for an invocation become the text of a JSON object: when those that are not declared strings
  hold JSON, the arguments of the tool call load as the object with the parameters in order, each name once, declared
  strings as they are and the others as what their text loads as.
\<close>

theorem tool_arguments_are_objects:
  assumes "parse_params index tx stop_token [] = Inr (index', stop', args)" and "is_text tx"
    and "list_all2 (\<lambda>(k, a) (k', v). k' = k \<and> argument_value fl a = Inr v) args kvs"
  shows "\<exists>t. tc_arguments (decode_dsml_to_arguments name args) = JStr t \<and> json_loads fl t = Inr (JObj kvs) \<and>
    distinct (map fst kvs)"
proof -
  have "args_ok args" using parse_params_args [OF assms(1,2)] by (simp add: args_ok_def)
  moreover have "map fst kvs = map fst args"
    using assms(3) by (induction rule: list_all2_induct) auto
  ultimately show ?thesis using arguments_load [OF _ assms(3)] by (auto simp: args_ok_def)
qed

definition ex_params :: pystr where
  "ex_params = lit '' name=\"city\" string=\"true\">Oslo<'' @ parameter_end @ lit ''>\<newline>'' @
     parameter_start @ lit '' name=\"days\" string=\"false\"> 3 <'' @ parameter_end @ lit ''>\<newline>'' @ invoke_end"

theorem tool_arguments_are_objects_witness:
  "\<exists>args t. parse_params 0 ex_params (Some parameter_start) [] = Inr (length ex_params, Some invoke_end, args) \<and>
     tc_arguments (decode_dsml_to_arguments (lit ''w'') args) = JStr t \<and>
     json_loads id t = Inr (JObj [(lit ''city'', JStr (lit ''Oslo'')), (lit ''days'', JInt 3)])"
proof -
  let ?args = "[(lit ''city'', (lit ''Oslo'', lit ''true'')), (lit ''days'', (lit '' 3 '', lit ''false''))]"
  let ?kvs = "[(lit ''city'', JStr (lit ''Oslo'')), (lit ''days'', JInt 3)]"
  have p: "parse_params 0 ex_params (Some parameter_start) [] = Inr (length ex_params, Some invoke_end, ?args)"
    by code_simp
  have t: "is_text ex_params" unfolding is_text_def by code_simp
  have "json_loads id (lit '' 3 '') = Inr (JInt 3)" by code_simp
  moreover have "lit ''false'' \<noteq> lit ''true''" by code_simp
  ultimately have "list_all2 (\<lambda>(k, a) (k', v). k' = k \<and> argument_value id a = Inr v) ?args ?kvs"
    by (simp add: argument_value_def)
  from tool_arguments_are_objects [OF p t this, of "lit ''w''"] p show ?thesis by blast
qed

end
