(* ===== verification/SchedTypes.thy ===== *)
theory SchedTypes
  imports Prelude
begin

text \<open>
  The data of \<open>src/deploy/overlays/dspark/scheduler.py\<close>: the request fields the scheduler reads and
  writes, its configuration, its state, and the vLLM objects it calls as records of functions on an
  opaque state \<open>'w\<close> of those objects. A request is an object the code mutates; the model keeps the
  objects in a store indexed by request id, and the queues, \<open>running\<close> and the dicts hold ids.
\<close>

section \<open>Requests\<close>

type_synonym rid = string

datatype request_status =
    WAITING | WAITING_FOR_STRUCTURED_OUTPUT_GRAMMAR | WAITING_FOR_REMOTE_KVS
  | WAITING_FOR_STREAMING_REQ | RUNNING | PREEMPTED
  | FINISHED_STOPPED | FINISHED_ABORTED | FINISHED_ERROR | FINISHED_OTHER nat

text \<open>
  \<open>RequestStatus.is_finished\<close>. \<open>FINISHED_OTHER\<close> stands for the finished statuses that only vLLM's
  \<open>check_stop\<close> assigns.
\<close>

fun is_finished :: "request_status \<Rightarrow> bool" where
  "is_finished FINISHED_STOPPED = True"
| "is_finished FINISHED_ABORTED = True"
| "is_finished FINISHED_ERROR = True"
| "is_finished (FINISHED_OTHER k) = True"
| "is_finished _ = False"

datatype scheduling_policy = FCFS | PRIORITY

datatype pause = UNPAUSED | PAUSED_NEW | PAUSED_ALL

text \<open>A multimodal item of a request: its placeholder range, its embeddings and its hash.\<close>

record mm_feature =
  mm_offset :: int
  mm_length :: int
  mm_embeds :: int
  mm_identifier :: string

text \<open>\<open>StreamingUpdate\<close>: the next input chunk of a streaming session.\<close>

record streaming_update =
  up_prompt_token_ids :: "int list"
  up_mm_features :: "mm_feature list"
  up_arrival_time :: int
  up_sampling_params :: int

text \<open>
  Sampling parameters and prefix statistics are handles the scheduler only passes on.
  \<open>lora_int_id\<close> is \<open>None\<close> without a LoRA request, \<open>has_grammar\<close> says that a structured-output request
  has its grammar, \<open>streaming_queue\<close> is \<open>None\<close> unless the request is a session, and an element
  \<open>None\<close> of the queue is the sentinel that ends the session.
\<close>

record request =
  request_id :: rid
  status :: request_status
  num_computed_tokens :: int
  num_prompt_tokens :: int
  prompt_token_ids :: "int list"
  all_token_ids :: "int list"
  output_token_ids :: "int list"
  spec_token_ids :: "int list"
  num_output_placeholders :: int
  max_tokens :: int
  next_decode_eligible_step :: int
  is_prefill_chunk :: bool
  mm_features :: "mm_feature list"
  priority :: int
  arrival_time :: int
  lora_int_id :: "int option"
  num_preemptions :: int
  last_sched_seq :: int
  use_structured_output :: bool
  has_grammar :: bool
  resumable :: bool
  streaming_queue :: "streaming_update option list option"
  client_index :: int
  async_tokens_to_discard :: int
  is_pooling :: bool
  sampling_params :: int
  prefill_stats :: "(int \<times> int \<times> int) option"

text \<open>Lengths of the token lists, as the note at the head of \<open>schedule\<close> describes them.\<close>

definition num_tokens :: "request \<Rightarrow> int" where
  "num_tokens r = int (length (all_token_ids r))"

definition num_tokens_with_spec :: "request \<Rightarrow> int" where
  "num_tokens_with_spec r = int (length (all_token_ids r)) + int (length (spec_token_ids r))"

definition has_encoder_inputs :: "request \<Rightarrow> bool" where
  "has_encoder_inputs r \<longleftrightarrow> mm_features r \<noteq> []"

section \<open>Configuration\<close>

record config =
  max_num_running_reqs :: int
  max_num_scheduled_tokens :: int
  max_model_len :: int
  num_sampled_tokens_per_step :: int
  long_prefill_token_threshold :: int
  max_num_partial_prefills :: int
  enable_chunked_prefill :: bool
  disable_chunked_mm_input :: bool
  num_spec_tokens :: int
  num_lookahead_tokens :: int
  dynamic_sd_lookup :: "int list option"
  use_eagle :: bool
  has_mamba_layers :: bool
  need_mamba_block_aligned_split :: bool
  cache_block_size :: int
  block_size :: int
  policy :: scheduling_policy
  max_loras :: "int option"
  has_connector :: bool
  hybrid_coordinator :: bool
  connector_supports_hma :: bool
  num_kv_cache_groups :: nat
  has_ec_connector :: bool
  is_encoder_decoder :: bool
  max_num_encoder_input_tokens :: int
  defer_block_free :: bool
  recompute_kv_load_failures :: bool
  scheduler_reserve_full_isl :: bool
  use_v2_model_runner :: bool
  use_pp :: bool
  async_scheduling :: bool
  needs_kv_cache_zeroing :: bool
  log_stats :: bool

section \<open>The output of a step\<close>

text \<open>\<open>NewRequestData\<close>: id, block ids, and for the V2 model runner all tokens.\<close>

record new_request_data =
  nr_req_id :: rid
  nr_block_ids :: "int list list option"
  nr_all_token_ids :: "int list option"

record cached_request_data =
  cd_req_ids :: "rid list"
  cd_resumed_req_ids :: "rid set"
  cd_new_token_ids :: "int list list"
  cd_all_token_ids :: "(rid \<times> int list) list"
  cd_new_block_ids :: "int list list option list"
  cd_num_computed_tokens :: "int list"
  cd_num_output_tokens :: "int list"

record scheduler_output =
  so_scheduled_new_reqs :: "new_request_data list"
  so_scheduled_cached_reqs :: cached_request_data
  so_num_scheduled_tokens :: "(rid \<times> int) list"
  so_total_num_scheduled_tokens :: int
  so_scheduled_spec_decode_tokens :: "(rid \<times> int list) list"
  so_scheduled_encoder_inputs :: "(rid \<times> nat list) list"
  so_num_common_prefix_blocks :: "int list"
  so_preempted_req_ids :: "rid set"
  so_finished_req_ids :: "rid set"
  so_free_encoder_mm_hashes :: "string list"
  so_new_block_ids_to_zero :: "int list option"
  so_num_spec_tokens_to_schedule :: int
  so_has_structured_output_requests :: bool
  so_num_invalid_spec_tokens :: "(rid \<times> int) list"

section \<open>The vLLM objects the scheduler calls\<close>

text \<open>The arguments of \<open>KVCacheManager.allocate_slots\<close>, with \<open>'b\<close> its block objects.\<close>

record 'b alloc_args =
  al_num_new_tokens :: int
  al_num_new_computed_tokens :: int
  al_new_computed_blocks :: 'b
  al_num_lookahead_tokens :: int
  al_num_external_computed_tokens :: int
  al_delay_cache_blocks :: bool
  al_num_encoder_tokens :: int
  al_full_sequence_must_fit :: bool
  al_reserved_blocks :: int
  al_has_scheduled_reqs :: bool

text \<open>
  \<open>KVCacheManager\<close>, its coordinator and its block pool. \<open>kv_allocate_slots_default\<close> is
  \<open>allocate_slots\<close> called with the number of new and of lookahead tokens only.
\<close>

record ('w, 'b) kv_lib =
  kv_new_step_starts :: "'w \<Rightarrow> 'w"
  kv_allocate_slots :: "request \<Rightarrow> 'b alloc_args \<Rightarrow> 'w \<Rightarrow> 'b option \<times> 'w"
  kv_allocate_slots_default :: "request \<Rightarrow> int \<Rightarrow> int \<Rightarrow> 'w \<Rightarrow> 'b option \<times> 'w"
  kv_get_computed_blocks :: "request \<Rightarrow> 'w \<Rightarrow> ('b \<times> int) \<times> 'w"
  kv_longest_hit_per_group :: "request \<Rightarrow> int \<Rightarrow> 'w \<Rightarrow> ('b \<times> int list) \<times> 'w"
  kv_uncached_common_prefix :: "'w \<Rightarrow> int"
  kv_empty_blocks :: 'b
  kv_get_blocks :: "rid \<Rightarrow> 'w \<Rightarrow> 'b"
  kv_free :: "rid \<Rightarrow> 'w \<Rightarrow> 'w"
  kv_pop_blocks_for_free :: "rid \<Rightarrow> 'w \<Rightarrow> int list \<times> 'w"
  kv_pool_free_blocks :: "int list \<Rightarrow> 'w \<Rightarrow> 'w"
  kv_num_blocks_to_allocate :: "request \<Rightarrow> int \<Rightarrow> 'w \<Rightarrow> int"
  kv_cache_blocks :: "rid \<Rightarrow> int \<Rightarrow> 'w \<Rightarrow> 'w"
  kv_get_block_ids :: "rid \<Rightarrow> 'w \<Rightarrow> int list list"
  kv_evict_blocks :: "int set \<Rightarrow> 'w \<Rightarrow> 'w"
  kv_reset_prefix_cache :: "'w \<Rightarrow> bool \<times> 'w"
  kv_remove_skipped_blocks :: "rid \<Rightarrow> int \<Rightarrow> int \<Rightarrow> 'w \<Rightarrow> 'w"
  kv_block_ids_for_computed :: "rid \<Rightarrow> int \<Rightarrow> 'w \<Rightarrow> int list list"
  kv_common_prefix_blocks :: "rid \<Rightarrow> 'w \<Rightarrow> int list"
  kv_take_new_block_ids :: "'w \<Rightarrow> int list \<times> 'w"
  kv_block_ids_of :: "'b \<Rightarrow> int list list option"

text \<open>The encoder cache manager, the multimodal helpers and the EC connector.\<close>

record 'w enc_lib =
  enc_check_and_update_cache :: "request \<Rightarrow> nat \<Rightarrow> 'w \<Rightarrow> bool \<times> 'w"
  enc_can_allocate :: "request \<Rightarrow> nat \<Rightarrow> int \<Rightarrow> int \<Rightarrow> 'w \<Rightarrow> bool \<times> 'w"
  enc_allocate :: "request \<Rightarrow> nat \<Rightarrow> 'w \<Rightarrow> 'w"
  enc_free :: "request \<Rightarrow> 'w \<Rightarrow> 'w"
  enc_free_encoder_input :: "request \<Rightarrow> nat \<Rightarrow> 'w \<Rightarrow> 'w"
  enc_cached_input_ids :: "request \<Rightarrow> 'w \<Rightarrow> nat list"
  enc_freed_mm_hashes :: "'w \<Rightarrow> string list \<times> 'w"
  mm_features_in_window :: "mm_feature list \<Rightarrow> int \<Rightarrow> int \<Rightarrow> nat \<times> nat"
  mm_embeds_in_range :: "mm_feature \<Rightarrow> int \<Rightarrow> int \<Rightarrow> int \<times> int"
  ec_has_cache_item :: "string \<Rightarrow> 'w \<Rightarrow> bool"
  ec_update_state_after_alloc :: "request \<Rightarrow> nat \<Rightarrow> 'w \<Rightarrow> 'w"
  ec_build_connector_meta :: "scheduler_output \<Rightarrow> 'w \<Rightarrow> 'w"
  ec_ensure_cache_available :: "request \<Rightarrow> int \<Rightarrow> 'w \<Rightarrow> bool \<times> 'w"

text \<open>The KV connector. \<open>request_finished\<close> answers with a delay flag and a handle of transfer parameters.\<close>

record ('w, 'b) conn_lib =
  conn_new_matched_tokens :: "request \<Rightarrow> int \<Rightarrow> 'w \<Rightarrow> (int option \<times> bool) \<times> 'w"
  conn_update_state_after_alloc :: "request \<Rightarrow> 'b \<Rightarrow> int \<Rightarrow> 'w \<Rightarrow> 'w"
  conn_on_new_request :: "request \<Rightarrow> 'w \<Rightarrow> 'w"
  conn_request_finished :: "request \<Rightarrow> int list \<Rightarrow> 'w \<Rightarrow> (bool \<times> int option) \<times> 'w"
  conn_request_finished_all_groups :: "request \<Rightarrow> int list list \<Rightarrow> 'w \<Rightarrow> (bool \<times> int option) \<times> 'w"
  conn_reset_cache :: "'w \<Rightarrow> bool option \<times> 'w"
  conn_build_connector_meta :: "scheduler_output \<Rightarrow> 'w \<Rightarrow> 'w"
  conn_has_pending_push_work :: "'w \<Rightarrow> bool"
  conn_update_connector_output :: "rid list \<Rightarrow> rid list \<Rightarrow> 'w \<Rightarrow> 'w"

text \<open>
  The request queues: \<open>q_list\<close> is the iteration order. The operations see the store because the
  priority queue compares requests by their fields.
\<close>

record 'q queue_lib =
  q_list :: "'q \<Rightarrow> rid list"
  q_empty :: 'q
  q_peek :: "'q \<Rightarrow> rid option"
  q_pop :: "(rid \<Rightarrow> request) \<Rightarrow> 'q \<Rightarrow> (rid \<times> 'q) option"
  q_add :: "(rid \<Rightarrow> request) \<Rightarrow> rid \<Rightarrow> 'q \<Rightarrow> 'q"
  q_prepend :: "(rid \<Rightarrow> request) \<Rightarrow> rid \<Rightarrow> 'q \<Rightarrow> 'q"
  q_prepend_all :: "(rid \<Rightarrow> request) \<Rightarrow> 'q \<Rightarrow> 'q \<Rightarrow> 'q"
  q_remove_all :: "(rid \<Rightarrow> request) \<Rightarrow> rid list \<Rightarrow> 'q \<Rightarrow> 'q"
  q_less :: "request \<Rightarrow> request \<Rightarrow> bool"

text \<open>
  Methods of vLLM's requests and of the structured-output manager: appending an output token,
  \<open>check_stop\<close>, \<open>update_block_hashes\<close> (which leaves the fields modelled here alone),
  \<open>take_events\<close> with \<open>take_prefill_stats\<close>, \<open>StreamingUpdate.from_request\<close>, and the grammar calls.
\<close>

record 'w req_lib =
  append_output_token_ids :: "request \<Rightarrow> int \<Rightarrow> request"
  check_stop :: "request \<Rightarrow> int \<Rightarrow> request \<times> bool"
  take_output_state :: "request \<Rightarrow> request"
  update_from_request :: "request \<Rightarrow> streaming_update option"
  so_should_advance :: "request \<Rightarrow> 'w \<Rightarrow> bool"
  so_trim_reasoning :: "request \<Rightarrow> int list \<Rightarrow> 'w \<Rightarrow> int list"
  so_accept_tokens :: "request \<Rightarrow> int list \<Rightarrow> 'w \<Rightarrow> bool \<times> 'w"
  so_validate_tokens :: "request \<Rightarrow> int list \<Rightarrow> 'w \<Rightarrow> int list"

record ('w, 'b, 'q) vllm =
  kv :: "('w, 'b) kv_lib"
  enc :: "'w enc_lib"
  conn :: "('w, 'b) conn_lib"
  que :: "'q queue_lib"
  rql :: "'w req_lib"

section \<open>State\<close>

text \<open>
  The attributes of \<open>Scheduler\<close> that change. \<open>requests\<close> is the key list of the dict of live requests,
  \<open>store\<close> the request objects; \<open>world\<close> is the state of the vLLM objects.
\<close>

record ('w, 'q) sched =
  requests :: "rid list"
  store :: "rid \<Rightarrow> request"
  waiting :: 'q
  skipped_waiting :: 'q
  running :: "rid list"
  finished_req_ids :: "rid set"
  finished_req_ids_dict :: "(int \<times> rid set) list option"
  reset_preempted_req_ids :: "rid set"
  num_waiting_for_streaming_input :: int
  finished_recving_kv_req_ids :: "rid set"
  failed_recving_kv_req_ids :: "rid set"
  inflight_prefills :: "rid set"
  prev_step_scheduled_req_ids :: "rid set"
  current_step :: int
  prefill_capacity_bound :: bool
  sched_step_seq :: int
  processed_step_seq :: int
  deferred_frees :: "(int \<times> int list) list"
  pause_state :: pause
  world :: 'w

abbreviation upd_req :: "rid \<Rightarrow> (request \<Rightarrow> request) \<Rightarrow> ('w, 'q) sched \<Rightarrow> ('w, 'q) sched" where
  "upd_req r f s \<equiv> s\<lparr>store := (store s)(r := f (store s r))\<rparr>"

abbreviation on_world :: "('w \<Rightarrow> 'w) \<Rightarrow> ('w, 'q) sched \<Rightarrow> ('w, 'q) sched" where
  "on_world f s \<equiv> s\<lparr>world := f (world s)\<rparr>"

end
