(* ===== verification/SchedBlocks.thy ===== *)
theory SchedBlocks
  imports SchedTypes
begin

text \<open>
  Giving up KV blocks: immediate and deferred frees behind a step fence, preemption, and the release
  of finished requests (\<open>_free_request_blocks\<close>, \<open>_drain_deferred_frees\<close>, \<open>_preempt_request\<close>,
  \<open>_connector_finished\<close>, \<open>_free_request\<close>, \<open>_free_blocks\<close>, and the block reservations of in-flight
  prefills).
\<close>

section \<open>Operations\<close>

definition free_request_blocks ::
  "('w, 'b, 'q) vllm \<Rightarrow> config \<Rightarrow> rid \<Rightarrow> ('w, 'q) sched \<Rightarrow> ('w, 'q) sched" where
  "free_request_blocks L cfg r s =
     (if \<not> defer_block_free cfg \<or> last_sched_seq (store s r) \<le> processed_step_seq s
      then on_world (kv_free (kv L) r) s
      else case kv_pop_blocks_for_free (kv L) r (world s) of
             (blocks, w) \<Rightarrow>
               if blocks \<noteq> []
               then s\<lparr>world := w, deferred_frees := deferred_frees s @ [(sched_step_seq s, blocks)]\<rparr>
               else s\<lparr>world := w\<rparr>)"

text \<open>The loop of \<open>_drain_deferred_frees\<close> over the FIFO; blocks go back in reverse order.\<close>

fun drain_from ::
  "(int list \<Rightarrow> 'w \<Rightarrow> 'w) \<Rightarrow> int \<Rightarrow> (int \<times> int list) list \<Rightarrow> 'w \<Rightarrow> (int \<times> int list) list \<times> 'w" where
  "drain_from free_blocks processed [] w = ([], w)"
| "drain_from free_blocks processed ((fence, blocks) # rest) w =
     (if processed < fence then ((fence, blocks) # rest, w)
      else drain_from free_blocks processed rest (free_blocks (rev blocks) w))"

definition drain_deferred_frees :: "('w, 'b, 'q) vllm \<Rightarrow> ('w, 'q) sched \<Rightarrow> ('w, 'q) sched" where
  "drain_deferred_frees L s =
     (case drain_from (kv_pool_free_blocks (kv L)) (processed_step_seq s) (deferred_frees s) (world s) of
        (pending, w) \<Rightarrow> s\<lparr>deferred_frees := pending, world := w\<rparr>)"

definition preempt_request ::
  "('w, 'b, 'q) vllm \<Rightarrow> config \<Rightarrow> rid \<Rightarrow> ('w, 'q) sched \<Rightarrow> ('w, 'q) sched res" where
  "preempt_request L cfg r s =
     bindE (assertE (status (store s r) = RUNNING)) (\<lambda>_.
     (let s1 = free_request_blocks L cfg r s;
          s2 = on_world (enc_free (enc L) (store s r)) s1;
          s3 = s2\<lparr>inflight_prefills := inflight_prefills s2 - {r}\<rparr>;
          s4 = upd_req r (\<lambda>q. q\<lparr>status := PREEMPTED, num_computed_tokens := 0, spec_token_ids := [],
                                num_preemptions := num_preemptions q + 1\<rparr>) s3
      in Inr (s4\<lparr>waiting := q_prepend (que L) (store s4) r (waiting s4),
                 reset_preempted_req_ids := insert r (reset_preempted_req_ids s4)\<rparr>)))"

definition request_remaining_blocks ::
  "('w, 'b, 'q) vllm \<Rightarrow> config \<Rightarrow> ('w, 'q) sched \<Rightarrow> rid \<Rightarrow> int" where
  "request_remaining_blocks L cfg s r =
     kv_num_blocks_to_allocate (kv L) (store s r)
       (min (num_tokens (store s r)) (max_model_len cfg)) (world s)"

definition inflight_prefill_reserved_blocks ::
  "('w, 'b, 'q) vllm \<Rightarrow> config \<Rightarrow> ('w, 'q) sched \<Rightarrow> int" where
  "inflight_prefill_reserved_blocks L cfg s =
     (\<Sum>r \<in> inflight_prefills s. request_remaining_blocks L cfg s r)"

definition connector_finished ::
  "('w, 'b, 'q) vllm \<Rightarrow> config \<Rightarrow> rid \<Rightarrow> ('w, 'q) sched \<Rightarrow> ((bool \<times> int option) \<times> ('w, 'q) sched) res" where
  "connector_finished L cfg r s =
     (if \<not> has_connector cfg then Inr ((False, None), s)
      else
        (let q = store s r;
             s1 = on_world (kv_remove_skipped_blocks (kv L) r (num_computed_tokens q) (num_prompt_tokens q)) s;
             block_ids = kv_block_ids_for_computed (kv L) r (num_computed_tokens q) (world s1)
         in if \<not> connector_supports_hma cfg then
              bindE (assertE (num_kv_cache_groups cfg = 1)) (\<lambda>_.
                case block_ids of
                  [] \<Rightarrow> Inl IndexError
                | ids # _ \<Rightarrow>
                    (case conn_request_finished (conn L) q ids (world s1) of
                       (answer, w) \<Rightarrow> Inr (answer, s1\<lparr>world := w\<rparr>)))
            else (case conn_request_finished_all_groups (conn L) q block_ids (world s1) of
                    (answer, w) \<Rightarrow> Inr (answer, s1\<lparr>world := w\<rparr>))))"

definition free_blocks :: 
  "('w, 'b, 'q) vllm \<Rightarrow> config \<Rightarrow> rid \<Rightarrow> ('w, 'q) sched \<Rightarrow> ('w, 'q) sched res" where
  "free_blocks L cfg r s =
     bindE (assertE (is_finished (status (store s r)))) (\<lambda>_.
     (let s1 = free_request_blocks L cfg r s
      in if r \<in> set (requests s1) then Inr (s1\<lparr>requests := remove1 r (requests s1)\<rparr>)
         else Inl KeyError))"

text \<open>\<open>finished_req_ids_dict[client].add(id)\<close> on a \<open>defaultdict(set)\<close>, when the dict exists.\<close>

definition add_finished_for_client ::
  "int \<Rightarrow> rid \<Rightarrow> (int \<times> rid set) list option \<Rightarrow> (int \<times> rid set) list option" where
  "add_finished_for_client c r d =
     map_option (\<lambda>d. dict_put c (insert r (case map_of d c of None \<Rightarrow> {} | Some x \<Rightarrow> x)) d) d"

definition free_request ::
  "('w, 'b, 'q) vllm \<Rightarrow> config \<Rightarrow> rid \<Rightarrow> bool \<Rightarrow> ('w, 'q) sched \<Rightarrow> (int option \<times> ('w, 'q) sched) res" where
  "free_request L cfg r delay_free_blocks s =
     bindE (assertE (is_finished (status (store s r)))) (\<lambda>_.
     bindE (connector_finished L cfg r (s\<lparr>inflight_prefills := inflight_prefills s - {r}\<rparr>))
       (\<lambda>((connector_delay, kv_xfer_params), s1).
     (let s2 = on_world (enc_free (enc L) (store s1 r)) s1;
          s3 = s2\<lparr>finished_req_ids := insert r (finished_req_ids s2),
                  finished_req_ids_dict :=
                    add_finished_for_client (client_index (store s2 r)) r (finished_req_ids_dict s2)\<rparr>
      in if delay_free_blocks \<or> connector_delay then Inr (kv_xfer_params, s3)
         else bindE (free_blocks L cfg r s3) (\<lambda>s4. Inr (kv_xfer_params, s4)))))"

section \<open>The FIFO of deferred frees\<close>

text \<open>
  Fences are appended in non-decreasing order and never exceed the sequence number of the last
  scheduled step.
\<close>

definition fences_ok :: "('w, 'q) sched \<Rightarrow> bool" where
  "fences_ok s \<longleftrightarrow> sorted (map fst (deferred_frees s)) \<and>
     (\<forall>e \<in> set (deferred_frees s). fst e \<le> sched_step_seq s)"

lemma free_request_blocks_fences:
  "fences_ok s \<Longrightarrow> fences_ok (free_request_blocks L cfg r s)"
  by (auto simp: fences_ok_def free_request_blocks_def sorted_append split: prod.splits)

lemma drain_from_spec:
  "sorted (map fst d) \<Longrightarrow>
     fst (drain_from f p d w) = filter (\<lambda>e. p < fst e) d \<and>
     snd (drain_from f p d w) = fold f (map (rev \<circ> snd) (filter (\<lambda>e. fst e \<le> p) d)) w"
proof (induction f p d w rule: drain_from.induct)
  case (2 f p fence blocks rest w)
  show ?case
  proof (cases "p < fence")
    case True
    with "2.prems" have "\<forall>e \<in> set rest. p < fst e" by auto
    with True show ?thesis by (auto simp: filter_empty_conv not_le [symmetric] not_less filter_id_conv)
  qed (use 2 in auto)
qed simp

lemma drain_fences: "fences_ok s \<Longrightarrow> fences_ok (drain_deferred_frees L s)"
  using drain_from_spec [of "deferred_frees s" "kv_pool_free_blocks (kv L)" "processed_step_seq s" "world s"]
  by (auto simp: fences_ok_def drain_deferred_frees_def sorted_wrt_filter sorted_map split: prod.splits)

section \<open>Frames\<close>

text \<open>What freeing leaves alone; the proofs about the queues need nothing else of it.\<close>

lemma free_request_blocks_frame [simp]:
  "store (free_request_blocks L cfg r s) = store s"
  "requests (free_request_blocks L cfg r s) = requests s"
  "waiting (free_request_blocks L cfg r s) = waiting s"
  "skipped_waiting (free_request_blocks L cfg r s) = skipped_waiting s"
  "running (free_request_blocks L cfg r s) = running s"
  "inflight_prefills (free_request_blocks L cfg r s) = inflight_prefills s"
  "num_waiting_for_streaming_input (free_request_blocks L cfg r s) = num_waiting_for_streaming_input s"
  "finished_req_ids (free_request_blocks L cfg r s) = finished_req_ids s"
  "reset_preempted_req_ids (free_request_blocks L cfg r s) = reset_preempted_req_ids s"
  "finished_recving_kv_req_ids (free_request_blocks L cfg r s) = finished_recving_kv_req_ids s"
  "failed_recving_kv_req_ids (free_request_blocks L cfg r s) = failed_recving_kv_req_ids s"
  "sched_step_seq (free_request_blocks L cfg r s) = sched_step_seq s"
  "processed_step_seq (free_request_blocks L cfg r s) = processed_step_seq s"
  "current_step (free_request_blocks L cfg r s) = current_step s"
  "pause_state (free_request_blocks L cfg r s) = pause_state s"
  by (simp_all add: free_request_blocks_def split: prod.splits)

lemma preempt_request_frame:
  assumes "preempt_request L cfg r s = Inr s'"
  shows "running s' = running s" "requests s' = requests s" "skipped_waiting s' = skipped_waiting s"
    "store s' = (store s)(r := (store s r)\<lparr>status := PREEMPTED, num_computed_tokens := 0, spec_token_ids := [],
                                num_preemptions := num_preemptions (store s r) + 1\<rparr>)"
    "waiting s' = q_prepend (que L) (store s') r (waiting s)"
    "inflight_prefills s' = inflight_prefills s - {r}"
    "num_waiting_for_streaming_input s' = num_waiting_for_streaming_input s"
    "pause_state s' = pause_state s" "sched_step_seq s' = sched_step_seq s"
    "processed_step_seq s' = processed_step_seq s"
    "finished_req_ids s' = finished_req_ids s"
    "status (store s r) = RUNNING"
  using assms by (auto simp: preempt_request_def Let_def exc_simps)

lemma connector_finished_frame:
  assumes "connector_finished L cfg r s = Inr (a, s')"
  shows "\<exists>w. s' = s\<lparr>world := w\<rparr>"
  using assms
  by (auto simp: connector_finished_def Let_def exc_simps split: if_splits prod.splits list.splits
      intro: exI [of _ "world s'"])

end
