(* ===== verification/SchedQueues.thy ===== *)
theory SchedQueues
  imports SchedBlocks
begin

text \<open>
  Entering and leaving the queues: \<open>add_request\<close>, streaming sessions, promotion of blocked requests,
  \<open>finish_requests\<close>, the pause states and the counts.
\<close>

section \<open>Queues\<close>

fun is_blocked_waiting_status :: "request_status \<Rightarrow> bool" where
  "is_blocked_waiting_status WAITING_FOR_STRUCTURED_OUTPUT_GRAMMAR = True"
| "is_blocked_waiting_status WAITING_FOR_REMOTE_KVS = True"
| "is_blocked_waiting_status WAITING_FOR_STREAMING_REQ = True"
| "is_blocked_waiting_status _ = False"

definition enqueue_waiting_request ::
  "('w, 'b, 'q) vllm \<Rightarrow> rid \<Rightarrow> ('w, 'q) sched \<Rightarrow> ('w, 'q) sched" where
  "enqueue_waiting_request L r s =
     (if is_blocked_waiting_status (status (store s r))
      then s\<lparr>skipped_waiting := q_add (que L) (store s) r (skipped_waiting s)\<rparr>
      else s\<lparr>waiting := q_add (que L) (store s) r (waiting s)\<rparr>)"

text \<open>Which queue to take from: \<open>Some True\<close> is \<open>skipped_waiting\<close>, \<open>Some False\<close> is \<open>waiting\<close>.\<close>

definition q_truthy :: "('w, 'b, 'q) vllm \<Rightarrow> 'q \<Rightarrow> bool" where
  "q_truthy L q \<longleftrightarrow> q_list (que L) q \<noteq> []"

definition select_waiting_queue ::
  "('w, 'b, 'q) vllm \<Rightarrow> config \<Rightarrow> ('w, 'q) sched \<Rightarrow> bool option res" where
  "select_waiting_queue L cfg s =
     (let w = q_truthy L (waiting s); k = q_truthy L (skipped_waiting s) in
      if policy cfg = FCFS then
        Inr (if k then Some True else if w then Some False else None)
      else if w \<and> k then
        (case (q_peek (que L) (waiting s), q_peek (que L) (skipped_waiting s)) of
           (Some a, Some b) \<Rightarrow> Inr (Some (\<not> q_less (que L) (store s a) (store s b)))
         | _ \<Rightarrow> Inl IndexError)
      else Inr (if w then Some False else if k then Some True else None))"

section \<open>Streaming sessions\<close>

text \<open>\<open>xs[i:j]\<close> and \<open>del xs[i:]\<close> for indices that may be negative.\<close>

definition py_index :: "'a list \<Rightarrow> int \<Rightarrow> nat" where
  "py_index xs i = (if i < 0 then nat (int (length xs) + i) else min (nat i) (length xs))"

definition py_slice :: "'a list \<Rightarrow> int \<Rightarrow> int \<Rightarrow> 'a list" where
  "py_slice xs i j = drop (py_index xs i) (take (py_index xs j) xs)"

definition py_upto :: "'a list \<Rightarrow> int \<Rightarrow> 'a list" where
  "py_upto xs i = take (py_index xs i) xs"

definition shift_features :: "int \<Rightarrow> mm_feature list \<Rightarrow> mm_feature list" where
  "shift_features base fs = map (\<lambda>f. f\<lparr>mm_offset := mm_offset f + base\<rparr>) fs"

text \<open>The request as \<open>_update_request_as_session\<close> leaves it.\<close>

definition session_after :: "request \<Rightarrow> streaming_update \<Rightarrow> request" where
  "session_after q u =
     (let nc = num_computed_tokens q;
          kept_output_tokens = py_slice (all_token_ids q) (num_prompt_tokens q) nc;
          all_tokens = py_upto (all_token_ids q) nc;
          prompt = prompt_token_ids q @ kept_output_tokens;
          base = int (length all_tokens);
          prompt' = prompt @ up_prompt_token_ids u
      in q\<lparr>all_token_ids := all_tokens @ up_prompt_token_ids u,
           output_token_ids := [],
           prompt_token_ids := prompt',
           mm_features := mm_features q @ shift_features base (up_mm_features u),
           num_prompt_tokens := int (length prompt'),
           arrival_time := up_arrival_time u,
           sampling_params := up_sampling_params u,
           status := WAITING\<rparr>)"

definition update_request_as_session ::
  "rid \<Rightarrow> streaming_update \<Rightarrow> ('w, 'q) sched \<Rightarrow> ('w, 'q) sched" where
  "update_request_as_session r u s =
     upd_req r (\<lambda>q. session_after q u)
       (s\<lparr>num_waiting_for_streaming_input :=
            num_waiting_for_streaming_input s
              - (if status (store s r) = WAITING_FOR_STREAMING_REQ then 1 else 0)\<rparr>)"

text \<open>\<open>_handle_stopped_request\<close>: \<open>True\<close> if the request is finished.\<close>

definition handle_stopped_request ::
  "('w, 'b, 'q) vllm \<Rightarrow> rid \<Rightarrow> ('w, 'q) sched \<Rightarrow> bool \<times> ('w, 'q) sched" where
  "handle_stopped_request L r s =
     (if \<not> resumable (store s r) then (True, s)
      else case streaming_queue (store s r) of
        Some (None # updates) \<Rightarrow>
          (True, upd_req r (\<lambda>q. q\<lparr>streaming_queue := Some updates\<rparr>) s)
      | Some (Some u # updates) \<Rightarrow>
          (False, enqueue_waiting_request L r
             (update_request_as_session r u (upd_req r (\<lambda>q. q\<lparr>streaming_queue := Some updates\<rparr>) s)))
      | _ \<Rightarrow>
          (let s1 = upd_req r (\<lambda>q. q\<lparr>status := WAITING_FOR_STREAMING_REQ\<rparr>) s
           in (False, enqueue_waiting_request L r
                 (s1\<lparr>num_waiting_for_streaming_input := num_waiting_for_streaming_input s1 + 1\<rparr>))))"

section \<open>Finishing requests\<close>

text \<open>
  The first pass of \<open>finish_requests\<close>: the valid requests, in the order of the ids, and how many of
  them wait for streaming input.
\<close>

definition finishable :: "('w, 'q) sched \<Rightarrow> rid list \<Rightarrow> rid list" where
  "finishable s ids = filter (\<lambda>r. r \<in> set (requests s) \<and> \<not> is_finished (status (store s r))) ids"

definition unqueue :: "('w, 'b, 'q) vllm \<Rightarrow> rid list \<Rightarrow> ('w, 'q) sched \<Rightarrow> ('w, 'q) sched" where
  "unqueue L valid s =
     (let run_remove = filter (\<lambda>r. status (store s r) = RUNNING) valid;
          wait_remove = filter (\<lambda>r. status (store s r) \<noteq> RUNNING) valid;
          streaming = filter (\<lambda>r. status (store s r) = WAITING_FOR_STREAMING_REQ) wait_remove;
          s1 = s\<lparr>num_waiting_for_streaming_input :=
                   num_waiting_for_streaming_input s - int (length streaming)\<rparr>;
          s2 = (if run_remove \<noteq> []
                then s1\<lparr>running := filter (\<lambda>r. r \<notin> set run_remove) (running s1)\<rparr> else s1)
      in if wait_remove \<noteq> []
         then s2\<lparr>waiting := q_remove_all (que L) (store s2) wait_remove (waiting s2),
                 skipped_waiting := q_remove_all (que L) (store s2) wait_remove (skipped_waiting s2)\<rparr>
         else s2)"

text \<open>The second pass.\<close>

definition finish_one ::
  "('w, 'b, 'q) vllm \<Rightarrow> config \<Rightarrow> request_status \<Rightarrow> rid \<Rightarrow> ('w, 'q) sched \<Rightarrow> ('w, 'q) sched res" where
  "finish_one L cfg finished_status r s =
     (let remote = (status (store s r) = WAITING_FOR_REMOTE_KVS);
          delay = (remote \<and> r \<notin> finished_recving_kv_req_ids s);
          s1 = (if remote
                then s\<lparr>finished_recving_kv_req_ids := finished_recving_kv_req_ids s - {r},
                       failed_recving_kv_req_ids := failed_recving_kv_req_ids s - {r}\<rparr> else s)
      in bindE (free_request L cfg r delay (upd_req r (\<lambda>q. q\<lparr>status := finished_status\<rparr>) s1))
           (\<lambda>(_, s2). Inr s2))"

fun finish_each ::
  "('w, 'b, 'q) vllm \<Rightarrow> config \<Rightarrow> request_status \<Rightarrow> rid list \<Rightarrow> ('w, 'q) sched \<Rightarrow> ('w, 'q) sched res" where
  "finish_each L cfg st [] s = Inr s"
| "finish_each L cfg st (r # rs) s = bindE (finish_one L cfg st r s) (finish_each L cfg st rs)"

text \<open>
  \<open>ids\<close> lists the requested ids without duplicates (\<open>set(request_ids)\<close>, in some order), or is
  \<open>None\<close> for all requests.
\<close>

definition finish_requests ::
  "('w, 'b, 'q) vllm \<Rightarrow> config \<Rightarrow> rid list option \<Rightarrow> request_status \<Rightarrow> ('w, 'q) sched \<Rightarrow>
   ((rid \<times> int) list \<times> ('w, 'q) sched) res" where
  "finish_requests L cfg ids finished_status s =
     bindE (assertE (is_finished finished_status)) (\<lambda>_.
     (let valid = finishable s (case ids of None \<Rightarrow> requests s | Some rs \<Rightarrow> remdups rs)
      in bindE (finish_each L cfg finished_status valid (unqueue L valid s)) (\<lambda>s'.
           Inr (map (\<lambda>r. (r, client_index (store s' r))) valid, s'))))"

section \<open>Adding requests\<close>

definition add_request ::
  "('w, 'b, 'q) vllm \<Rightarrow> config \<Rightarrow> request \<Rightarrow> ('w, 'q) sched \<Rightarrow> ('w, 'q) sched res" where
  "add_request L cfg req s =
     (let r = request_id req in
      if r \<in> set (requests s) then
        (let update = update_from_request (rql L) req in
         if status (store s r) \<noteq> WAITING_FOR_STREAMING_REQ then
           (case streaming_queue (store s r) of
              None \<Rightarrow> Inl AssertionError
            | Some us \<Rightarrow> Inr (upd_req r (\<lambda>q. q\<lparr>streaming_queue := Some (us @ [update])\<rparr>) s))
         else (case update of
                 Some u \<Rightarrow> Inr (update_request_as_session r u s)
               | None \<Rightarrow> bindE (finish_requests L cfg (Some [r]) FINISHED_ABORTED s) (\<lambda>(_, s'). Inr s')))
      else
        (let req' = (if resumable req then req\<lparr>streaming_queue := Some []\<rparr> else req);
             s1 = enqueue_waiting_request L r (s\<lparr>store := (store s)(r := req')\<rparr>);
             s2 = s1\<lparr>requests := requests s1 @ [r]\<rparr>
         in Inr (if has_connector cfg then on_world (conn_on_new_request (conn L) (store s2 r)) s2 else s2)))"

section \<open>Promotion\<close>

definition update_waiting_for_remote_kv ::
  "('w, 'b, 'q) vllm \<Rightarrow> config \<Rightarrow> rid \<Rightarrow> ('w, 'q) sched \<Rightarrow> ('w, 'q) sched res" where
  "update_waiting_for_remote_kv L cfg r s =
     bindE (assertE (has_connector cfg)) (\<lambda>_.
     (let q = store s r;
          s1 = (if r \<in> failed_recving_kv_req_ids s then
                  (if num_computed_tokens q \<noteq> 0
                   then on_world (kv_cache_blocks (kv L) r (num_computed_tokens q)) s
                   else on_world (kv_free (kv L) r) s)
                    \<lparr>failed_recving_kv_req_ids := failed_recving_kv_req_ids s - {r}\<rparr>
                else
                  (let s0 = on_world (kv_cache_blocks (kv L) r (num_computed_tokens q)) s
                   in if num_computed_tokens q = num_tokens q
                      then upd_req r (\<lambda>q. q\<lparr>num_computed_tokens := num_tokens q - 1\<rparr>) s0 else s0))
      in if r \<in> finished_recving_kv_req_ids s1
         then Inr (s1\<lparr>finished_recving_kv_req_ids := finished_recving_kv_req_ids s1 - {r}\<rparr>)
         else Inl KeyError))"

definition try_promote_blocked_waiting_request ::
  "('w, 'b, 'q) vllm \<Rightarrow> config \<Rightarrow> rid \<Rightarrow> ('w, 'q) sched \<Rightarrow> (bool \<times> ('w, 'q) sched) res" where
  "try_promote_blocked_waiting_request L cfg r s =
     (case status (store s r) of
        WAITING_FOR_REMOTE_KVS \<Rightarrow>
          if r \<notin> finished_recving_kv_req_ids s then Inr (False, s)
          else bindE (update_waiting_for_remote_kv L cfg r s) (\<lambda>s1.
                 Inr (True, upd_req r (\<lambda>q. q\<lparr>status :=
                        (if num_preemptions q \<noteq> 0 then PREEMPTED else WAITING)\<rparr>) s1))
      | WAITING_FOR_STRUCTURED_OUTPUT_GRAMMAR \<Rightarrow>
          if \<not> has_grammar (store s r) then Inr (False, s)
          else Inr (True, upd_req r (\<lambda>q. q\<lparr>status := WAITING\<rparr>) s)
      | WAITING_FOR_STREAMING_REQ \<Rightarrow>
          bindE (assertE (streaming_queue (store s r) \<in> {None, Some []})) (\<lambda>_. Inr (False, s))
      | _ \<Rightarrow> Inl AssertionError)"

section \<open>Counts, pausing and resets\<close>

definition set_pause_state :: "pause \<Rightarrow> ('w, 'q) sched \<Rightarrow> ('w, 'q) sched" where
  "set_pause_state p s = s\<lparr>pause_state := p\<rparr>"

definition q_count :: "('w, 'b, 'q) vllm \<Rightarrow> 'q \<Rightarrow> int" where
  "q_count L q = int (length (q_list (que L) q))"

definition get_request_counts :: "('w, 'b, 'q) vllm \<Rightarrow> ('w, 'q) sched \<Rightarrow> int \<times> int" where
  "get_request_counts L s =
     (int (length (running s)), q_count L (waiting s) + q_count L (skipped_waiting s))"

definition get_num_unfinished_requests :: "('w, 'b, 'q) vllm \<Rightarrow> ('w, 'q) sched \<Rightarrow> int" where
  "get_num_unfinished_requests L s =
     (case pause_state s of
        PAUSED_ALL \<Rightarrow> 0
      | PAUSED_NEW \<Rightarrow> int (length (running s))
      | UNPAUSED \<Rightarrow>
          q_count L (waiting s) + q_count L (skipped_waiting s) - num_waiting_for_streaming_input s
            + int (length (running s)))"

definition has_finished_requests ::
  "('w, 'b, 'q) vllm \<Rightarrow> config \<Rightarrow> ('w, 'q) sched \<Rightarrow> bool" where
  "has_finished_requests L cfg s =
     (if finished_req_ids s \<noteq> {} then True
      else if \<not> has_connector cfg then False
      else q_count L (waiting s) + q_count L (skipped_waiting s) + int (length (running s))
             < int (length (requests s)))"

text \<open>\<open>has_unfinished_requests\<close> of the interface is \<open>get_num_unfinished_requests() > 0\<close>.\<close>

definition has_requests :: "('w, 'b, 'q) vllm \<Rightarrow> config \<Rightarrow> ('w, 'q) sched \<Rightarrow> bool" where
  "has_requests L cfg s \<longleftrightarrow>
     0 < get_num_unfinished_requests L s \<or> has_finished_requests L cfg s \<or>
     (has_connector cfg \<and> conn_has_pending_push_work (conn L) (world s))"

text \<open>
  The loop of \<open>reset_prefix_cache\<close> that preempts every running request, from the back.
\<close>

function preempt_all ::
  "('w, 'b, 'q) vllm \<Rightarrow> config \<Rightarrow> nat \<Rightarrow> ('w, 'q) sched \<Rightarrow> ('w, 'q) sched res" where
  "preempt_all L cfg n s =
     (if running s = [] \<or> n = 0 then Inr s
      else bindE (preempt_request L cfg (last (running s)) (s\<lparr>running := butlast (running s)\<rparr>)) (\<lambda>s1.
             preempt_all L cfg (n - 1)
               (upd_req (last (running s))
                  (\<lambda>q. q\<lparr>async_tokens_to_discard := num_output_placeholders q,
                         num_output_placeholders := 0\<rparr>) s1)))"
  by pat_completeness auto
termination
  by (relation "measure (\<lambda>(L, cfg, n, s). n)") auto

declare preempt_all.simps [simp del]

definition reset_connector_cache ::
  "('w, 'b, 'q) vllm \<Rightarrow> config \<Rightarrow> ('w, 'q) sched \<Rightarrow> bool \<times> ('w, 'q) sched" where
  "reset_connector_cache L cfg s =
     (if \<not> has_connector cfg then (True, s)
      else case conn_reset_cache (conn L) (world s) of
             (answer, w) \<Rightarrow> (answer \<noteq> Some False, s\<lparr>world := w\<rparr>))"

definition reset_prefix_cache ::
  "('w, 'b, 'q) vllm \<Rightarrow> config \<Rightarrow> bool \<Rightarrow> bool \<Rightarrow> ('w, 'q) sched \<Rightarrow> (bool \<times> ('w, 'q) sched) res" where
  "reset_prefix_cache L cfg reset_running_requests reset_connector s =
     bindE (if reset_running_requests
            then bindE (preempt_all L cfg (length (running s)) s)
                   (\<lambda>s1. Inr (s1\<lparr>prev_step_scheduled_req_ids := {}\<rparr>))
            else Inr s) (\<lambda>s1.
     (case kv_reset_prefix_cache (kv L) (world s1) of
        (ok, w) \<Rightarrow>
          (let s2 = s1\<lparr>world := w\<rparr> in
           if reset_running_requests \<and> \<not> ok then Inl RuntimeError
           else if reset_connector then
             (case reset_connector_cache L cfg s2 of (c, s3) \<Rightarrow> Inr (c \<and> ok, s3))
           else Inr (ok, s2))))"

end
