(* ===== verification/SchedAlign.thy ===== *)
theory SchedAlign
  imports SchedTypes
begin

text \<open>
  How many tokens a request gets in a step: \<open>_mamba_block_aligned_split\<close> and
  \<open>_try_schedule_encoder_inputs\<close>, with the bounds the scheduling loops rely on.
\<close>

section \<open>Block-aligned prefill for Mamba layers\<close>

definition mamba_block_aligned_split ::
  "config \<Rightarrow> request \<Rightarrow> int \<Rightarrow> int \<Rightarrow> int \<Rightarrow> int \<Rightarrow> int" where
  "mamba_block_aligned_split cfg req num_new_tokens local external num_uncached =
     (let computed = num_computed_tokens req + local + external in
      if computed < max (num_prompt_tokens req) (num_tokens req - 1) then
        (let bs = cache_block_size cfg;
             last0 = num_tokens req - num_tokens req mod bs;
             last_cache_position = (if use_eagle cfg then max (last0 - bs) 0 else last0);
             after_sched = computed + num_new_tokens;
             n = (if after_sched < last_cache_position then num_new_tokens div bs * bs
                  else if computed < last_cache_position \<and> last_cache_position < after_sched
                  then last_cache_position - computed
                  else num_new_tokens)
         in if bs \<le> num_uncached \<and> num_uncached < n then num_uncached div bs * bs else n)
      else num_new_tokens)"

lemma div_mult_le: "(0::int) < b \<Longrightarrow> n div b * b \<le> n"
  using div_mult_mod_eq [of n b] pos_mod_sign [of b n] by linarith

lemma mamba_split_le:
  "0 < cache_block_size cfg \<Longrightarrow> mamba_block_aligned_split cfg req n l e u \<le> n"
  using div_mult_le [of "cache_block_size cfg" n] div_mult_le [of "cache_block_size cfg" u]
  by (auto simp: mamba_block_aligned_split_def Let_def)

lemma mamba_split_nonneg:
  "0 < cache_block_size cfg \<Longrightarrow> 0 \<le> n \<Longrightarrow> 0 \<le> mamba_block_aligned_split cfg req n l e u"
  by (auto simp: mamba_block_aligned_split_def Let_def pos_imp_zdiv_nonneg_iff)

section \<open>Encoder inputs\<close>

text \<open>The local variables of the loop over the multimodal items.\<close>

record enc_acc =
  ea_inputs :: "nat list"
  ea_num_new_tokens :: int
  ea_budget :: int
  ea_external :: "nat list"
  ea_hashes :: "string list"
  ea_embeds :: int

text \<open>One item; the flag says that the loop breaks.\<close>

definition encoder_item ::
  "('w, 'b, 'q) vllm \<Rightarrow> config \<Rightarrow> request \<Rightarrow> int \<Rightarrow> int \<Rightarrow> nat \<Rightarrow> enc_acc \<times> 'w \<Rightarrow>
   (bool \<times> enc_acc \<times> 'w) res" where
  "encoder_item L cfg req computed shift i = (\<lambda>(acc, w).
     (let f = mm_features req ! i;
          start_pos = mm_offset f;
          n = ea_num_new_tokens acc
      in
      if \<not> i < length (mm_features req) then Inl IndexError
      else if is_encoder_decoder cfg \<and> 0 < computed then
        bindE (assertE (start_pos = 0)) (\<lambda>_. Inr (False, acc, w))
      else if \<not> is_encoder_decoder cfg \<and> mm_identifier f \<in> set (ea_hashes acc) then Inr (False, acc, w)
      else
        (let (cached, w1) = (if is_encoder_decoder cfg then (False, w)
                             else enc_check_and_update_cache (enc L) req i w)
         in
         if cached then Inr (False, acc, w1)
         else if disable_chunked_mm_input cfg \<and> computed < start_pos \<and> computed + n < start_pos + mm_length f
         then Inr (True, acc\<lparr>ea_num_new_tokens := max 0 (start_pos - (computed + shift))\<rparr>, w1)
         else
           (let (fits, w2) = enc_can_allocate (enc L) req i (ea_budget acc) (ea_embeds acc) w1
            in
            if \<not> fits then
              Inr (True, acc\<lparr>ea_num_new_tokens :=
                     (if computed + shift < start_pos then start_pos - (computed + shift) else 0)\<rparr>, w2)
            else
              (case mm_embeds_in_range (enc L) f (max 0 (computed - start_pos))
                      (min (mm_length f) (computed + n - start_pos)) of
                 (curr_start, curr_end) \<Rightarrow>
                   if curr_end - curr_start = 0 then Inr (False, acc, w2)
                   else if has_ec_connector cfg \<and> ec_has_cache_item (enc L) (mm_identifier f) w2 then
                     Inr (False, acc\<lparr>ea_hashes := mm_identifier f # ea_hashes acc,
                                    ea_external := ea_external acc @ [i],
                                    ea_embeds := ea_embeds acc + mm_embeds f\<rparr>, w2)
                   else
                     Inr (False, acc\<lparr>ea_embeds := ea_embeds acc + mm_embeds f,
                                    ea_budget := ea_budget acc - mm_embeds f,
                                    ea_hashes := mm_identifier f # ea_hashes acc,
                                    ea_inputs := ea_inputs acc @ [i]\<rparr>, w2))))))"

fun encoder_items ::
  "('w, 'b, 'q) vllm \<Rightarrow> config \<Rightarrow> request \<Rightarrow> int \<Rightarrow> int \<Rightarrow> nat list \<Rightarrow> enc_acc \<times> 'w \<Rightarrow>
   (enc_acc \<times> 'w) res" where
  "encoder_items L cfg req computed shift [] st = Inr st"
| "encoder_items L cfg req computed shift (i # rest) st =
     bindE (encoder_item L cfg req computed shift i st) (\<lambda>(stop, st').
       if stop then Inr st' else encoder_items L cfg req computed shift rest st')"

text \<open>
  The result: inputs to schedule, number of new tokens, remaining budget, inputs to load externally.
\<close>

definition try_schedule_encoder_inputs ::
  "('w, 'b, 'q) vllm \<Rightarrow> config \<Rightarrow> request \<Rightarrow> int \<Rightarrow> int \<Rightarrow> int \<Rightarrow> int \<Rightarrow> 'w \<Rightarrow>
   ((nat list \<times> int \<times> int \<times> nat list) \<times> 'w) res" where
  "try_schedule_encoder_inputs L cfg req computed num_new_tokens budget shift w =
     (if num_new_tokens = 0 \<or> \<not> has_encoder_inputs req then Inr (([], num_new_tokens, budget, []), w)
      else
        (let (lo0, hi) = mm_features_in_window (enc L) (mm_features req) computed
                           (computed + num_new_tokens + shift);
             lo = (if is_encoder_decoder cfg then 0 else lo0)
         in bindE (encoder_items L cfg req computed shift [lo..<hi]
                     (\<lparr>ea_inputs = [], ea_num_new_tokens = num_new_tokens, ea_budget = budget,
                        ea_external = [], ea_hashes = [], ea_embeds = 0\<rparr>, w))
              (\<lambda>(acc, w'). Inr ((ea_inputs acc, ea_num_new_tokens acc, ea_budget acc, ea_external acc), w'))))"

text \<open>
  What the scheduler relies on of \<open>get_mm_features_in_window\<close>: every item it names starts before the
  end of the window.
\<close>

definition window_ok :: "('w, 'b, 'q) vllm \<Rightarrow> bool" where
  "window_ok L \<longleftrightarrow> (\<forall>fs a b i. i < snd (mm_features_in_window (enc L) fs a b) \<longrightarrow>
      i < length fs \<and> mm_offset (fs ! i) < b)"

text \<open>What an item never does: raise the number of tokens, or drop below zero.\<close>

lemma encoder_item_tokens:
  assumes "encoder_item L cfg req computed shift i (acc, w) = Inr (stop, acc', w')"
    and "mm_offset (mm_features req ! i) < computed + n0 + shift"
    and "ea_num_new_tokens acc = n0"
  shows "ea_num_new_tokens acc' \<le> max 0 n0 \<and> (0 \<le> n0 \<longrightarrow> 0 \<le> ea_num_new_tokens acc') \<and>
     (\<not> stop \<longrightarrow> ea_num_new_tokens acc' = n0)"
  using assms
  by (auto simp: encoder_item_def Let_def exc_simps split: if_splits prod.splits)

lemma encoder_items_tokens:
  assumes "encoder_items L cfg req computed shift is (acc, w) = Inr (acc', w')"
    and "\<forall>i \<in> set is. mm_offset (mm_features req ! i) < computed + n0 + shift"
    and "ea_num_new_tokens acc = n0"
  shows "ea_num_new_tokens acc' \<le> max 0 n0 \<and> (0 \<le> n0 \<longrightarrow> 0 \<le> ea_num_new_tokens acc')"
  using assms
proof (induction "is" arbitrary: acc w)
  case (Cons i is')
  from Cons.prems(1) obtain stop a1 w1 where
    e: "encoder_item L cfg req computed shift i (acc, w) = Inr (stop, a1, w1)"
    and k: "(if stop then Inr (a1, w1) else encoder_items L cfg req computed shift is' (a1, w1)) = Inr (acc', w')"
    by (auto simp: exc_simps)
  from encoder_item_tokens [OF e _ Cons.prems(3)] Cons.prems(2)
  have t: "ea_num_new_tokens a1 \<le> max 0 n0 \<and> (0 \<le> n0 \<longrightarrow> 0 \<le> ea_num_new_tokens a1)"
    "\<not> stop \<longrightarrow> ea_num_new_tokens a1 = n0" by auto
  show ?case
  proof (cases stop)
    case True with k t show ?thesis by simp
  next
    case False
    with k t(2) Cons.prems(2) show ?thesis by (intro Cons.IH [of a1 w1]) (simp_all add: Cons.prems)
  qed
qed simp

lemma encoder_inputs_tokens:
  assumes "try_schedule_encoder_inputs L cfg req computed n budget shift w = Inr ((ins, n', budget', ext), w')"
    and "window_ok L"
  shows "n' \<le> max 0 n \<and> (0 \<le> n \<longrightarrow> 0 \<le> n')"
proof (cases "n = 0 \<or> \<not> has_encoder_inputs req")
  case True
  with assms show ?thesis by (auto simp: try_schedule_encoder_inputs_def)
next
  case False
  obtain lo0 hi where h: "mm_features_in_window (enc L) (mm_features req) computed (computed + n + shift) = (lo0, hi)"
    by fastforce
  have o: "\<forall>i \<in> set [lo..<hi]. mm_offset (mm_features req ! i) < computed + n + shift" for lo
    using assms(2) h unfolding window_ok_def by (metis atLeastLessThan_iff atLeastLessThan_upt snd_conv)
  from assms(1) False h obtain acc where
    "encoder_items L cfg req computed shift [(if is_encoder_decoder cfg then 0 else lo0)..<hi]
       (\<lparr>ea_inputs = [], ea_num_new_tokens = n, ea_budget = budget,
                        ea_external = [], ea_hashes = [], ea_embeds = 0\<rparr>, w) = Inr (acc, w')"
    "n' = ea_num_new_tokens acc"
    by (auto simp: try_schedule_encoder_inputs_def exc_simps)
  with encoder_items_tokens [OF this(1) o] show ?thesis by simp
qed

text \<open>The accounting of the embedding budget over the items that are encoded in this step.\<close>

definition embeds_of :: "request \<Rightarrow> nat list \<Rightarrow> int" where
  "embeds_of req is = sum_list (map (\<lambda>i. mm_embeds (mm_features req ! i)) is)"

lemma encoder_item_budget:
  assumes "encoder_item L cfg req computed shift i (acc, w) = Inr (stop, acc', w')"
  shows "ea_budget acc' + embeds_of req (ea_inputs acc') = ea_budget acc + embeds_of req (ea_inputs acc) \<and>
     ea_embeds acc' - embeds_of req (ea_inputs acc') - embeds_of req (ea_external acc') =
       ea_embeds acc - embeds_of req (ea_inputs acc) - embeds_of req (ea_external acc) \<and>
     (\<forall>j \<in> set (ea_inputs acc') \<union> set (ea_external acc').
        j = i \<or> j \<in> set (ea_inputs acc) \<union> set (ea_external acc))"
  using assms
  by (auto simp: encoder_item_def Let_def exc_simps embeds_of_def split: if_splits prod.splits)

text \<open>An item is scheduled only where \<open>can_allocate\<close> said it fits in the budget that was left.\<close>

definition fits_ok :: "('w, 'b, 'q) vllm \<Rightarrow> bool" where
  "fits_ok L \<longleftrightarrow> (\<forall>req i budget embeds w. fst (enc_can_allocate (enc L) req i budget embeds w) \<longrightarrow>
      mm_embeds (mm_features req ! i) \<le> budget)"

lemma encoder_item_budget_nonneg:
  assumes "encoder_item L cfg req computed shift i (acc, w) = Inr (stop, acc', w')"
    and "fits_ok L" and "0 \<le> ea_budget acc"
  shows "0 \<le> ea_budget acc'"
  using assms(1,3)
proof -
  have "mm_embeds (mm_features req ! i) \<le> budget"
    if "enc_can_allocate (enc L) req i budget embeds w = (True, w')" for budget embeds w w'
    using assms(2) that unfolding fits_ok_def by (metis fst_conv)
  with assms(1,3) show ?thesis
    by (auto simp: encoder_item_def Let_def exc_simps split: if_splits prod.splits)
qed

lemma encoder_items_budget:
  assumes "encoder_items L cfg req computed shift is (acc, w) = Inr (acc', w')"
    and "fits_ok L" and "0 \<le> ea_budget acc"
  shows "0 \<le> ea_budget acc' \<and>
     ea_budget acc' + embeds_of req (ea_inputs acc') = ea_budget acc + embeds_of req (ea_inputs acc)"
  using assms
proof (induction "is" arbitrary: acc w)
  case (Cons i is')
  from Cons.prems(1) obtain stop a1 w1 where
    e: "encoder_item L cfg req computed shift i (acc, w) = Inr (stop, a1, w1)"
    and k: "(if stop then Inr (a1, w1) else encoder_items L cfg req computed shift is' (a1, w1)) = Inr (acc', w')"
    by (auto simp: exc_simps)
  note b = encoder_item_budget [OF e] encoder_item_budget_nonneg [OF e Cons.prems(2,3)]
  show ?case
  proof (cases stop)
    case True with k b show ?thesis by simp
  next
    case False
    with Cons.IH [of a1 w1] k b Cons.prems(2) show ?thesis by simp
  qed
qed simp

end
