(* ===== verification/SchedRun.thy ===== *)
theory SchedRun
  imports SchedQueues SchedAlign
begin

text \<open>
  The first half of \<open>schedule\<close>: the loop over \<open>running\<close> with its preemptions. The local variables of
  \<open>schedule\<close> are the record \<open>step\<close>.
\<close>

section \<open>The local variables of a step\<close>

record 'b step =
  token_budget :: int
  encoder_compute_budget :: int
  scheduled_new_reqs :: "rid list"
  scheduled_resumed_reqs :: "rid list"
  scheduled_running_reqs :: "rid list"
  preempted_reqs :: "rid list"
  req_to_new_blocks :: "(rid \<times> 'b) list"
  num_scheduled_tokens :: "(rid \<times> int) list"
  scheduled_encoder_inputs :: "(rid \<times> nat list) list"
  scheduled_spec_decode_tokens :: "(rid \<times> int list) list"
  prefill_scheduled :: bool
  scheduled_loras :: "int set"

section \<open>One running request\<close>

definition reached_max_tokens :: "request \<Rightarrow> bool" where
  "reached_max_tokens q \<longleftrightarrow>
     0 < num_output_placeholders q \<and>
     num_prompt_tokens q + max_tokens q \<le> num_computed_tokens q + 2 - num_output_placeholders q"

definition skip_running :: "bool \<Rightarrow> int \<Rightarrow> request \<Rightarrow> bool" where
  "skip_running defer_prefills step_no q \<longleftrightarrow>
     reached_max_tokens q \<or> step_no < next_decode_eligible_step q \<or> (defer_prefills \<and> is_prefill_chunk q)"

text \<open>The tokens the budget, the long-prefill threshold and the model length leave to a request.\<close>

definition running_tokens :: "config \<Rightarrow> int \<Rightarrow> request \<Rightarrow> int" where
  "running_tokens cfg budget q =
     (let n = num_tokens_with_spec q + num_output_placeholders q - num_computed_tokens q;
          n1 = (if 0 < long_prefill_token_threshold cfg \<and> long_prefill_token_threshold cfg < n
                then long_prefill_token_threshold cfg else n)
      in min (min n1 budget) (max_model_len cfg - num_computed_tokens q - num_sampled_tokens_per_step cfg))"

definition plan_running ::
  "('w, 'b, 'q) vllm \<Rightarrow> config \<Rightarrow> rid \<Rightarrow> ('w, 'q) sched \<Rightarrow> 'b step \<Rightarrow>
   ((nat list \<times> int \<times> int \<times> nat list) \<times> ('w, 'q) sched) res" where
  "plan_running L cfg r s loc =
     (let q = store s r; n = running_tokens cfg (token_budget loc) q in
      bindE (if has_encoder_inputs q
             then try_schedule_encoder_inputs L cfg q (num_computed_tokens q) n
                    (encoder_compute_budget loc) (if use_eagle cfg then 1 else 0) (world s)
             else Inr (([], n, encoder_compute_budget loc, []), world s))
        (\<lambda>((ins, n1, b1, ext), w).
           Inr ((ins, (if need_mamba_block_aligned_split cfg then mamba_block_aligned_split cfg q n1 0 0 0 else n1),
                 b1, ext), s\<lparr>world := w\<rparr>)))"

section \<open>Preemption\<close>

text \<open>\<open>max(xs, key=...)\<close>: the first of the maximal elements; the key is (priority, arrival time).\<close>

definition key_less :: "request \<Rightarrow> request \<Rightarrow> bool" where
  "key_less a b \<longleftrightarrow> priority a < priority b \<or> (priority a = priority b \<and> arrival_time a < arrival_time b)"

fun py_max_from :: "(rid \<Rightarrow> request) \<Rightarrow> rid \<Rightarrow> rid list \<Rightarrow> rid" where
  "py_max_from st best [] = best"
| "py_max_from st best (r # rs) = py_max_from st (if key_less (st best) (st r) then r else best) rs"

definition victim_of :: "config \<Rightarrow> ('w, 'q) sched \<Rightarrow> rid" where
  "victim_of cfg s =
     (if policy cfg = PRIORITY then py_max_from (store s) (hd (running s)) (tl (running s))
      else last (running s))"

text \<open>Taking back what a victim was given earlier in this step.\<close>

definition unschedule :: "request \<Rightarrow> rid \<Rightarrow> 'b step \<Rightarrow> 'b step" where
  "unschedule q v loc =
     loc\<lparr>scheduled_running_reqs := remove1 v (scheduled_running_reqs loc),
         token_budget := token_budget loc
           + (case map_of (num_scheduled_tokens loc) v of None \<Rightarrow> 0 | Some n \<Rightarrow> n),
         num_scheduled_tokens := dict_del v (num_scheduled_tokens loc),
         req_to_new_blocks := dict_del v (req_to_new_blocks loc),
         scheduled_spec_decode_tokens := dict_del v (scheduled_spec_decode_tokens loc),
         encoder_compute_budget := encoder_compute_budget loc
           + (case map_of (scheduled_encoder_inputs loc) v of None \<Rightarrow> 0 | Some is \<Rightarrow> embeds_of q is),
         scheduled_encoder_inputs := dict_del v (scheduled_encoder_inputs loc)\<rparr>"

text \<open>Preempting the victim; the result names it and has the new \<open>req_index\<close>.\<close>

definition preempt_victim ::
  "('w, 'b, 'q) vllm \<Rightarrow> config \<Rightarrow> int \<Rightarrow> ('w, 'q) sched \<Rightarrow> 'b step \<Rightarrow>
   (rid \<times> int \<times> ('w, 'q) sched \<times> 'b step) res" where
  "preempt_victim L cfg idx s loc =
     (if running s = [] then Inl (if policy cfg = PRIORITY then ValueError else IndexError)
      else
        (let v = victim_of cfg s;
             s1 = s\<lparr>running := (if policy cfg = PRIORITY then remove1 v (running s) else butlast (running s))\<rparr>;
             scheduled = (policy cfg = PRIORITY \<and> v \<in> set (scheduled_running_reqs loc))
         in if scheduled \<and> (map_of (num_scheduled_tokens loc) v = None \<or> map_of (req_to_new_blocks loc) v = None)
            then Inl KeyError
            else bindE (preempt_request L cfg v s1) (\<lambda>s2.
              (let loc1 = (if scheduled then unschedule (store s v) v loc else loc)
               in Inr (v, if scheduled then idx - 1 else idx, s2,
                       loc1\<lparr>preempted_reqs := preempted_reqs loc1 @ [v]\<rparr>)))))"

lemma py_max_in: "py_max_from st best rs \<in> insert best (set rs)"
  by (induction st best rs rule: py_max_from.induct) (auto split: if_splits)

lemma victim_in: "running s \<noteq> [] \<Longrightarrow> victim_of cfg s \<in> set (running s)"
  using py_max_in [of "store s" "hd (running s)" "tl (running s)"]
  by (cases "running s") (auto simp: victim_of_def)

lemma preempt_victim_cases:
  assumes "preempt_victim L cfg idx s loc = Inr (v, idx', s', loc')"
  obtains s1 scheduled where "running s \<noteq> []" "v = victim_of cfg s"
    "s1 = s\<lparr>running := (if policy cfg = PRIORITY then remove1 v (running s) else butlast (running s))\<rparr>"
    "scheduled \<longleftrightarrow> policy cfg = PRIORITY \<and> v \<in> set (scheduled_running_reqs loc)"
    "preempt_request L cfg v s1 = Inr s'"
    "idx' = (if scheduled then idx - 1 else idx)"
    "loc' = (if scheduled then unschedule (store s v) v loc else loc)\<lparr>preempted_reqs := preempted_reqs loc @ [v]\<rparr>"
proof -
  from assms have a: "running s \<noteq> []" by (auto simp: preempt_victim_def)
  with assms show thesis
    by (intro that [of "s\<lparr>running := (if policy cfg = PRIORITY then remove1 v (running s) else butlast (running s))\<rparr>"
          "policy cfg = PRIORITY \<and> v \<in> set (scheduled_running_reqs loc)"])
      (auto simp: preempt_victim_def Let_def exc_simps unschedule_def split: if_splits)
qed

lemma preempt_victim_running:
  assumes "preempt_victim L cfg idx s loc = Inr (v, idx', s', loc')"
  shows "Suc (length (running s')) = length (running s)"
  using assms
proof (cases rule: preempt_victim_cases)
  case (1 s1 scheduled)
  with preempt_request_frame(1) [OF 1(5)] victim_in [OF 1(1), of cfg] show ?thesis
    by (auto simp: length_remove1 dest: length_pos_if_in_set)
qed

lemma preempt_victim_index:
  assumes "preempt_victim L cfg idx s loc = Inr (v, idx', s', loc')"
  shows "idx - 1 \<le> idx'"
  using assms by (cases rule: preempt_victim_cases) simp

lemma preempt_victim_gap:
  assumes "preempt_victim L cfg idx s loc = Inr (v, idx', s', loc')"
  shows "int (length (running s')) - idx' \<le> int (length (running s)) - idx"
  using preempt_victim_running [OF assms] preempt_victim_index [OF assms] by linarith

text \<open>
  The \<open>while True\<close> around \<open>allocate_slots\<close>: blocks, or none when the request itself was preempted.
\<close>

function allocate_or_preempt ::
  "('w, 'b, 'q) vllm \<Rightarrow> config \<Rightarrow> rid \<Rightarrow> int \<Rightarrow> int \<Rightarrow> ('w, 'q) sched \<Rightarrow> 'b step \<Rightarrow>
   ('b option \<times> int \<times> ('w, 'q) sched \<times> 'b step) res" where
  "allocate_or_preempt L cfg r n idx s loc =
     (case kv_allocate_slots_default (kv L) (store s r) n (num_lookahead_tokens cfg) (world s) of
        (Some blocks, w) \<Rightarrow> Inr (Some blocks, idx, s\<lparr>world := w\<rparr>, loc)
      | (None, w) \<Rightarrow>
          bindE (preempt_victim L cfg idx (s\<lparr>world := w\<rparr>) loc) (\<lambda>(v, idx1, s1, loc1).
            if v = r then Inr (None, idx1, s1, loc1)
            else allocate_or_preempt L cfg r n idx1 s1 loc1))"
  by pat_completeness auto
termination
  by (relation "measure (\<lambda>(L, cfg, r, n, idx, s, loc). length (running s))")
    (simp, auto dest!: preempt_victim_running)

declare allocate_or_preempt.simps [simp del]

text \<open>What every preemption keeps, the whole loop keeps.\<close>

lemma allocate_or_preempt_invariant:
  assumes "allocate_or_preempt L cfg r n idx s loc = Inr (got, idx', s', loc')"
    and "P idx s loc"
    and "\<And>idx s loc w. P idx s loc \<Longrightarrow> P idx (s\<lparr>world := w\<rparr>) loc"
    and "\<And>idx s loc v idx1 s1 loc1. P idx s loc \<Longrightarrow>
           preempt_victim L cfg idx s loc = Inr (v, idx1, s1, loc1) \<Longrightarrow>
           if v = r then Q idx1 s1 loc1 else P idx1 s1 loc1"
  shows "if got = None then Q idx' s' loc' else P idx' s' loc'"
  using assms
proof (induction L cfg r n idx s loc rule: allocate_or_preempt.induct)
  case (1 L cfg r n idx s loc)
  obtain a w where aw: "kv_allocate_slots_default (kv L) (store s r) n (num_lookahead_tokens cfg) (world s) = (a, w)"
    by fastforce
  show ?case
  proof (cases a)
    case (Some b)
    with "1.prems"(1) aw have "s' = s\<lparr>world := w\<rparr>" "got = Some b" "idx' = idx" "loc' = loc"
      by (subst (asm) (1) allocate_or_preempt.simps, simp)+
    with "1.prems"(2,3) show ?thesis by simp
  next
    case None
    with "1.prems"(1) aw obtain v idx1 s1 loc1 where
      p: "preempt_victim L cfg idx (s\<lparr>world := w\<rparr>) loc = Inr (v, idx1, s1, loc1)"
      and k: "(if v = r then Inr (None, idx1, s1, loc1)
               else allocate_or_preempt L cfg r n idx1 s1 loc1) = Inr (got, idx', s', loc')"
      by (subst (asm) allocate_or_preempt.simps) (auto simp: exc_simps)
    have "P idx (s\<lparr>world := w\<rparr>) loc" using "1.prems"(2) by (rule "1.prems"(3))
    note q = "1.prems"(4) [OF this p]
    show ?thesis
    proof (cases "v = r")
      case True
      with k q show ?thesis by auto
    next
      case False
      with k q show ?thesis
        by (intro "1.IH" [OF aw [symmetric] None p refl refl refl False _ _ "1.prems"(3,4)]) auto
    qed
  qed
qed

section \<open>Scheduling it\<close>

definition enc_allocate_all ::
  "('w, 'b, 'q) vllm \<Rightarrow> config \<Rightarrow> request \<Rightarrow> nat list \<Rightarrow> 'w \<Rightarrow> 'w" where
  "enc_allocate_all L cfg q is w =
     fold (\<lambda>i w. (let w1 = enc_allocate (enc L) q i w
                  in if has_ec_connector cfg then ec_update_state_after_alloc (enc L) q i w1 else w1)) is w"

text \<open>The speculative tokens that fall into the scheduled range.\<close>

definition scheduled_spec :: "request \<Rightarrow> int \<Rightarrow> int list option" where
  "scheduled_spec q n =
     (let k = n + num_computed_tokens q - num_tokens q - num_output_placeholders q
      in if spec_token_ids q \<noteq> [] \<and> 0 < k then Some (take (nat k) (spec_token_ids q)) else None)"

definition commit_running ::
  "('w, 'b, 'q) vllm \<Rightarrow> config \<Rightarrow> rid \<Rightarrow> int \<Rightarrow> 'b \<Rightarrow> nat list \<Rightarrow> int \<Rightarrow> nat list \<Rightarrow> ('w, 'q) sched \<Rightarrow> 'b step \<Rightarrow>
   ('w, 'q) sched \<times> 'b step" where
  "commit_running L cfg r n blocks ins b1 ext s loc =
     (let q = store s r;
          loc1 = loc\<lparr>scheduled_running_reqs := scheduled_running_reqs loc @ [r],
                     prefill_scheduled := prefill_scheduled loc \<or> is_prefill_chunk q,
                     req_to_new_blocks := dict_put r blocks (req_to_new_blocks loc),
                     num_scheduled_tokens := dict_put r n (num_scheduled_tokens loc),
                     token_budget := token_budget loc - n\<rparr>;
          loc2 = (case scheduled_spec q n of
                    None \<Rightarrow> loc1
                  | Some ts \<Rightarrow> loc1\<lparr>scheduled_spec_decode_tokens := dict_put r ts (scheduled_spec_decode_tokens loc1)\<rparr>);
          s1 = upd_req r (\<lambda>q. q\<lparr>spec_token_ids := []\<rparr>) s;
          loc3 = (if ins \<noteq> [] then loc2\<lparr>scheduled_encoder_inputs := dict_put r ins (scheduled_encoder_inputs loc2),
                                        encoder_compute_budget := b1\<rparr> else loc2);
          s2 = on_world (enc_allocate_all L cfg (store s1 r) (ins @ ext)) s1
      in (s2, loc3))"

section \<open>The loop\<close>

text \<open>The body of the loop, and whether it goes on. \<open>idx\<close> is \<open>req_index\<close>.\<close>

definition run_step ::
  "('w, 'b, 'q) vllm \<Rightarrow> config \<Rightarrow> bool \<Rightarrow> int \<Rightarrow> ('w, 'q) sched \<Rightarrow> 'b step \<Rightarrow>
   (bool \<times> int \<times> ('w, 'q) sched \<times> 'b step) res" where
  "run_step L cfg defer_prefills idx s loc =
     bindE (py_nth (running s) idx) (\<lambda>r.
       if skip_running defer_prefills (current_step s) (store s r) then Inr (True, idx + 1, s, loc)
       else bindE (plan_running L cfg r s loc) (\<lambda>((ins, n, b1, ext), s1).
         if n = 0 then Inr (True, idx + 1, s1, loc)
         else bindE (allocate_or_preempt L cfg r n idx s1 loc) (\<lambda>(got, idx2, s2, loc2).
           case got of
             None \<Rightarrow> Inr (False, idx2, s2, loc2)
           | Some blocks \<Rightarrow>
               (case commit_running L cfg r n blocks ins b1 ext s2 loc2 of
                  (s3, loc3) \<Rightarrow> Inr (True, idx2 + 1, s3, loc3)))))"

lemma allocate_or_preempt_gap:
  assumes "allocate_or_preempt L cfg r n idx s loc = Inr (got, idx', s', loc')"
  shows "int (length (running s')) - idx' \<le> int (length (running s)) - idx"
proof -
  have "if got = None then int (length (running s')) - idx' \<le> int (length (running s)) - idx
        else int (length (running s')) - idx' \<le> int (length (running s)) - idx"
    by (rule allocate_or_preempt_invariant [OF assms,
          where P = "\<lambda>i t l. int (length (running t)) - i \<le> int (length (running s)) - idx"])
      (auto dest: preempt_victim_gap)
  then show ?thesis by (simp split: if_splits)
qed

lemma plan_running_world:
  "plan_running L cfg r s loc = Inr (p, s1) \<Longrightarrow> \<exists>w. s1 = s\<lparr>world := w\<rparr>"
  by (auto simp: plan_running_def Let_def exc_simps)

lemma run_step_cases:
  assumes "run_step L cfg defer idx s loc = Inr (go, idx', s', loc')"
  obtains
    (skip) r where "py_nth (running s) idx = Inr r" "skip_running defer (current_step s) (store s r)"
      "go" "idx' = idx + 1" "s' = s" "loc' = loc"
  | (idle) r ins b1 ext where "py_nth (running s) idx = Inr r"
      "plan_running L cfg r s loc = Inr ((ins, 0, b1, ext), s')" "go" "idx' = idx + 1" "loc' = loc"
  | (stop) r ins n b1 ext s1 where "py_nth (running s) idx = Inr r"
      "plan_running L cfg r s loc = Inr ((ins, n, b1, ext), s1)" "n \<noteq> 0"
      "allocate_or_preempt L cfg r n idx s1 loc = Inr (None, idx', s', loc')" "\<not> go"
  | (run) r ins n b1 ext s1 blocks idx2 s2 loc2 where "py_nth (running s) idx = Inr r"
      "plan_running L cfg r s loc = Inr ((ins, n, b1, ext), s1)" "n \<noteq> 0"
      "allocate_or_preempt L cfg r n idx s1 loc = Inr (Some blocks, idx2, s2, loc2)"
      "commit_running L cfg r n blocks ins b1 ext s2 loc2 = (s', loc')" "go" "idx' = idx2 + 1"
proof -
  from assms obtain r where r: "py_nth (running s) idx = Inr r"
    by (auto simp: run_step_def exc_simps)
  show thesis
  proof (cases "skip_running defer (current_step s) (store s r)")
    case True
    with assms r show thesis by (intro skip [of r]) (auto simp: run_step_def)
  next
    case False
    with assms r obtain ins n b1 ext s1 where p: "plan_running L cfg r s loc = Inr ((ins, n, b1, ext), s1)"
      by (cases "plan_running L cfg r s loc") (auto simp: run_step_def)
    show thesis
    proof (cases "n = 0")
      case True
      with assms r p False show thesis by (intro idle [of r ins b1 ext]) (auto simp: run_step_def)
    next
      case n: False
      with assms r p False obtain got idx2 s2 loc2 where
        a: "allocate_or_preempt L cfg r n idx s1 loc = Inr (got, idx2, s2, loc2)"
        by (cases "allocate_or_preempt L cfg r n idx s1 loc") (auto simp: run_step_def)
      show thesis
      proof (cases got)
        case None
        with assms r p False n a show thesis
          by (intro stop [of r ins n b1 ext s1]) (auto simp: run_step_def)
      next
        case (Some blocks)
        obtain s3 loc3 where c: "commit_running L cfg r n blocks ins b1 ext s2 loc2 = (s3, loc3)" by fastforce
        with assms r p False n a Some show thesis
          by (intro run [of r ins n b1 ext s1 blocks idx2 s2 loc2]) (auto simp: run_step_def)
      qed
    qed
  qed
qed

lemma commit_running_frame:
  assumes "commit_running L cfg r n blocks ins b1 ext s loc = (s', loc')"
  shows "running s' = running s" "waiting s' = waiting s" "skipped_waiting s' = skipped_waiting s"
    "requests s' = requests s" "inflight_prefills s' = inflight_prefills s"
    "num_waiting_for_streaming_input s' = num_waiting_for_streaming_input s"
    "store s' = (store s)(r := (store s r)\<lparr>spec_token_ids := []\<rparr>)"
    "pause_state s' = pause_state s" "current_step s' = current_step s"
    "scheduled_running_reqs loc' = scheduled_running_reqs loc @ [r]"
    "num_scheduled_tokens loc' = dict_put r n (num_scheduled_tokens loc)"
    "token_budget loc' = token_budget loc - n"
    "preempted_reqs loc' = preempted_reqs loc"
    "scheduled_new_reqs loc' = scheduled_new_reqs loc" "scheduled_resumed_reqs loc' = scheduled_resumed_reqs loc"
    "req_to_new_blocks loc' = dict_put r blocks (req_to_new_blocks loc)"
  using assms by (auto simp: commit_running_def Let_def split: option.splits if_splits)

lemma run_step_gap:
  assumes "run_step L cfg defer idx s loc = Inr (True, idx', s', loc')"
  shows "int (length (running s')) - idx' < int (length (running s)) - idx"
  using assms
proof (cases rule: run_step_cases)
  case (idle r ins b1 ext)
  with plan_running_world [OF idle(2)] show ?thesis by auto
next
  case (run r ins n b1 ext s1 blocks idx2 s2 loc2)
  with plan_running_world [OF run(2)] allocate_or_preempt_gap [OF run(4)] commit_running_frame(1) [OF run(5)]
  show ?thesis by auto
qed auto

function run_loop ::
  "('w, 'b, 'q) vllm \<Rightarrow> config \<Rightarrow> bool \<Rightarrow> int \<Rightarrow> ('w, 'q) sched \<Rightarrow> 'b step \<Rightarrow>
   (('w, 'q) sched \<times> 'b step) res" where
  "run_loop L cfg defer_prefills idx s loc =
     (if \<not> (idx < int (length (running s)) \<and> 0 < token_budget loc) then Inr (s, loc)
      else bindE (run_step L cfg defer_prefills idx s loc) (\<lambda>(go, idx', s', loc').
        if go then run_loop L cfg defer_prefills idx' s' loc' else Inr (s', loc')))"
  by pat_completeness auto
termination
  by (relation "measure (\<lambda>(L, cfg, d, idx, s, loc). nat (int (length (running s)) - idx))")
    (simp, auto dest!: run_step_gap)

declare run_loop.simps [simp del]

end
