(* ===== verification/SchedWait.thy ===== *)
theory SchedWait
  imports SchedRun
begin

text \<open>
  The second half of \<open>schedule\<close>: admission from the waiting queues, up to the checks that follow the
  two loops.
\<close>

section \<open>Taking a request out of its queue\<close>

text \<open>\<open>sk\<close> says whether the request at hand heads \<open>skipped_waiting\<close> or \<open>waiting\<close>.\<close>

definition pop_from ::
  "('w, 'b, 'q) vllm \<Rightarrow> bool \<Rightarrow> ('w, 'q) sched \<Rightarrow> (rid \<times> ('w, 'q) sched) res" where
  "pop_from L sk s =
     (if sk then (case q_pop (que L) (store s) (skipped_waiting s) of
                    None \<Rightarrow> Inl IndexError | Some (r, q) \<Rightarrow> Inr (r, s\<lparr>skipped_waiting := q\<rparr>))
      else (case q_pop (que L) (store s) (waiting s) of
              None \<Rightarrow> Inl IndexError | Some (r, q) \<Rightarrow> Inr (r, s\<lparr>waiting := q\<rparr>)))"

definition peek_from :: "('w, 'b, 'q) vllm \<Rightarrow> bool \<Rightarrow> ('w, 'q) sched \<Rightarrow> rid res" where
  "peek_from L sk s =
     (case q_peek (que L) (if sk then skipped_waiting s else waiting s) of
        None \<Rightarrow> Inl IndexError | Some r \<Rightarrow> Inr r)"

text \<open>\<open>request_queue.pop_request(); step_skipped_waiting.prepend_request(request)\<close>.\<close>

definition skip_request ::
  "('w, 'b, 'q) vllm \<Rightarrow> bool \<Rightarrow> rid \<Rightarrow> ('w, 'q) sched \<Rightarrow> 'q \<Rightarrow> (('w, 'q) sched \<times> 'q) res" where
  "skip_request L sk r s step_skipped =
     bindE (pop_from L sk s) (\<lambda>(_, s1). Inr (s1, q_prepend (que L) (store s1) r step_skipped))"

section \<open>Cached tokens\<close>

text \<open>What the caches already hold of a request.\<close>

record 'b hit =
  h_blocks :: 'b
  h_local :: int
  h_external :: int
  h_async :: bool
  h_common :: int
  h_computed :: int

definition local_hit ::
  "('w, 'b, 'q) vllm \<Rightarrow> config \<Rightarrow> request \<Rightarrow> 'w \<Rightarrow> (('b \<times> int) \<times> 'w) res" where
  "local_hit L cfg q w =
     (if has_connector cfg \<and> has_mamba_layers cfg \<and> hybrid_coordinator cfg then
        (case kv_longest_hit_per_group (kv L) q (num_tokens q - 1) w of
           ((blocks, per_group_hits), w1) \<Rightarrow>
             if per_group_hits = [] then Inl ValueError
             else Inr ((blocks, Max (set per_group_hits)), w1))
      else Inr (kv_get_computed_blocks (kv L) q w))"

text \<open>
  The checks on a hit, the EC prefetch and the prefill statistics. \<open>None\<close>: the request is skipped in
  this pass.
\<close>

definition settle_hit ::
  "('w, 'b, 'q) vllm \<Rightarrow> config \<Rightarrow> rid \<Rightarrow> 'b hit \<Rightarrow> 'w \<Rightarrow> ('w, 'q) sched \<Rightarrow>
   ('b hit option \<times> ('w, 'q) sched) res" where
  "settle_hit L cfg r h w s =
     (let q = store s r in
      bindE (assertE (h_computed h \<le> num_tokens q)) (\<lambda>_.
      (let (avail, w1) = (if has_ec_connector cfg \<and> mm_features q \<noteq> []
                          then ec_ensure_cache_available (enc L) q (h_computed h) w else (True, w));
           s1 = s\<lparr>world := w1\<rparr>
       in if \<not> avail then Inr (None, s1)
          else if prefill_stats q \<noteq> None then
            bindE (assertE (h_computed h \<le> num_prompt_tokens q)) (\<lambda>_.
              Inr (Some h, upd_req r (\<lambda>q. q\<lparr>prefill_stats :=
                             Some (num_prompt_tokens q, h_local h, h_external h)\<rparr>) s1))
          else Inr (Some h, s1))))"

definition lookup_fresh ::
  "('w, 'b, 'q) vllm \<Rightarrow> config \<Rightarrow> rid \<Rightarrow> ('w, 'q) sched \<Rightarrow> ('b hit option \<times> ('w, 'q) sched) res" where
  "lookup_fresh L cfg r s =
     (let q = store s r in
      bindE (local_hit L cfg q (world s)) (\<lambda>((blocks, loc_tokens), w1).
      (let common = (if has_mamba_layers cfg then kv_uncached_common_prefix (kv L) w1 else 0);
           ((ext, asyn), w2) = (if has_connector cfg then conn_new_matched_tokens (conn L) q loc_tokens w1
                                else ((Some 0, False), w1))
       in case ext of
            None \<Rightarrow> Inr (None, s\<lparr>world := w2\<rparr>)
          | Some e \<Rightarrow>
              settle_hit L cfg r
                \<lparr>h_blocks = blocks, h_local = loc_tokens, h_external = e, h_async = asyn,
                 h_common = common, h_computed = loc_tokens + e\<rparr> w2 s)))"

definition lookup_cached ::
  "('w, 'b, 'q) vllm \<Rightarrow> config \<Rightarrow> rid \<Rightarrow> ('w, 'q) sched \<Rightarrow> ('b hit option \<times> ('w, 'q) sched) res" where
  "lookup_cached L cfg r s =
     (if num_computed_tokens (store s r) = 0 then lookup_fresh L cfg r s
      else Inr (Some \<lparr>h_blocks = kv_empty_blocks (kv L), h_local = 0, h_external = 0, h_async = False,
                      h_common = 0, h_computed = num_computed_tokens (store s r)\<rparr>, s))"

section \<open>How many tokens to admit\<close>

text \<open>
  The tokens of a waiting request before encoder inputs: \<open>None\<close> breaks the loop. The flag says that
  the request is padded to the uniform speculative size.
\<close>

definition waiting_tokens ::
  "config \<Rightarrow> bool \<Rightarrow> request \<Rightarrow> int \<Rightarrow> 'b step \<Rightarrow> (int \<times> bool) option res" where
  "waiting_tokens cfg defer_prefills q computed loc =
     (if defer_prefills \<and> computed < num_tokens q - 1 then Inr None
      else
        (let n0 = num_tokens q - computed;
             pad = (0 < num_spec_tokens cfg \<and> dynamic_sd_lookup cfg = None \<and> n0 = 1 \<and>
                    scheduled_running_reqs loc \<noteq> [] \<and> \<not> prefill_scheduled loc);
             n1 = (if pad then 1 + num_spec_tokens cfg else n0);
             t = long_prefill_token_threshold cfg;
             n2 = (if 0 < t \<and> t < n1 then t else n1)
         in if pad \<and> (token_budget loc < n1 \<or> max_model_len cfg < computed + n1) then Inr None
            else if \<not> enable_chunked_prefill cfg \<and> token_budget loc < n2 then Inr None
            else bindE (assertE (0 < min n2 (token_budget loc))) (\<lambda>_. Inr (Some (min n2 (token_budget loc), pad)))))"

text \<open>
  With encoder inputs and block alignment: inputs to encode, tokens, remaining encoder budget, inputs
  to load, padding flag. \<open>None\<close> breaks the loop.
\<close>

definition align_waiting ::
  "config \<Rightarrow> request \<Rightarrow> 'b hit \<Rightarrow> int \<Rightarrow> int option" where
  "align_waiting cfg q h n =
     (if need_mamba_block_aligned_split cfg \<and> \<not> h_async h then
        (let n' = mamba_block_aligned_split cfg q n (h_local h) (h_external h) (h_common h)
         in if n' = 0 then None else Some n')
      else Some n)"

definition plan_waiting ::
  "('w, 'b, 'q) vllm \<Rightarrow> config \<Rightarrow> bool \<Rightarrow> rid \<Rightarrow> 'b hit \<Rightarrow> ('w, 'q) sched \<Rightarrow> 'b step \<Rightarrow>
   ((nat list \<times> int \<times> int \<times> nat list \<times> bool) option \<times> ('w, 'q) sched) res" where
  "plan_waiting L cfg defer_prefills r h s loc =
     (let q = store s r; b = encoder_compute_budget loc in
      if h_async h then
        bindE (assertE (0 < h_external h)) (\<lambda>_. Inr (Some ([], 0, b, [], False), s))
      else
        bindE (waiting_tokens cfg defer_prefills q (h_computed h) loc) (\<lambda>plan.
          case plan of
            None \<Rightarrow> Inr (None, s)
          | Some (n, pad) \<Rightarrow>
              bindE (if has_encoder_inputs q
                     then try_schedule_encoder_inputs L cfg q (h_computed h) n b
                            (if use_eagle cfg then 1 else 0) (world s)
                     else Inr (([], n, b, []), world s)) (\<lambda>((ins, n1, b1, ext), w).
                if has_encoder_inputs q \<and> n1 = 0 then Inr (None, s\<lparr>world := w\<rparr>)
                else (case align_waiting cfg q h n1 of
                        None \<Rightarrow> Inr (None, s\<lparr>world := w\<rparr>)
                      | Some n2 \<Rightarrow> Inr (Some (ins, n2, b1, ext, pad), s\<lparr>world := w\<rparr>)))))"

section \<open>Admission\<close>

definition waiting_alloc_args ::
  "('w, 'b, 'q) vllm \<Rightarrow> config \<Rightarrow> request \<Rightarrow> 'b hit \<Rightarrow> nat list \<Rightarrow> int \<Rightarrow> ('w, 'q) sched \<Rightarrow> 'b alloc_args" where
  "waiting_alloc_args L cfg q h ins n s =
     \<lparr>al_num_new_tokens = n,
      al_num_new_computed_tokens = h_local h,
      al_new_computed_blocks = h_blocks h,
      al_num_lookahead_tokens =
        (if h_async h \<and> 0 < num_lookahead_tokens cfg then 0 else num_lookahead_tokens cfg),
      al_num_external_computed_tokens = h_external h,
      al_delay_cache_blocks = h_async h,
      al_num_encoder_tokens =
        (if is_encoder_decoder cfg \<and> has_encoder_inputs q \<and> ins \<noteq> [] then embeds_of q ins else 0),
      al_full_sequence_must_fit = scheduler_reserve_full_isl cfg,
      al_reserved_blocks = (if h_async h then inflight_prefill_reserved_blocks L cfg s else 0),
      al_has_scheduled_reqs = (running s \<noteq> [])\<rparr>"

text \<open>An admitted request whose KV is loaded asynchronously.\<close>

definition park_loading ::
  "('w, 'b, 'q) vllm \<Rightarrow> rid \<Rightarrow> 'b hit \<Rightarrow> ('w, 'q) sched \<Rightarrow> 'q \<Rightarrow> ('w, 'q) sched \<times> 'q" where
  "park_loading L r h s step_skipped =
     (let s1 = upd_req r (\<lambda>q. q\<lparr>status := WAITING_FOR_REMOTE_KVS, num_computed_tokens := h_computed h\<rparr>) s
      in (s1\<lparr>inflight_prefills := insert r (inflight_prefills s1)\<rparr>,
          q_prepend (que L) (store s1) r step_skipped))"

text \<open>An admitted request that runs in this step.\<close>

definition admit_running ::
  "('w, 'b, 'q) vllm \<Rightarrow> config \<Rightarrow> rid \<Rightarrow> 'b hit \<Rightarrow> (nat list \<times> int \<times> int \<times> nat list \<times> bool) \<Rightarrow>
   ('w, 'q) sched \<Rightarrow> 'b step \<Rightarrow> (('w, 'q) sched \<times> 'b step) res" where
  "admit_running L cfg r h plan s loc =
     (case plan of (ins, n, b1, ext, pad) \<Rightarrow>
       (let q = store s r;
            s1 = s\<lparr>running := running s @ [r]\<rparr>
        in bindE (if status q = WAITING
                  then Inr (loc\<lparr>scheduled_new_reqs := scheduled_new_reqs loc @ [r]\<rparr>)
                  else if status q = PREEMPTED
                  then Inr (loc\<lparr>scheduled_resumed_reqs := scheduled_resumed_reqs loc @ [r]\<rparr>)
                  else Inl RuntimeError) (\<lambda>loc1.
           (let loc2 = loc1\<lparr>scheduled_loras :=
                         (case (max_loras cfg, lora_int_id q) of
                            (Some _, Some l) \<Rightarrow> insert l (scheduled_loras loc1)
                          | _ \<Rightarrow> scheduled_loras loc1),
                       req_to_new_blocks := dict_put r (kv_get_blocks (kv L) r (world s1)) (req_to_new_blocks loc1),
                       num_scheduled_tokens := dict_put r n (num_scheduled_tokens loc1),
                       token_budget := token_budget loc1 - n,
                       scheduled_spec_decode_tokens :=
                         (if pad then dict_put r (replicate (nat (num_spec_tokens cfg)) (-1))
                                        (scheduled_spec_decode_tokens loc1)
                          else scheduled_spec_decode_tokens loc1),
                       scheduled_encoder_inputs :=
                         (if ins \<noteq> [] then dict_put r ins (scheduled_encoder_inputs loc1)
                          else scheduled_encoder_inputs loc1),
                       encoder_compute_budget :=
                         (if ins \<noteq> [] then b1 else encoder_compute_budget loc1)\<rparr>;
                s2 = upd_req r (\<lambda>q. q\<lparr>status := RUNNING, num_computed_tokens := h_computed h\<rparr>) s1;
                s3 = (if h_computed h + n < num_tokens q
                      then s2\<lparr>inflight_prefills := insert r (inflight_prefills s2)\<rparr> else s2)
            in Inr (on_world (enc_allocate_all L cfg (store s3 r) (ins @ ext)) s3, loc2)))))"

text \<open>
  From \<open>allocate_slots\<close> to the end of the body. The flag says whether the loop goes on.
\<close>

definition allocate_waiting ::
  "('w, 'b, 'q) vllm \<Rightarrow> config \<Rightarrow> bool \<Rightarrow> rid \<Rightarrow> 'b hit \<Rightarrow> (nat list \<times> int \<times> int \<times> nat list \<times> bool) \<Rightarrow>
   ('w, 'q) sched \<Rightarrow> 'b step \<Rightarrow> 'q \<Rightarrow> (bool \<times> ('w, 'q) sched \<times> 'b step \<times> 'q) res" where
  "allocate_waiting L cfg sk r h plan s loc step_skipped =
     (case plan of (ins, n, b1, ext, pad) \<Rightarrow>
       (let q = store s r in
        case kv_allocate_slots (kv L) q (waiting_alloc_args L cfg q h ins n s) (world s) of
          (None, w) \<Rightarrow>
            Inr (False, s\<lparr>world := (if has_encoder_inputs q then enc_free (enc L) q w else w)\<rparr>,
                 loc, step_skipped)
        | (Some _, w) \<Rightarrow>
            (let s1 = s\<lparr>world := w\<rparr>;
                 s2 = (if has_connector cfg
                       then on_world (\<lambda>w. conn_update_state_after_alloc (conn L) q (kv_get_blocks (kv L) r w)
                                            (h_external h) w) s1
                       else s1)
             in bindE (pop_from L sk s2) (\<lambda>(r', s3).
                  if h_async h then
                    (case park_loading L r' h s3 step_skipped of
                       (s4, step_skipped') \<Rightarrow> Inr (True, s4, loc, step_skipped'))
                  else bindE (admit_running L cfg r' h plan s3 loc) (\<lambda>(s4, loc1).
                         Inr (True, s4, loc1, step_skipped))))))"

definition exceeds_loras :: "config \<Rightarrow> request \<Rightarrow> 'b step \<Rightarrow> bool" where
  "exceeds_loras cfg q loc =
     (case (max_loras cfg, lora_int_id q) of
        (Some m, Some l) \<Rightarrow> int (card (scheduled_loras loc)) = m \<and> l \<notin> scheduled_loras loc
      | _ \<Rightarrow> False)"

text \<open>The body of the admission loop for the request at the head of the chosen queue.\<close>

definition wait_step ::
  "('w, 'b, 'q) vllm \<Rightarrow> config \<Rightarrow> bool \<Rightarrow> bool \<Rightarrow> ('w, 'q) sched \<Rightarrow> 'b step \<Rightarrow> 'q \<Rightarrow>
   (bool \<times> ('w, 'q) sched \<times> 'b step \<times> 'q) res" where
  "wait_step L cfg defer_prefills sk s loc step_skipped =
     bindE (peek_from L sk s) (\<lambda>r.
     bindE (if is_blocked_waiting_status (status (store s r))
            then try_promote_blocked_waiting_request L cfg r s else Inr (True, s)) (\<lambda>(ready, s1).
       if \<not> ready \<or> exceeds_loras cfg (store s1 r) loc then
         bindE (skip_request L sk r s1 step_skipped) (\<lambda>(s2, k). Inr (True, s2, loc, k))
       else
         bindE (lookup_cached L cfg r s1) (\<lambda>(found, s2).
           case found of
             None \<Rightarrow> bindE (skip_request L sk r s2 step_skipped) (\<lambda>(s3, k). Inr (True, s3, loc, k))
           | Some h \<Rightarrow>
               bindE (plan_waiting L cfg defer_prefills r h s2 loc) (\<lambda>(plan, s3).
                 case plan of
                   None \<Rightarrow> Inr (False, s3, loc, step_skipped)
                 | Some p \<Rightarrow> allocate_waiting L cfg sk r h p s3 loc step_skipped))))"

section \<open>The loop\<close>

text \<open>The limit on requests and the gate on partial prefills.\<close>

definition admission_closed :: "config \<Rightarrow> ('w, 'q) sched \<Rightarrow> bool" where
  "admission_closed cfg s \<longleftrightarrow>
     max_num_running_reqs cfg \<le> int (length (running s)) + num_waiting_for_streaming_input s \<or>
     (0 < max_num_partial_prefills cfg \<and> max_num_partial_prefills cfg \<le> int (card (inflight_prefills s)))"

text \<open>
  Every iteration that does not break takes one request out of the queues, so one unit of fuel per
  queued request, and one for the last test, is enough (\<open>wait_loop_fuel\<close>).
\<close>

fun wait_loop ::
  "('w, 'b, 'q) vllm \<Rightarrow> config \<Rightarrow> bool \<Rightarrow> nat \<Rightarrow> ('w, 'q) sched \<Rightarrow> 'b step \<Rightarrow> 'q \<Rightarrow>
   (('w, 'q) sched \<times> 'b step \<times> 'q) res" where
  "wait_loop L cfg defer_prefills 0 s loc step_skipped = Inl FuelExhausted"
| "wait_loop L cfg defer_prefills (Suc fuel) s loc step_skipped =
     (if \<not> ((q_truthy L (waiting s) \<or> q_truthy L (skipped_waiting s)) \<and> 0 < token_budget loc) \<or>
         admission_closed cfg s
      then Inr (s, loc, step_skipped)
      else bindE (select_waiting_queue L cfg s) (\<lambda>choice.
             case choice of
               None \<Rightarrow> Inl AssertionError
             | Some sk \<Rightarrow>
                 bindE (wait_step L cfg defer_prefills sk s loc step_skipped) (\<lambda>(go, s1, loc1, k).
                   if go then wait_loop L cfg defer_prefills fuel s1 loc1 k else Inr (s1, loc1, k))))"

definition queued :: "('w, 'b, 'q) vllm \<Rightarrow> ('w, 'q) sched \<Rightarrow> nat" where
  "queued L s = length (q_list (que L) (waiting s)) + length (q_list (que L) (skipped_waiting s))"

definition schedule_waiting ::
  "('w, 'b, 'q) vllm \<Rightarrow> config \<Rightarrow> bool \<Rightarrow> ('w, 'q) sched \<Rightarrow> 'b step \<Rightarrow> (('w, 'q) sched \<times> 'b step) res" where
  "schedule_waiting L cfg defer_prefills s loc =
     (if preempted_reqs loc \<noteq> [] \<or> pause_state s \<noteq> UNPAUSED then Inr (s, loc)
      else bindE (wait_loop L cfg defer_prefills (Suc (queued L s)) s loc (q_empty (que L))) (\<lambda>(s1, loc1, k).
        (let s2 = (if q_truthy L k
                   then s1\<lparr>skipped_waiting := q_prepend_all (que L) (store s1) k (skipped_waiting s1)\<rparr> else s1)
         in Inr (if defer_prefills then s2 else s2\<lparr>prefill_capacity_bound := q_truthy L (waiting s2)\<rparr>, loc1))))"

section \<open>Both loops\<close>

definition initial_step :: "config \<Rightarrow> ('w, 'q) sched \<Rightarrow> 'b step" where
  "initial_step cfg s =
     \<lparr>token_budget = (if pause_state s = PAUSED_ALL then 0 else max_num_scheduled_tokens cfg),
      encoder_compute_budget = max_num_encoder_input_tokens cfg,
      scheduled_new_reqs = [], scheduled_resumed_reqs = [], scheduled_running_reqs = [],
      preempted_reqs = [], req_to_new_blocks = [], num_scheduled_tokens = [],
      scheduled_encoder_inputs = [], scheduled_spec_decode_tokens = [], prefill_scheduled = False,
      scheduled_loras = {}\<rparr>"

definition defers_prefills :: "bool \<Rightarrow> ('w, 'q) sched \<Rightarrow> bool" where
  "defers_prefills throttle_prefills s \<longleftrightarrow>
     throttle_prefills \<and> \<not> prefill_capacity_bound s \<and>
     list_ex (\<lambda>r. \<not> is_prefill_chunk (store s r)) (running s)"

text \<open>The LoRAs of the running requests, with the check on their number.\<close>

definition record_loras :: "config \<Rightarrow> ('w, 'q) sched \<Rightarrow> 'b step \<Rightarrow> 'b step res" where
  "record_loras cfg s loc =
     (case max_loras cfg of
        None \<Rightarrow> Inr loc
      | Some m \<Rightarrow>
          (let ls = set (concat (map (\<lambda>r. case lora_int_id (store s r) of
                       Some l \<Rightarrow> if 0 < l then [l] else [] | None \<Rightarrow> []) (scheduled_running_reqs loc)))
           in bindE (assertE (int (card ls) \<le> m)) (\<lambda>_. Inr (loc\<lparr>scheduled_loras := ls\<rparr>))))"

definition total_scheduled :: "'b step \<Rightarrow> int" where
  "total_scheduled loc = sum_list (map snd (num_scheduled_tokens loc))"

text \<open>The three assertions on the scheduling constraints.\<close>

definition constraints_ok :: "config \<Rightarrow> ('w, 'q) sched \<Rightarrow> 'b step \<Rightarrow> bool" where
  "constraints_ok cfg s loc \<longleftrightarrow>
     total_scheduled loc \<le> max_num_scheduled_tokens cfg \<and>
     0 \<le> token_budget loc \<and>
     int (length (running s)) \<le> max_num_running_reqs cfg \<and>
     length (scheduled_new_reqs loc) + length (scheduled_resumed_reqs loc) + length (scheduled_running_reqs loc)
       \<le> length (running s)"

definition begin_step :: "('w, 'b, 'q) vllm \<Rightarrow> ('w, 'q) sched \<Rightarrow> ('w, 'q) sched" where
  "begin_step L s = on_world (kv_new_step_starts (kv L)) (s\<lparr>current_step := current_step s + 1\<rparr>)"

definition schedule_loops ::
  "('w, 'b, 'q) vllm \<Rightarrow> config \<Rightarrow> bool \<Rightarrow> ('w, 'q) sched \<Rightarrow> (('w, 'q) sched \<times> 'b step) res" where
  "schedule_loops L cfg throttle_prefills s0 =
     (let s = begin_step L s0; defer = defers_prefills throttle_prefills s in
      bindE (run_loop L cfg defer 0 s (initial_step cfg s)) (\<lambda>(s1, loc1).
      bindE (record_loras cfg s1 loc1) (\<lambda>loc2.
        schedule_waiting L cfg defer s1 loc2)))"

definition schedule_requests ::
  "('w, 'b, 'q) vllm \<Rightarrow> config \<Rightarrow> bool \<Rightarrow> ('w, 'q) sched \<Rightarrow> (('w, 'q) sched \<times> 'b step) res" where
  "schedule_requests L cfg throttle_prefills s0 =
     bindE (schedule_loops L cfg throttle_prefills s0) (\<lambda>(s, loc).
       bindE (assertE (constraints_ok cfg s loc)) (\<lambda>_. Inr (s, loc)))"

end
