(* ===== verification/SchedInv.thy ===== *)
theory SchedInv
  imports SchedWait
begin

text \<open>
  The invariant of the scheduler's queues, the laws it needs of vLLM's request queues, and the proof
  that both loops of \<open>schedule\<close> keep it together with the token accounting.
\<close>

section \<open>Laws of the request queues\<close>

text \<open>
  Every operation of a request queue adds or removes the requests it names and no other; \<open>peek\<close>
  shows what \<open>pop\<close> takes.
\<close>

definition queue_laws :: "'q queue_lib \<Rightarrow> bool" where
  "queue_laws Q \<longleftrightarrow>
     q_list Q (q_empty Q) = [] \<and>
     (\<forall>st q. case q_pop Q st q of
        None \<Rightarrow> q_list Q q = [] \<and> q_peek Q q = None
      | Some (r, q') \<Rightarrow> q_peek Q q = Some r \<and> mset (q_list Q q) = add_mset r (mset (q_list Q q'))) \<and>
     (\<forall>st r q. mset (q_list Q (q_add Q st r q)) = add_mset r (mset (q_list Q q))) \<and>
     (\<forall>st r q. mset (q_list Q (q_prepend Q st r q)) = add_mset r (mset (q_list Q q))) \<and>
     (\<forall>st k q. mset (q_list Q (q_prepend_all Q st k q)) = mset (q_list Q k) + mset (q_list Q q)) \<and>
     (\<forall>st rs q. mset (q_list Q (q_remove_all Q st rs q)) = filter_mset (\<lambda>r. r \<notin> set rs) (mset (q_list Q q)))"

lemma queue_lawsD:
  assumes "queue_laws Q"
  shows "q_list Q (q_empty Q) = []"
    "mset (q_list Q (q_add Q st r q)) = add_mset r (mset (q_list Q q))"
    "mset (q_list Q (q_prepend Q st r q)) = add_mset r (mset (q_list Q q))"
    "mset (q_list Q (q_prepend_all Q st k q)) = mset (q_list Q k) + mset (q_list Q q)"
    "mset (q_list Q (q_remove_all Q st rs q)) = filter_mset (\<lambda>r. r \<notin> set rs) (mset (q_list Q q))"
  using assms by (simp_all add: queue_laws_def)

lemma queue_pop_cases:
  "queue_laws Q \<Longrightarrow> case q_pop Q st q of
        None \<Rightarrow> q_list Q q = [] \<and> q_peek Q q = None
      | Some (r, q') \<Rightarrow> q_peek Q q = Some r \<and> mset (q_list Q q) = add_mset r (mset (q_list Q q'))"
  unfolding queue_laws_def by blast

lemma queue_pop:
  assumes "queue_laws Q" and "q_pop Q st q = Some (r, q')"
  shows "q_peek Q q = Some r" "mset (q_list Q q) = add_mset r (mset (q_list Q q'))"
  using queue_pop_cases [OF assms(1), where st = st and q = q] assms(2) by simp_all

lemma queue_pop_None:
  assumes "queue_laws Q" and "q_pop Q st q = None"
  shows "q_list Q q = []" "q_peek Q q = None"
  using queue_pop_cases [OF assms(1), where st = st and q = q] assms(2) by simp_all

section \<open>The invariant\<close>

definition queued_mset :: "('w, 'b, 'q) vllm \<Rightarrow> ('w, 'q) sched \<Rightarrow> rid multiset" where
  "queued_mset L s = mset (q_list (que L) (waiting s)) + mset (q_list (que L) (skipped_waiting s))"

text \<open>
  \<open>K\<close> holds the requests that are in neither queue because a pass of \<open>schedule\<close> has set them aside.
  Each live request is in exactly one place, \<open>running\<close> holds the running ones, the queues hold live
  requests that are not running, and the counter counts the sessions that wait for input.
\<close>

definition sched_ok_with :: "('w, 'b, 'q) vllm \<Rightarrow> rid multiset \<Rightarrow> ('w, 'q) sched \<Rightarrow> bool" where
  "sched_ok_with L K s \<longleftrightarrow>
     (\<forall>r. count (mset (running s) + queued_mset L s + K) r \<le> 1) \<and>
     set_mset (mset (running s) + queued_mset L s + K) \<subseteq> set (requests s) \<and>
     distinct (requests s) \<and>
     (\<forall>r \<in> set (running s). status (store s r) = RUNNING) \<and>
     (\<forall>r \<in># queued_mset L s + K. \<not> is_finished (status (store s r)) \<and> status (store s r) \<noteq> RUNNING) \<and>
     finite (inflight_prefills s) \<and>
     num_waiting_for_streaming_input s =
       int (size (filter_mset (\<lambda>r. status (store s r) = WAITING_FOR_STREAMING_REQ) (queued_mset L s + K))) \<and>
     (\<forall>r \<in> set (requests s). is_finished (status (store s r)) \<or>
        r \<in># mset (running s) + queued_mset L s + K)"

abbreviation sched_ok :: "('w, 'b, 'q) vllm \<Rightarrow> ('w, 'q) sched \<Rightarrow> bool" where
  "sched_ok L s \<equiv> sched_ok_with L {#} s"

lemma sched_ok_world [simp]: "sched_ok_with L K (s\<lparr>world := w\<rparr>) = sched_ok_with L K s"
  by (simp add: sched_ok_with_def queued_mset_def)

lemma sched_okD:
  assumes "sched_ok_with L K s"
  shows "count (mset (running s)) r + count (queued_mset L s) r + count K r \<le> 1"
    "r \<in> set (running s) \<Longrightarrow> r \<in> set (requests s)"
    "r \<in># queued_mset L s \<Longrightarrow> r \<in> set (requests s)"
    "r \<in># K \<Longrightarrow> r \<in> set (requests s)"
    "distinct (requests s)"
    "r \<in> set (running s) \<Longrightarrow> status (store s r) = RUNNING"
    "r \<in># queued_mset L s + K \<Longrightarrow> \<not> is_finished (status (store s r)) \<and> status (store s r) \<noteq> RUNNING"
    "finite (inflight_prefills s)"
    "num_waiting_for_streaming_input s =
       int (size (filter_mset (\<lambda>r. status (store s r) = WAITING_FOR_STREAMING_REQ) (queued_mset L s + K)))"
    "r \<in> set (requests s) \<Longrightarrow> \<not> is_finished (status (store s r)) \<Longrightarrow>
       r \<in># mset (running s) + queued_mset L s + K"
proof -
  have "count (mset (running s) + queued_mset L s + K) r \<le> 1"
    using assms unfolding sched_ok_with_def by blast
  then show "count (mset (running s)) r + count (queued_mset L s) r + count K r \<le> 1" by simp
  have "set_mset (mset (running s) + queued_mset L s + K) \<subseteq> set (requests s)"
    using assms unfolding sched_ok_with_def by blast
  then show "r \<in> set (running s) \<Longrightarrow> r \<in> set (requests s)"
    "r \<in># queued_mset L s \<Longrightarrow> r \<in> set (requests s)" "r \<in># K \<Longrightarrow> r \<in> set (requests s)" by auto
  show "distinct (requests s)" "r \<in> set (running s) \<Longrightarrow> status (store s r) = RUNNING"
    "r \<in># queued_mset L s + K \<Longrightarrow> \<not> is_finished (status (store s r)) \<and> status (store s r) \<noteq> RUNNING"
    "finite (inflight_prefills s)"
    "num_waiting_for_streaming_input s =
       int (size (filter_mset (\<lambda>r. status (store s r) = WAITING_FOR_STREAMING_REQ) (queued_mset L s + K)))"
    "r \<in> set (requests s) \<Longrightarrow> \<not> is_finished (status (store s r)) \<Longrightarrow>
       r \<in># mset (running s) + queued_mset L s + K"
    using assms unfolding sched_ok_with_def by blast+
qed

lemma count_set_pos: "r \<in> set xs \<Longrightarrow> 1 \<le> count (mset xs) r"
  by (metis One_nat_def Suc_leI count_greater_zero_iff set_mset_mset)

lemma sched_ok_running_distinct: "sched_ok_with L K s \<Longrightarrow> distinct (running s)"
  unfolding distinct_count_atmost_1
proof
  fix r assume "sched_ok_with L K s"
  from sched_okD(1) [OF this, of r] have "count (mset (running s)) r \<le> 1" by simp
  then show "count (mset (running s)) r = (if r \<in> set (running s) then 1 else 0)"
    using le_antisym [OF _ count_set_pos [of r "running s"]]
    by (cases "r \<in> set (running s)") (simp_all only: if_True if_False not_False_eq_True, simp add: count_eq_zero_iff)
qed

lemma sched_ok_apart:
  assumes "sched_ok_with L K s" and "r \<in> set (running s)"
  shows "r \<notin># queued_mset L s + K"
proof -
  have "count (queued_mset L s) r = 0" "count K r = 0"
    using sched_okD(1) [OF assms(1), of r] count_set_pos [OF assms(2)] by linarith+
  then show ?thesis by (simp add: count_eq_zero_iff)
qed

lemma sched_ok_count: "sched_ok_with L K s \<Longrightarrow> 0 \<le> num_waiting_for_streaming_input s"
  by (simp add: sched_ok_with_def)

text \<open>A change of the request at hand that leaves it where it is.\<close>

lemma filter_status_upd:
  "r \<notin># M \<Longrightarrow> filter_mset (\<lambda>x. status (if x = r then q else st x) = u) M = filter_mset (\<lambda>x. status (st x) = u) M"
  by (auto intro!: filter_mset_cong)

text \<open>Preempting a running request.\<close>

lemma preempt_ok:
  assumes "queue_laws (que L)" and "sched_ok_with L K s"
    and "mset (running s) = add_mset v (mset run')"
    and "preempt_request L cfg v (s\<lparr>running := run'\<rparr>) = Inr s'"
  shows "sched_ok_with L K s'"
proof -
  note f = preempt_request_frame [OF assms(4), simplified]
  have q: "queued_mset L s' = add_mset v (queued_mset L s)"
    using f by (simp add: queued_mset_def queue_lawsD(3) [OF assms(1)])
  have m: "mset (running s') + queued_mset L s' + K = mset (running s) + queued_mset L s + K"
    using f(1) q assms(3) by simp
  have vr: "v \<in> set (running s)" using assms(3) by (metis set_mset_mset union_single_eq_member)
  then have v: "v \<notin># queued_mset L s" "v \<notin># K" using sched_ok_apart [OF assms(2)] by auto
  have "distinct (running s)" using assms(2) by (rule sched_ok_running_distinct)
  then have "distinct (v # run')" using assms(3) by (metis mset.simps(2) mset_eq_imp_distinct_iff)
  then have n: "v \<notin> set run'" by simp
  have sub: "set run' \<subseteq> set (running s)"
    using assms(3) by (metis set_mset_mset set_mset_add_mset_insert subset_insertI)
  show ?thesis
    unfolding sched_ok_with_def m
  proof (intro conjI)
    show "\<forall>r. count (mset (running s) + queued_mset L s + K) r \<le> 1"
      "set_mset (mset (running s) + queued_mset L s + K) \<subseteq> set (requests s')"
      "distinct (requests s')"
      using assms(2) f(2) by (simp_all add: sched_ok_with_def)
    show "\<forall>r\<in>set (running s'). status (store s' r) = RUNNING"
      using sched_okD(6) [OF assms(2)] sub n f(1,4) by auto
    show "\<forall>r\<in>#queued_mset L s' + K. \<not> is_finished (status (store s' r)) \<and> status (store s' r) \<noteq> RUNNING"
      using sched_okD(7) [OF assms(2)] q f(4) by auto
    show "finite (inflight_prefills s')" using sched_okD(8) [OF assms(2)] f(6) by simp
    have "filter_mset (\<lambda>r. status (store s' r) = WAITING_FOR_STREAMING_REQ) (queued_mset L s' + K)
        = filter_mset (\<lambda>r. status (store s r) = WAITING_FOR_STREAMING_REQ) (queued_mset L s + K)"
      using q f(4) v by (auto intro!: filter_mset_cong arg_cong2 [where f = "(+)"])
    then show "num_waiting_for_streaming_input s' =
       int (size (filter_mset (\<lambda>r. status (store s' r) = WAITING_FOR_STREAMING_REQ) (queued_mset L s' + K)))"
      using sched_okD(9) [OF assms(2)] f(7) by simp
    show "\<forall>r \<in> set (requests s'). is_finished (status (store s' r)) \<or>
        r \<in># mset (running s) + queued_mset L s + K"
    proof
      fix r assume "r \<in> set (requests s')"
      with f(2) have "r \<in> set (requests s)" by simp
      with sched_okD(10) [OF assms(2), of r] vr f(4)
      show "is_finished (status (store s' r)) \<or> r \<in># mset (running s) + queued_mset L s + K"
        by (cases "r = v") auto
    qed
  qed
qed

section \<open>The loop over the running requests\<close>

lemma take_remove1:
  "v \<in> set (take n xs) \<Longrightarrow> take (n - 1) (remove1 v xs) = remove1 v (take n xs)"
proof (induction xs arbitrary: n)
  case (Cons x xs)
  then obtain m where n: "n = Suc m" by (cases n) auto
  show ?case
  proof (cases "x = v")
    case False
    with Cons.prems n have v: "v \<in> set (take m xs)" by auto
    then obtain k where "m = Suc k" by (cases m) auto
    with Cons.IH [OF v] False n show ?thesis by simp
  qed (use n in simp)
qed simp

lemma take_remove1_mono: "distinct xs \<Longrightarrow> set (take n xs) - {v} \<subseteq> set (take n (remove1 v xs))"
proof (induction xs arbitrary: n)
  case (Cons x xs)
  show ?case
  proof (cases n)
    case (Suc m)
    show ?thesis
    proof (cases "x = v")
      case True
      have "set (take m xs) \<subseteq> set (take (Suc m) xs)" by (rule set_take_subset_set_take) simp
      with True Suc show ?thesis by auto
    next
      case False
      with Cons Suc show ?thesis by auto
    qed
  qed simp
qed simp

lemma sum_dict_del:
  "distinct (map fst d) \<Longrightarrow>
     sum_list (map snd (dict_del v d)) + (case map_of d v of None \<Rightarrow> 0 | Some n \<Rightarrow> n) = (sum_list (map snd d) :: int)"
proof (induction d)
  case (Cons kn d)
  show ?case
  proof (cases "fst kn = v")
    case True
    with Cons.prems have "dict_del v d = d" by (intro dict_del_fresh) auto
    with True show ?thesis by (cases kn) (auto simp: dict_del_def)
  next
    case False
    with Cons show ?thesis by (cases kn) (auto simp: dict_del_def)
  qed
qed (simp add: dict_del_def)

lemma filter_remove1: "distinct xs \<Longrightarrow> filter (\<lambda>x. x \<noteq> v) xs = remove1 v xs"
  by (simp add: distinct_remove1_removeAll removeAll_filter_not_eq eq_commute)

text \<open>
  The step accounts for every token of the budget \<open>B\<close>; the requests scheduled so far lie before
  \<open>req_index\<close> and have at least one token each. A running request can demand tokens: it has not
  computed more than it has, and fits the model length.
\<close>

definition demand_ok :: "config \<Rightarrow> request \<Rightarrow> bool" where
  "demand_ok cfg q \<longleftrightarrow>
     num_computed_tokens q \<le> num_tokens_with_spec q + num_output_placeholders q \<and>
     num_computed_tokens q + num_sampled_tokens_per_step cfg \<le> max_model_len cfg"

definition run_inv :: "('w, 'b, 'q) vllm \<Rightarrow> config \<Rightarrow> int \<Rightarrow> int \<Rightarrow> ('w, 'q) sched \<Rightarrow> 'b step \<Rightarrow> bool" where
  "run_inv L cfg B idx s loc \<longleftrightarrow>
     sched_ok L s \<and> 0 \<le> idx \<and>
     distinct (scheduled_running_reqs loc) \<and>
     set (scheduled_running_reqs loc) \<subseteq> set (take (nat idx) (running s)) \<and>
     map fst (num_scheduled_tokens loc) = scheduled_running_reqs loc \<and>
     total_scheduled loc + token_budget loc = B \<and> 0 \<le> token_budget loc \<and>
     (\<forall>n \<in> set (map snd (num_scheduled_tokens loc)). 0 < n) \<and>
     (\<forall>r \<in> set (running s) - set (scheduled_running_reqs loc). demand_ok cfg (store s r)) \<and>
     scheduled_new_reqs loc = [] \<and> scheduled_resumed_reqs loc = []"

text \<open>While blocks for \<open>r\<close> are sought.\<close>

definition alloc_inv ::
  "('w, 'b, 'q) vllm \<Rightarrow> config \<Rightarrow> rid \<Rightarrow> int \<Rightarrow> int \<Rightarrow> ('w, 'q) sched \<Rightarrow> 'b step \<Rightarrow> bool" where
  "alloc_inv L cfg r B idx s loc \<longleftrightarrow>
     run_inv L cfg B idx s loc \<and> r \<in> set (take (nat idx + 1) (running s)) \<and> r \<notin> set (scheduled_running_reqs loc) \<and>
     (policy cfg = FCFS \<longrightarrow> nat idx < length (running s) \<and> running s ! nat idx = r)"

lemma run_inv_world: "run_inv L cfg B idx (s\<lparr>world := w\<rparr>) loc = run_inv L cfg B idx s loc"
  by (simp add: run_inv_def)

lemma alloc_inv_world: "alloc_inv L cfg r B idx s loc \<Longrightarrow> alloc_inv L cfg r B idx (s\<lparr>world := w\<rparr>) loc"
  by (simp add: alloc_inv_def run_inv_world)

lemma unschedule_facts:
  assumes "distinct (map fst (num_scheduled_tokens loc))"
  shows "scheduled_running_reqs (unschedule q v loc) = remove1 v (scheduled_running_reqs loc)"
    "total_scheduled (unschedule q v loc) + token_budget (unschedule q v loc)
       = total_scheduled loc + token_budget loc"
    "num_scheduled_tokens (unschedule q v loc) = dict_del v (num_scheduled_tokens loc)"
    "scheduled_new_reqs (unschedule q v loc) = scheduled_new_reqs loc"
    "scheduled_resumed_reqs (unschedule q v loc) = scheduled_resumed_reqs loc"
  using sum_dict_del [OF assms, of v] by (simp_all add: unschedule_def total_scheduled_def)

lemma running_tokens_bounds:
  assumes "0 < budget"
  shows "running_tokens cfg budget q \<le> budget"
    "demand_ok cfg q \<Longrightarrow> 0 \<le> running_tokens cfg budget q"
  using assms by (auto simp: running_tokens_def Let_def demand_ok_def)

text \<open>What the plan for a running request never exceeds.\<close>

definition sizes_ok :: "('w, 'b, 'q) vllm \<Rightarrow> config \<Rightarrow> bool" where
  "sizes_ok L cfg \<longleftrightarrow> queue_laws (que L) \<and> window_ok L \<and> 0 < cache_block_size cfg"

lemma plan_running_bounds:
  assumes "plan_running L cfg r s loc = Inr ((ins, n, b1, ext), s1)"
    and "sizes_ok L cfg" and "0 < token_budget loc" and "demand_ok cfg (store s r)"
  shows "0 \<le> n \<and> n \<le> token_budget loc"
proof -
  let ?t = "running_tokens cfg (token_budget loc) (store s r)"
  note b = running_tokens_bounds [OF assms(3), of cfg "store s r"]
  from assms(1) obtain n1 where
    p: "n = (if need_mamba_block_aligned_split cfg
             then mamba_block_aligned_split cfg (store s r) n1 0 0 0 else n1)"
    and n1: "n1 = ?t \<or> (\<exists>ins b1 ext w. try_schedule_encoder_inputs L cfg (store s r) (num_computed_tokens (store s r))
        ?t (encoder_compute_budget loc) (if use_eagle cfg then 1 else 0) (world s) = Inr ((ins, n1, b1, ext), w))"
  proof (cases "has_encoder_inputs (store s r)")
    case True
    with assms(1) show thesis
      by (auto simp: plan_running_def Let_def exc_simps simp del: if_split intro!: that)
  next
    case False
    with assms(1) show thesis by (intro that [of ?t]) (simp_all add: plan_running_def Let_def)
  qed
  have "0 \<le> n1 \<and> n1 \<le> token_budget loc"
    using n1 b assms(4) encoder_inputs_tokens [where L = L] assms(2,3) unfolding sizes_ok_def by fastforce
  with p mamba_split_le [of cfg "store s r" n1 0 0 0] mamba_split_nonneg [of cfg n1 "store s r" 0 0 0] assms(2)
  show ?thesis by (auto simp: sizes_ok_def)
qed

lemma take_butlast_lt: "n < length xs \<Longrightarrow> take n (butlast xs) = take n xs"
  by (cases xs rule: rev_cases) auto

text \<open>What a preemption does to \<open>running\<close>: the victim leaves it, and the invariant holds.\<close>

lemma preempt_victim_queues:
  assumes "sizes_ok L cfg" and "sched_ok L s" and "preempt_victim L cfg idx s loc = Inr (v, idx', s', loc')"
  shows "sched_ok L s'" and "set (running s') \<subseteq> set (running s) - {v}"
    and "\<And>x. x \<noteq> v \<Longrightarrow> store s' x = store s x"
    and "running s' = (if policy cfg = PRIORITY then remove1 v (running s) else butlast (running s))"
    and "policy cfg = FCFS \<Longrightarrow> v = last (running s) \<and> running s \<noteq> []"
proof -
  from assms(3) obtain s1 where v: "running s \<noteq> []" "v = victim_of cfg s"
    and s1: "s1 = s\<lparr>running := (if policy cfg = PRIORITY then remove1 v (running s) else butlast (running s))\<rparr>"
    and p: "preempt_request L cfg v s1 = Inr s'" by (rule preempt_victim_cases)
  note f = preempt_request_frame [OF p, unfolded s1, simplified]
  have vr: "v \<in> set (running s)" using victim_in [OF v(1)] v(2) by simp
  have l: "policy cfg = FCFS \<Longrightarrow> v = last (running s)" using v(2) by (simp add: victim_of_def)
  have run': "mset (running s) = add_mset v (mset (running s'))"
  proof (cases "policy cfg")
    case PRIORITY
    with f(1) vr show ?thesis by simp
  next
    case FCFS
    with l f(1) v(1) show ?thesis by (cases "running s" rule: rev_cases) auto
  qed
  show "sched_ok L s'"
    by (rule preempt_ok [OF _ assms(2), of v "running s'" cfg]) (use assms(1) run' p f(1) in \<open>simp_all add: s1 sizes_ok_def\<close>)
  have "distinct (v # running s')"
    using run' sched_ok_running_distinct [OF assms(2)] by (metis mset.simps(2) mset_eq_imp_distinct_iff)
  moreover have "set (running s) = set (v # running s')" using run' by (metis mset.simps(2) mset_eq_setD)
  ultimately show "set (running s') \<subseteq> set (running s) - {v}" by auto
  show "store s' x = store s x" if "x \<noteq> v" for x using f(4) that by simp
  show "running s' = (if policy cfg = PRIORITY then remove1 v (running s) else butlast (running s))" using f(1) by simp
  show "policy cfg = FCFS \<Longrightarrow> v = last (running s) \<and> running s \<noteq> []" using l v(1) by blast
qed

text \<open>A victim that had been scheduled in this step: it is taken back, and the index moves with it.\<close>

lemma preempt_scheduled_inv:
  assumes "alloc_inv L cfg r B idx s loc" and "sched_ok L s'" and "set (running s') \<subseteq> set (running s) - {v}"
    and st: "\<And>x. x \<noteq> v \<Longrightarrow> store s' x = store s x"
    and run1: "running s' = remove1 v (running s)"
    and pr: "policy cfg = PRIORITY" and vs: "v \<in> set (scheduled_running_reqs loc)"
    and l: "loc' = unschedule (store s v) v loc\<lparr>preempted_reqs := preempted_reqs loc @ [v]\<rparr>"
  shows "run_inv L cfg B (idx - 1) s' loc' \<and> (v \<noteq> r \<longrightarrow> alloc_inv L cfg r B (idx - 1) s' loc')"
proof -
  let ?sc = "scheduled_running_reqs loc" and ?n = "nat idx"
  have inv: "distinct ?sc" "set ?sc \<subseteq> set (take ?n (running s))" "map fst (num_scheduled_tokens loc) = ?sc"
    "total_scheduled loc + token_budget loc = B" "0 \<le> token_budget loc" "0 \<le> idx"
    "\<forall>n \<in> set (map snd (num_scheduled_tokens loc)). 0 < n"
    "\<forall>r \<in> set (running s) - set ?sc. demand_ok cfg (store s r)"
    "scheduled_new_reqs loc = []" "scheduled_resumed_reqs loc = []" "sched_ok L s"
    and ri: "r \<in> set (take (?n + 1) (running s))" and rs: "r \<notin> set ?sc"
    using assms(1) by (simp_all add: alloc_inv_def run_inv_def)
  have d: "distinct (running s)" using inv(11) by (rule sched_ok_running_distinct)
  have vt: "v \<in> set (take ?n (running s))" using vs inv(2) by blast
  then have n: "0 < ?n" by (cases ?n) auto
  then have i: "0 \<le> idx - 1" "nat (idx - 1) = ?n - 1" "nat (idx - 1) + 1 = ?n" by auto
  have t1: "set (take (nat (idx - 1)) (running s')) = set (take ?n (running s)) - {v}"
    using take_remove1 [OF vt] d by (simp add: i(2) run1)
  have vt2: "v \<in> set (take (?n + 1) (running s))"
    using vt set_take_subset_set_take [of ?n "?n + 1" "running s"] by auto
  have t2: "set (take (nat (idx - 1) + 1) (running s')) = set (take (?n + 1) (running s)) - {v}"
    unfolding i(3) run1 using take_remove1 [OF vt2] d by simp
  note u = unschedule_facts [of loc "store s v" v, unfolded inv(3), OF inv(1)]
  have keys: "map fst (dict_del v (num_scheduled_tokens loc)) = remove1 v ?sc"
    using dict_del_keys [of v "num_scheduled_tokens loc"] inv(1,3) by (simp add: filter_remove1)
  have pos: "0 < k" if "map_of (num_scheduled_tokens loc) v = Some k" for k
    using map_of_SomeD [OF that] inv(7) by force
  have bud: "0 \<le> token_budget (unschedule (store s v) v loc)"
    using inv(5) pos by (auto simp: unschedule_def split: option.splits dest: less_imp_le)
  have vals: "\<forall>k \<in> set (map snd (dict_del v (num_scheduled_tokens loc))). 0 < k"
    using inv(7) by (auto simp: dict_del_def)
  have dem: "\<forall>x \<in> set (running s') - (set ?sc - {v}). demand_ok cfg (store s' x)"
    using inv(8) assms(3) st by (metis DiffD1 DiffD2 DiffI insertCI subsetD)
  have "run_inv L cfg B (idx - 1) s' loc'"
    unfolding run_inv_def l
    using assms(2) i(1) inv(1-7,9,10) t1 u keys bud vals dem by (auto simp: total_scheduled_def)
  moreover have "r \<in> set (take (nat (idx - 1) + 1) (running s'))" if "v \<noteq> r" using t2 ri that by auto
  ultimately show ?thesis using rs pr inv(1) u(1) l by (auto simp: alloc_inv_def)
qed

text \<open>Any other victim: it stands behind the requests scheduled so far.\<close>

lemma preempt_passed_inv:
  assumes "alloc_inv L cfg r B idx s loc" and "sched_ok L s'" and "set (running s') \<subseteq> set (running s) - {v}"
    and st: "\<And>x. x \<noteq> v \<Longrightarrow> store s' x = store s x"
    and run1: "running s' = (if policy cfg = PRIORITY then remove1 v (running s) else butlast (running s))"
    and fv: "policy cfg = FCFS \<Longrightarrow> v = last (running s) \<and> running s \<noteq> []"
    and ns: "policy cfg = PRIORITY \<Longrightarrow> v \<notin> set (scheduled_running_reqs loc)"
    and l: "loc' = loc\<lparr>preempted_reqs := preempted_reqs loc @ [v]\<rparr>"
  shows "run_inv L cfg B idx s' loc' \<and> (v \<noteq> r \<longrightarrow> alloc_inv L cfg r B idx s' loc')"
proof -
  let ?sc = "scheduled_running_reqs loc" and ?n = "nat idx"
  have inv: "run_inv L cfg B idx s loc" and sc: "set ?sc \<subseteq> set (take ?n (running s))"
    and dm: "\<forall>r \<in> set (running s) - set ?sc. demand_ok cfg (store s r)"
    and ri: "r \<in> set (take (?n + 1) (running s))" and rs: "r \<notin> set ?sc"
    and fc: "policy cfg = FCFS \<Longrightarrow> ?n < length (running s) \<and> running s ! ?n = r"
    using assms(1) by (auto simp: alloc_inv_def run_inv_def)
  have d: "distinct (running s)" using inv sched_ok_running_distinct by (auto simp: run_inv_def)
  have ts: "set ?sc \<subseteq> set (take ?n (running s'))"
  proof (cases "policy cfg")
    case PRIORITY
    with ns sc take_remove1_mono [OF d, of ?n v] run1 show ?thesis by auto
  next
    case FCFS
    with fc run1 sc take_butlast_lt [of ?n "running s"] show ?thesis by simp
  qed
  have dem: "\<forall>x \<in> set (running s') - set ?sc. demand_ok cfg (store s' x)"
    using dm assms(3) st by (metis DiffD1 DiffD2 DiffI insertCI subsetD)
  have A: "run_inv L cfg B idx s' loc'"
    using inv unfolding run_inv_def l using assms(2) ts dem by (auto simp: total_scheduled_def)
  have "r \<in> set (take (?n + 1) (running s')) \<and>
      (policy cfg = FCFS \<longrightarrow> ?n < length (running s') \<and> running s' ! ?n = r)" if vr: "v \<noteq> r"
  proof (cases "policy cfg")
    case PRIORITY
    with ri take_remove1_mono [OF d, of "?n + 1" v] run1 vr show ?thesis by auto
  next
    case FCFS
    then have v: "v = last (running s)" "running s \<noteq> []" and b: "running s' = butlast (running s)"
      using fv run1 by simp_all
    have "?n \<noteq> length (running s) - 1" using fc [OF FCFS] v vr by (auto simp: last_conv_nth)
    with fc [OF FCFS] have "?n < length (running s')" unfolding b length_butlast by linarith
    moreover from this fc [OF FCFS] have "running s' ! ?n = r" using b by (simp add: nth_butlast)
    ultimately show ?thesis by (auto simp: in_set_conv_nth intro!: exI [of _ ?n])
  qed
  with A rs l show ?thesis by (auto simp: alloc_inv_def)
qed

lemma preempt_victim_run_inv:
  assumes "sizes_ok L cfg" and "alloc_inv L cfg r B idx s loc"
    and "preempt_victim L cfg idx s loc = Inr (v, idx', s', loc')"
  shows "run_inv L cfg B idx' s' loc'"
    and "v \<noteq> r \<Longrightarrow> alloc_inv L cfg r B idx' s' loc'"
proof -
  have ok: "sched_ok L s" using assms(2) by (simp add: alloc_inv_def run_inv_def)
  note q = preempt_victim_queues [OF assms(1) ok assms(3)]
  from assms(3) obtain scheduled where sc: "scheduled \<longleftrightarrow> policy cfg = PRIORITY \<and> v \<in> set (scheduled_running_reqs loc)"
    and i: "idx' = (if scheduled then idx - 1 else idx)"
    and l: "loc' = (if scheduled then unschedule (store s v) v loc else loc)\<lparr>preempted_reqs := preempted_reqs loc @ [v]\<rparr>"
    by (rule preempt_victim_cases)
  have "run_inv L cfg B idx' s' loc' \<and> (v \<noteq> r \<longrightarrow> alloc_inv L cfg r B idx' s' loc')"
  proof (cases scheduled)
    case True
    with preempt_scheduled_inv [OF assms(2) q(1-3) _ _ _] q(4) sc i l show ?thesis by simp
  next
    case False
    with preempt_passed_inv [OF assms(2) q(1-5)] sc i l show ?thesis by simp
  qed
  then show "run_inv L cfg B idx' s' loc'" and "v \<noteq> r \<Longrightarrow> alloc_inv L cfg r B idx' s' loc'" by blast+
qed

lemma py_nth_nonneg: "py_nth xs i = Inr r \<Longrightarrow> 0 \<le> i \<Longrightarrow> nat i < length xs \<and> xs ! nat i = r"
  by (auto simp: py_nth_def split: if_splits)

lemma run_inv_mono:
  assumes "run_inv L cfg B idx s loc" and "idx \<le> idx'"
  shows "run_inv L cfg B idx' s loc"
proof -
  have "nat idx \<le> nat idx'" using assms(2) by simp
  from set_take_subset_set_take [OF this, of "running s"] assms show ?thesis
    by (auto simp: run_inv_def)
qed

lemma run_inv_demand:
  "run_inv L cfg B idx s loc \<Longrightarrow> 0 \<le> idx \<Longrightarrow> nat idx < length (running s) \<Longrightarrow>
     running s ! nat idx \<notin> set (scheduled_running_reqs loc) \<and> demand_ok cfg (store s (running s ! nat idx))"
proof -
  assume a: "run_inv L cfg B idx s loc" "0 \<le> idx" "nat idx < length (running s)"
  have "distinct (running s)" using a(1) sched_ok_running_distinct by (auto simp: run_inv_def)
  then have "running s ! nat idx \<notin> set (take (nat idx) (running s))"
    using a(3) by (auto simp: in_set_conv_nth nth_eq_iff_index_eq)
  with a show ?thesis by (auto simp: run_inv_def)
qed

lemma alloc_start:
  assumes "run_inv L cfg B idx s loc" and "py_nth (running s) idx = Inr r"
    and "plan_running L cfg r s loc = Inr (p, s1)"
  shows "alloc_inv L cfg r B idx s1 loc" "demand_ok cfg (store s r)"
proof -
  have i: "0 \<le> idx" using assms(1) by (simp add: run_inv_def)
  note n = py_nth_nonneg [OF assms(2) i]
  note d = run_inv_demand [OF assms(1) i]
  from n d show "demand_ok cfg (store s r)" by auto
  have "r \<in> set (take (nat idx + 1) (running s))"
    using n by (auto simp: in_set_conv_nth intro!: exI [of _ "nat idx"])
  with n d assms(1) have "alloc_inv L cfg r B idx s loc" by (auto simp: alloc_inv_def)
  with plan_running_world [OF assms(3)] show "alloc_inv L cfg r B idx s1 loc"
    by (auto intro: alloc_inv_world)
qed

lemma preempt_victim_budget:
  assumes "run_inv L cfg B idx s loc" and "preempt_victim L cfg idx s loc = Inr (v, idx', s', loc')"
  shows "token_budget loc \<le> token_budget loc'"
  using assms(2)
proof (cases rule: preempt_victim_cases)
  case (1 s1 scheduled)
  have "0 \<le> k" if "map_of (num_scheduled_tokens loc) v = Some k" for k
    using map_of_SomeD [OF that] assms(1) by (force simp: run_inv_def)
  with 1(7) show ?thesis by (auto simp: unschedule_def split: option.splits)
qed

lemma allocate_keeps:
  assumes "sizes_ok L cfg" and "alloc_inv L cfg r B idx s loc"
    and "allocate_or_preempt L cfg r n idx s loc = Inr (got, idx', s', loc')"
  shows "if got = None then run_inv L cfg B idx' s' loc'
         else alloc_inv L cfg r B idx' s' loc' \<and> token_budget loc \<le> token_budget loc'"
proof (rule allocate_or_preempt_invariant [OF assms(3),
        where P = "\<lambda>i t l. alloc_inv L cfg r B i t l \<and> token_budget loc \<le> token_budget l"])
  fix i t l v i1 t1 l1
  assume "alloc_inv L cfg r B i t l \<and> token_budget loc \<le> token_budget l"
    and p: "preempt_victim L cfg i t l = Inr (v, i1, t1, l1)"
  then have a: "alloc_inv L cfg r B i t l" "run_inv L cfg B i t l" "token_budget loc \<le> token_budget l"
    by (auto simp: alloc_inv_def)
  from preempt_victim_run_inv [OF assms(1) a(1) p] preempt_victim_budget [OF a(2) p] a(3)
  show "if v = r then run_inv L cfg B i1 t1 l1
        else alloc_inv L cfg r B i1 t1 l1 \<and> token_budget loc \<le> token_budget l1" by auto
qed (use assms(2) alloc_inv_world in auto)

lemma sched_ok_upd:
  assumes "sched_ok_with L K s" and "running s' = running s" "waiting s' = waiting s"
    "skipped_waiting s' = skipped_waiting s" "requests s' = requests s"
    "finite (inflight_prefills s')"
    "num_waiting_for_streaming_input s' = num_waiting_for_streaming_input s"
    "\<And>x. status (store s' x) = status (store s x)"
  shows "sched_ok_with L K s'"
  using assms by (simp add: sched_ok_with_def queued_mset_def)

lemma commit_inv:
  assumes "alloc_inv L cfg r B idx s loc" and "0 < n" and "n \<le> token_budget loc"
    and "commit_running L cfg r n blocks ins b1 ext s loc = (s', loc')"
  shows "run_inv L cfg B (idx + 1) s' loc'"
proof -
  note f = commit_running_frame [OF assms(4)]
  have r: "run_inv L cfg B idx s loc" "r \<in> set (take (nat idx + 1) (running s))"
    "r \<notin> set (scheduled_running_reqs loc)"
    using assms(1) by (auto simp: alloc_inv_def)
  then have i: "0 \<le> idx" "nat (idx + 1) = nat idx + 1" by (auto simp: run_inv_def)
  have "sched_ok L s" using r(1) by (simp add: run_inv_def)
  then have ok: "sched_ok L s'" by (rule sched_ok_upd) (use f sched_okD(8) [OF \<open>sched_ok L s\<close>] in simp_all)
  have "r \<notin> fst ` set (num_scheduled_tokens loc)" using r by (auto simp: run_inv_def simp flip: set_map)
  then have t: "num_scheduled_tokens loc' = num_scheduled_tokens loc @ [(r, n)]"
    using f(11) by (simp add: dict_put_fresh)
  have sub: "set (take (nat idx) (running s)) \<subseteq> set (take (nat idx + 1) (running s))"
    by (rule set_take_subset_set_take) simp
  show ?thesis
    unfolding run_inv_def total_scheduled_def i(2)
    using ok r i(1) t f assms(2,3) sub by (auto simp: run_inv_def total_scheduled_def)
qed

lemma run_step_inv:
  assumes "sizes_ok L cfg" and "run_inv L cfg B idx s loc" and "0 < token_budget loc"
    and "run_step L cfg defer idx s loc = Inr (go, idx', s', loc')"
  shows "run_inv L cfg B idx' s' loc'"
  using assms(4)
proof (cases rule: run_step_cases)
  case (skip r)
  with run_inv_mono [OF assms(2), of "idx + 1"] show ?thesis by simp
next
  case (idle r ins b1 ext)
  with plan_running_world [OF idle(2)] run_inv_mono [OF assms(2), of "idx + 1"]
  show ?thesis by (auto simp: run_inv_world)
next
  case (stop r ins n b1 ext s1)
  from allocate_keeps [OF assms(1) alloc_start(1) [OF assms(2) stop(1,2)] stop(4)]
  show ?thesis by simp
next
  case (run r ins n b1 ext s1 blocks idx2 s2 loc2)
  note a = alloc_start [OF assms(2) run(1,2)]
  have "0 < n" "n \<le> token_budget loc"
    using plan_running_bounds [OF run(2) assms(1,3) a(2)] run(3) by auto
  moreover from allocate_keeps [OF assms(1) a(1) run(4)]
  have "alloc_inv L cfg r B idx2 s2 loc2" "token_budget loc \<le> token_budget loc2" by auto
  ultimately have "run_inv L cfg B (idx2 + 1) s' loc'"
    by (intro commit_inv [OF _ _ _ run(5)]) auto
  with run(7) show ?thesis by simp
qed

lemma run_loop_invariant:
  "run_loop L cfg dfr idx s loc = Inr (s', loc') \<Longrightarrow> P idx s loc \<Longrightarrow>
     (\<And>idx s loc go idx' s' loc'. P idx s loc \<Longrightarrow> 0 < token_budget loc \<Longrightarrow>
        run_step L cfg dfr idx s loc = Inr (go, idx', s', loc') \<Longrightarrow> P idx' s' loc') \<Longrightarrow>
     \<exists>idx'. P idx' s' loc'"
proof (induction L cfg dfr idx s loc rule: run_loop.induct)
  case (1 L cfg dfr idx s loc)
  show ?case
  proof (cases "idx < int (length (running s)) \<and> 0 < token_budget loc")
    case False
    with "1.prems"(1) have "s' = s" "loc' = loc" by (subst (asm) (1) run_loop.simps, auto)+
    with "1.prems"(2) show ?thesis by blast
  next
    case True
    with "1.prems"(1) obtain go i1 s1 l1 where
      st: "run_step L cfg dfr idx s loc = Inr (go, i1, s1, l1)"
      and k: "(if go then run_loop L cfg dfr i1 s1 l1 else Inr (s1, l1)) = Inr (s', loc')"
      by (subst (asm) run_loop.simps) (auto simp: exc_simps)
    have inv: "P i1 s1 l1" by (rule "1.prems"(3) [OF "1.prems"(2) _ st]) (use True in simp)
    show ?thesis
    proof (cases go)
      case g: True
      with k have k': "run_loop L cfg dfr i1 s1 l1 = Inr (s', loc')" by simp
      have t: "\<not> \<not> (idx < int (length (running s)) \<and> 0 < token_budget loc)" using True by simp
      show ?thesis by (rule "1.IH" [OF t st refl refl refl g k' inv]) (rule "1.prems"(3))
    next
      case False
      with k inv show ?thesis by auto
    qed
  qed
qed

lemma run_loop_inv:
  assumes "run_loop L cfg dfr idx s loc = Inr (s', loc')" and "sizes_ok L cfg" and "run_inv L cfg B idx s loc"
  shows "\<exists>idx'. run_inv L cfg B idx' s' loc'"
  using assms(1,3) by (rule run_loop_invariant) (rule run_step_inv [OF assms(2)])

text \<open>The loop never adds a running request or an in-flight prefill.\<close>

definition shrinks :: "('w, 'q) sched \<Rightarrow> ('w, 'q) sched \<Rightarrow> bool" where
  "shrinks s s' \<longleftrightarrow>
     length (running s') \<le> length (running s) \<and> inflight_prefills s' \<subseteq> inflight_prefills s \<and>
     pause_state s' = pause_state s \<and> requests s' = requests s"

lemma shrinks_trans: "shrinks s t \<Longrightarrow> shrinks t u \<Longrightarrow> shrinks s u"
  unfolding shrinks_def by (metis order.trans)

lemma shrinks_world: "shrinks s t \<Longrightarrow> shrinks s (t\<lparr>world := w\<rparr>)"
  by (simp add: shrinks_def)

lemma preempt_victim_shrinks:
  assumes "preempt_victim L cfg idx s loc = Inr (v, idx', s', loc')"
  shows "shrinks s s'"
  using assms
proof (cases rule: preempt_victim_cases)
  case (1 s1 scheduled)
  with preempt_request_frame [OF 1(5)] preempt_victim_running [OF assms] show ?thesis
    by (auto simp: shrinks_def)
qed

lemma run_step_shrinks:
  assumes "run_step L cfg dfr idx s loc = Inr (go, idx', s', loc')"
  shows "shrinks s s'"
proof -
  have a: "shrinks s s2"
    if "plan_running L cfg r s loc = Inr (p, s1)" "allocate_or_preempt L cfg r n idx s1 loc = Inr (got, i2, s2, loc2)"
    for r p s1 n got i2 s2 loc2
  proof -
    note t = that
    obtain w where w: "s1 = s\<lparr>world := w\<rparr>" using plan_running_world [OF t(1)] by blast
    have "if got = None then shrinks s s2 else shrinks s s2"
      by (rule allocate_or_preempt_invariant [OF t(2), where P = "\<lambda>i t l. shrinks s t"])
        (use w in \<open>auto intro: shrinks_world shrinks_trans preempt_victim_shrinks simp: shrinks_def [of s s]\<close>)
    then show ?thesis by simp
  qed
  show ?thesis
    using assms
  proof (cases rule: run_step_cases)
    case (idle r ins b1 ext)
    with plan_running_world [OF idle(2)] show ?thesis by (auto simp: shrinks_def)
  next
    case (run r ins n b1 ext s1 blocks idx2 s2 loc2)
    with a [OF run(2,4)] commit_running_frame [OF run(5)] show ?thesis by (simp add: shrinks_def)
  next
    case (stop r ins n b1 ext s1)
    show ?thesis by (rule a [OF stop(2,4)])
  qed (auto simp: shrinks_def)
qed

lemma run_loop_shrinks:
  assumes "run_loop L cfg dfr idx s loc = Inr (s', loc')"
  shows "shrinks s s'"
proof -
  have "\<exists>idx' :: int. shrinks s s'"
    by (rule run_loop_invariant [OF assms, where P = "\<lambda>i t l. shrinks s t"])
      (auto intro: shrinks_trans run_step_shrinks simp: shrinks_def [of s s])
  then show ?thesis by blast
qed

end
