(* ===== verification/SchedAdmit.thy ===== *)
theory SchedAdmit
  imports SchedInv
begin

text \<open>
  The admission loop keeps the queue invariant and the token accounting, admits no more requests and
  no more partial prefills than configured, and always ends.
\<close>

section \<open>Statuses on the way to admission\<close>

text \<open>A change of one queued request that keeps it queued.\<close>

lemma sched_ok_status:
  assumes "sched_ok_with L K s" and "r \<in># queued_mset L s + K"
    and "running s' = running s" "waiting s' = waiting s" "skipped_waiting s' = skipped_waiting s"
    "requests s' = requests s" "finite (inflight_prefills s')"
    "num_waiting_for_streaming_input s' = num_waiting_for_streaming_input s"
    and "\<And>x. x \<noteq> r \<Longrightarrow> store s' x = store s x"
    and "\<not> is_finished (status (store s' r))" "status (store s' r) \<noteq> RUNNING"
    and "status (store s' r) = WAITING_FOR_STREAMING_REQ \<longleftrightarrow> status (store s r) = WAITING_FOR_STREAMING_REQ"
  shows "sched_ok_with L K s'"
proof -
  have nr: "r \<notin> set (running s)" using sched_ok_apart [OF assms(1)] assms(2) by blast
  have q: "queued_mset L s' = queued_mset L s" using assms(4,5) by (simp add: queued_mset_def)
  have w: "status (store s' x) = WAITING_FOR_STREAMING_REQ \<longleftrightarrow> status (store s x) = WAITING_FOR_STREAMING_REQ" for x
    using assms(9,12) by (cases "x = r") auto
  have z: "\<not> is_finished (status (store s' x)) \<and> status (store s' x) \<noteq> RUNNING"
    if "x \<in># queued_mset L s + K" for x
    using sched_okD(7) [OF assms(1) that] assms(9-11) by (cases "x = r") auto
  have y: "status (store s' x) = RUNNING" if "x \<in> set (running s)" for x
    using sched_okD(6) [OF assms(1) that] assms(9) that nr by (cases "x = r") auto
  have l: "\<forall>x \<in> set (requests s). is_finished (status (store s' x)) \<or>
      x \<in># mset (running s) + queued_mset L s + K"
  proof
    fix x assume "x \<in> set (requests s)"
    with sched_okD(10) [OF assms(1), of x] assms(2,9)
    show "is_finished (status (store s' x)) \<or> x \<in># mset (running s) + queued_mset L s + K"
      by (cases "x = r") auto
  qed
  show ?thesis
    using assms(1) unfolding sched_ok_with_def q assms(3,6,8) w
    using z y l assms(7) by blast
qed

lemma update_remote_kv_frame:
  assumes "update_waiting_for_remote_kv L cfg r s = Inr s'"
  shows "running s' = running s" "waiting s' = waiting s" "skipped_waiting s' = skipped_waiting s"
    "requests s' = requests s" "inflight_prefills s' = inflight_prefills s"
    "num_waiting_for_streaming_input s' = num_waiting_for_streaming_input s"
    "x \<noteq> r \<Longrightarrow> store s' x = store s x" "pause_state s' = pause_state s"
  using assms by (auto simp: update_waiting_for_remote_kv_def Let_def exc_simps split: if_splits)

lemma promote_facts:
  assumes "try_promote_blocked_waiting_request L cfg r s = Inr (ready, s')"
  shows "running s' = running s" "waiting s' = waiting s" "skipped_waiting s' = skipped_waiting s"
    "requests s' = requests s" "inflight_prefills s' = inflight_prefills s"
    "num_waiting_for_streaming_input s' = num_waiting_for_streaming_input s"
    "x \<noteq> r \<Longrightarrow> store s' x = store s x" "pause_state s' = pause_state s"
    "if ready then status (store s' r) \<in> {WAITING, PREEMPTED} \<and>
                   status (store s r) \<noteq> WAITING_FOR_STREAMING_REQ else s' = s"
  using assms
  by (auto simp: try_promote_blocked_waiting_request_def exc_simps update_remote_kv_frame
      split: request_status.splits if_splits)

lemma promote_ok:
  assumes "sched_ok_with L K s" and "r \<in># queued_mset L s + K"
    and "try_promote_blocked_waiting_request L cfg r s = Inr (ready, s')"
  shows "sched_ok_with L K s'"
proof (cases ready)
  case False
  with promote_facts(9) [OF assms(3)] assms(1) show ?thesis by simp
next
  case True
  note f = promote_facts [OF assms(3)]
  have "status (store s' r) \<in> {WAITING, PREEMPTED}" "status (store s r) \<noteq> WAITING_FOR_STREAMING_REQ"
    using f(9) True by auto
  then show ?thesis
    using f sched_okD(8) [OF assms(1)] by (intro sched_ok_status [OF assms(1,2)]) auto
qed

lemma settle_hit_frame:
  assumes "settle_hit L cfg r h w s = Inr (found, s')"
  shows "running s' = running s \<and> waiting s' = waiting s \<and> skipped_waiting s' = skipped_waiting s \<and>
    requests s' = requests s \<and> inflight_prefills s' = inflight_prefills s \<and>
    num_waiting_for_streaming_input s' = num_waiting_for_streaming_input s \<and>
    status (store s' x) = status (store s x) \<and> pause_state s' = pause_state s"
  using assms
  by (auto simp: settle_hit_def Let_def exc_simps split: if_splits prod.splits)

lemma lookup_cached_frame:
  assumes "lookup_cached L cfg r s = Inr (found, s')"
  shows "running s' = running s" "waiting s' = waiting s" "skipped_waiting s' = skipped_waiting s"
    "requests s' = requests s" "inflight_prefills s' = inflight_prefills s"
    "num_waiting_for_streaming_input s' = num_waiting_for_streaming_input s"
    "status (store s' x) = status (store s x)" "pause_state s' = pause_state s"
proof -
  have "running s' = running s \<and> waiting s' = waiting s \<and> skipped_waiting s' = skipped_waiting s \<and>
    requests s' = requests s \<and> inflight_prefills s' = inflight_prefills s \<and>
    num_waiting_for_streaming_input s' = num_waiting_for_streaming_input s \<and>
    status (store s' x) = status (store s x) \<and> pause_state s' = pause_state s"
  proof (cases "num_computed_tokens (store s r) = 0")
    case True
    with assms obtain blocks lt w1 where "local_hit L cfg (store s r) (world s) = Inr ((blocks, lt), w1)"
      by (cases "local_hit L cfg (store s r) (world s)") (auto simp: lookup_cached_def lookup_fresh_def Let_def)
    moreover obtain ext asyn w2 where
      "(if has_connector cfg then conn_new_matched_tokens (conn L) (store s r) lt w1
        else ((Some 0, False), w1)) = ((ext, asyn), w2)" by (metis prod.exhaust)
    ultimately show ?thesis
      using assms True
      by (cases ext) (auto simp: lookup_cached_def lookup_fresh_def Let_def dest: settle_hit_frame simp del: if_split)
  qed (use assms in \<open>auto simp: lookup_cached_def\<close>)
  then show "running s' = running s" "waiting s' = waiting s" "skipped_waiting s' = skipped_waiting s"
    "requests s' = requests s" "inflight_prefills s' = inflight_prefills s"
    "num_waiting_for_streaming_input s' = num_waiting_for_streaming_input s"
    "status (store s' x) = status (store s x)" "pause_state s' = pause_state s" by auto
qed

abbreviation waiting_encoder ::
  "('w, 'b, 'q) vllm \<Rightarrow> config \<Rightarrow> request \<Rightarrow> int \<Rightarrow> int \<Rightarrow> int \<Rightarrow> 'w \<Rightarrow>
   ((nat list \<times> int \<times> int \<times> nat list) \<times> 'w) res" where
  "waiting_encoder L cfg q computed n b w \<equiv>
     (if has_encoder_inputs q
      then try_schedule_encoder_inputs L cfg q computed n b (if use_eagle cfg then 1 else 0) w
      else Inr (([], n, b, []), w))"

lemma plan_waiting_cases:
  assumes "plan_waiting L cfg dfr r h s loc = Inr (p, s')"
  obtains (loading) "h_async h" "p = Some ([], 0, encoder_compute_budget loc, [], False)" "s' = s"
  | (closed) "\<not> h_async h" "p = None" "s' = s"
  | (planned) n0 pad ins n1 b1 ext w where "\<not> h_async h"
      "waiting_tokens cfg dfr (store s r) (h_computed h) loc = Inr (Some (n0, pad))"
      "waiting_encoder L cfg (store s r) (h_computed h) n0 (encoder_compute_budget loc) (world s)
         = Inr ((ins, n1, b1, ext), w)"
      "s' = s\<lparr>world := w\<rparr>"
      "p = (if has_encoder_inputs (store s r) \<and> n1 = 0 then None
            else map_option (\<lambda>n. (ins, n, b1, ext, pad)) (align_waiting cfg (store s r) h n1))"
proof (cases "h_async h")
  case True
  with assms show thesis by (intro loading) (auto simp: plan_waiting_def Let_def exc_simps)
next
  case False
  let ?t = "waiting_tokens cfg dfr (store s r) (h_computed h) loc"
  from assms False obtain plan where t: "?t = Inr plan" by (cases ?t) (auto simp: plan_waiting_def Let_def)
  show thesis
  proof (cases plan)
    case None
    with assms False t show thesis by (intro closed) (auto simp: plan_waiting_def Let_def)
  next
    case (Some np)
    obtain n0 pad where np: "np = (n0, pad)" by fastforce
    let ?e = "waiting_encoder L cfg (store s r) (h_computed h) n0 (encoder_compute_budget loc) (world s)"
    from assms False t Some np have "bindE ?e (\<lambda>((ins, n1, b1, ext), w).
                if has_encoder_inputs (store s r) \<and> n1 = 0 then Inr (None, s\<lparr>world := w\<rparr>)
                else (case align_waiting cfg (store s r) h n1 of
                        None \<Rightarrow> Inr (None, s\<lparr>world := w\<rparr>)
                      | Some n2 \<Rightarrow> Inr (Some (ins, n2, b1, ext, pad), s\<lparr>world := w\<rparr>))) = Inr (p, s')"
      by (simp add: plan_waiting_def Let_def del: if_split)
    moreover from this obtain ins n1 b1 ext w where e: "?e = Inr ((ins, n1, b1, ext), w)"
      by (cases ?e) auto
    ultimately show thesis
      using False t Some np
      by (intro planned [OF False _ e]) (auto split: option.splits if_split_asm)
  qed
qed

lemma plan_waiting_world:
  assumes "plan_waiting L cfg dfr r h s loc = Inr (p, s')"
  shows "\<exists>w. s' = s\<lparr>world := w\<rparr>"
  using assms by (cases rule: plan_waiting_cases) (auto intro: exI [of _ "world s"])

section \<open>Bounds of the admission plan\<close>

lemma waiting_tokens_bounds:
  "waiting_tokens cfg dfr q computed loc = Inr (Some (n, pad)) \<Longrightarrow> 0 < n \<and> n \<le> token_budget loc"
  by (auto simp: waiting_tokens_def Let_def exc_simps split: if_splits)

lemma waiting_encoder_bounds:
  assumes "waiting_encoder L cfg q computed n b w = Inr ((ins, n', b', ext), w')"
    and "window_ok L" and "0 < n"
  shows "0 \<le> n' \<and> n' \<le> n" "\<not> has_encoder_inputs q \<Longrightarrow> n' = n"
  using assms encoder_inputs_tokens [where L = L and cfg = cfg and req = q and computed = computed and n = n
      and budget = b and w = w and ins = ins and n' = n' and budget' = b' and ext = ext and w' = w']
  by (auto simp del: if_split split: if_split_asm)

lemma plan_waiting_bounds:
  assumes "plan_waiting L cfg dfr r h s loc = Inr (Some (ins, n, b1, ext, pad), s')"
    and "sizes_ok L cfg" and "\<not> h_async h"
  shows "0 < n \<and> n \<le> token_budget loc"
  using assms(1)
proof (cases rule: plan_waiting_cases)
  case (planned n0 pad' ins' n1 b1' ext' w)
  note b = waiting_tokens_bounds [OF planned(2)]
  have w: "window_ok L" "0 < cache_block_size cfg" using assms(2) by (simp_all add: sizes_ok_def)
  note e = waiting_encoder_bounds [OF planned(3) w(1) conjunct1 [OF b]]
  from planned(5) have z: "\<not> (has_encoder_inputs (store s r) \<and> n1 = 0)"
    and a: "align_waiting cfg (store s r) h n1 = Some n"
    by (cases "align_waiting cfg (store s r) h n1"; auto split: if_splits)+
  have n1: "0 < n1 \<and> n1 \<le> token_budget loc" using e b z by auto
  from a have "n = n1 \<or> n \<noteq> 0 \<and>
      n = mamba_block_aligned_split cfg (store s r) n1 (h_local h) (h_external h) (h_common h)"
    by (auto simp: align_waiting_def Let_def split: if_splits)
  with n1 mamba_split_le [OF w(2), of "store s r" n1] mamba_split_nonneg [OF w(2), of n1 "store s r"]
  show ?thesis by (metis le_less_trans linorder_not_less nless_le order.trans)
qed (use assms in auto)

section \<open>The body of the loop\<close>

text \<open>
  \<open>k\<close> is the queue of requests set aside in this pass. \<open>M\<close> bounds the running requests, \<open>C\<close> the
  in-flight prefills.
\<close>

definition scheduled_reqs :: "'b step \<Rightarrow> rid list" where
  "scheduled_reqs loc = scheduled_running_reqs loc @ scheduled_new_reqs loc @ scheduled_resumed_reqs loc"

definition wait_inv ::
  "('w, 'b, 'q) vllm \<Rightarrow> config \<Rightarrow> int \<Rightarrow> int \<Rightarrow> int \<Rightarrow> ('w, 'q) sched \<Rightarrow> 'b step \<Rightarrow> 'q \<Rightarrow> bool" where
  "wait_inv L cfg B M C s loc k \<longleftrightarrow>
     sched_ok_with L (mset (q_list (que L) k)) s \<and>
     distinct (scheduled_reqs loc) \<and> set (scheduled_reqs loc) \<subseteq> set (running s) \<and>
     distinct (map fst (num_scheduled_tokens loc)) \<and>
     set (map fst (num_scheduled_tokens loc)) = set (scheduled_reqs loc) \<and>
     total_scheduled loc + token_budget loc = B \<and> 0 \<le> token_budget loc \<and>
     (\<forall>n \<in> set (map snd (num_scheduled_tokens loc)). 0 < n) \<and>
     int (length (running s)) \<le> M \<and>
     (0 < max_num_partial_prefills cfg \<longrightarrow> int (card (inflight_prefills s)) \<le> C)"

lemma pop_from_facts:
  assumes "queue_laws (que L)" and "pop_from L sk s = Inr (r, s')"
  shows "peek_from L sk s = Inr r" "queued_mset L s = add_mset r (queued_mset L s')"
    "\<exists>w k. s' = s\<lparr>waiting := w, skipped_waiting := k\<rparr>"
proof -
  show "peek_from L sk s = Inr r" "queued_mset L s = add_mset r (queued_mset L s')"
    using assms(2) queue_pop [OF assms(1)]
    by (auto simp: pop_from_def peek_from_def queued_mset_def split: if_splits option.splits)
  have "s' = s\<lparr>waiting := waiting s', skipped_waiting := skipped_waiting s'\<rparr>"
    using assms(2) by (cases s) (auto simp: pop_from_def split: if_splits option.splits)
  then show "\<exists>w k. s' = s\<lparr>waiting := w, skipped_waiting := k\<rparr>" by blast
qed

lemma peek_cong:
  "waiting s' = waiting s \<Longrightarrow> skipped_waiting s' = skipped_waiting s \<Longrightarrow> peek_from L sk s' = peek_from L sk s"
  by (simp add: peek_from_def)

lemma sched_ok_move:
  assumes "sched_ok_with L K s" and "running s' = running s" and "queued_mset L s' + K' = queued_mset L s + K"
    and "store s' = store s" "requests s' = requests s" "finite (inflight_prefills s')"
    "num_waiting_for_streaming_input s' = num_waiting_for_streaming_input s"
  shows "sched_ok_with L K' s'"
proof -
  have e: "mset (running s) + queued_mset L s' + K' = mset (running s) + queued_mset L s + K"
    using assms(3) by (simp add: add.assoc)
  show ?thesis
    using assms(1) unfolding sched_ok_with_def assms(2,4,5,7) e assms(3) using assms(6) by blast
qed

lemma skip_request_ok:
  assumes "queue_laws (que L)" and "sched_ok_with L (mset (q_list (que L) k)) s"
    and "peek_from L sk s = Inr r" and "skip_request L sk r s k = Inr (s', k')"
  shows "sched_ok_with L (mset (q_list (que L) k')) s' \<and> running s' = running s \<and>
     inflight_prefills s' = inflight_prefills s \<and> num_waiting_for_streaming_input s' = num_waiting_for_streaming_input s \<and>
     size (queued_mset L s) = Suc (size (queued_mset L s'))"
proof -
  from assms(4) obtain r' where p: "pop_from L sk s = Inr (r', s')"
    and k: "k' = q_prepend (que L) (store s') r k"
    by (auto simp: skip_request_def exc_simps)
  note f = pop_from_facts [OF assms(1) p]
  have r: "r' = r" using f(1) assms(3) by simp
  have m: "queued_mset L s' + mset (q_list (que L) k') = queued_mset L s + mset (q_list (que L) k)"
    using f(2) k queue_lawsD(3) [OF assms(1)] r by simp
  obtain w q where s': "s' = s\<lparr>waiting := w, skipped_waiting := q\<rparr>" using f(3) by blast
  have "sched_ok_with L (mset (q_list (que L) k')) s'"
    by (rule sched_ok_move [OF assms(2) _ m]) (use s' sched_okD(8) [OF assms(2)] in simp_all)
  then show ?thesis using s' f(2) by simp
qed

lemma queued_of_peek:
  assumes "queue_laws (que L)" and "peek_from L sk s = Inr r"
  shows "r \<in># queued_mset L s"
proof -
  let ?q = "if sk then skipped_waiting s else waiting s"
  have "q_peek (que L) ?q = Some r" using assms(2) by (auto simp: peek_from_def split: option.splits)
  then obtain q' where "mset (q_list (que L) ?q) = add_mset r (mset (q_list (que L) q'))"
    using queue_pop_cases [OF assms(1), where q = ?q and st = "store s"]
    by (cases "q_pop (que L) (store s) ?q") (auto simp del: if_split)
  then have "r \<in> set (q_list (que L) ?q)" by (metis set_mset_mset union_single_eq_member)
  then show ?thesis by (auto simp: queued_mset_def split: if_splits)
qed

text \<open>A request set aside starts to run.\<close>

lemma sched_ok_start:
  assumes "sched_ok_with L (add_mset r K) s" and "status (store s r) \<noteq> WAITING_FOR_STREAMING_REQ"
    and "running s' = running s @ [r]" "waiting s' = waiting s" "skipped_waiting s' = skipped_waiting s"
    "requests s' = requests s" "finite (inflight_prefills s')"
    "num_waiting_for_streaming_input s' = num_waiting_for_streaming_input s"
    and "\<And>x. x \<noteq> r \<Longrightarrow> store s' x = store s x" and "status (store s' r) = RUNNING"
  shows "sched_ok_with L K s'"
proof -
  have q: "queued_mset L s' = queued_mset L s" using assms(4,5) by (simp add: queued_mset_def)
  have e: "mset (running s @ [r]) + queued_mset L s + K = mset (running s) + queued_mset L s + add_mset r K"
    by simp
  have "count (queued_mset L s + K) r = 0" using sched_okD(1) [OF assms(1), of r] by simp
  then have nq: "r \<notin># queued_mset L s + K" by (simp only: count_eq_zero_iff not_False_eq_True)
  have st: "store s' x = store s x" if "x \<in># queued_mset L s + K" for x
  proof (rule assms(9))
    show "x \<noteq> r" using that nq by metis
  qed
  have "filter_mset (\<lambda>x. status (store s' x) = WAITING_FOR_STREAMING_REQ) (queued_mset L s + K)
      = filter_mset (\<lambda>x. status (store s x) = WAITING_FOR_STREAMING_REQ) (queued_mset L s + K)"
    by (rule filter_mset_cong [OF refl]) (simp add: st)
  also have "\<dots> = filter_mset (\<lambda>x. status (store s x) = WAITING_FOR_STREAMING_REQ) (queued_mset L s + add_mset r K)"
    using assms(2) by simp
  finally have "filter_mset (\<lambda>x. status (store s' x) = WAITING_FOR_STREAMING_REQ) (queued_mset L s + K)
      = filter_mset (\<lambda>x. status (store s x) = WAITING_FOR_STREAMING_REQ) (queued_mset L s + add_mset r K)" .
  moreover have "status (store s' x) = RUNNING" if "x \<in> set (running s @ [r])" for x
    using that sched_okD(6) [OF assms(1), of x] assms(9) [of x] assms(10) by (cases "x = r") auto
  moreover have "\<forall>x \<in># queued_mset L s + K. \<not> is_finished (status (store s' x)) \<and> status (store s' x) \<noteq> RUNNING"
    using sched_okD(7) [OF assms(1)] st by auto
  moreover have "\<forall>x \<in> set (requests s). is_finished (status (store s' x)) \<or>
      x \<in># mset (running s) + queued_mset L s + add_mset r K"
  proof
    fix x assume "x \<in> set (requests s)"
    with sched_okD(10) [OF assms(1), of x] assms(9)
    show "is_finished (status (store s' x)) \<or> x \<in># mset (running s) + queued_mset L s + add_mset r K"
      by (cases "x = r") auto
  qed
  ultimately show ?thesis
    using assms(1,7) unfolding sched_ok_with_def q assms(3,6,8) e by simp
qed

lemma park_ok:
  assumes "queue_laws (que L)" and "sched_ok_with L (add_mset r (mset (q_list (que L) k))) s"
    and "status (store s r) \<noteq> WAITING_FOR_STREAMING_REQ" and "park_loading L r h s k = (s', k')"
  shows "sched_ok_with L (mset (q_list (que L) k')) s'"
proof -
  have "mset (q_list (que L) k') = add_mset r (mset (q_list (que L) k))"
    using assms(4) queue_lawsD(3) [OF assms(1)] by (auto simp: park_loading_def Let_def)
  moreover have "sched_ok_with L (add_mset r (mset (q_list (que L) k))) s'"
    by (rule sched_ok_status [OF assms(2), where r = r])
      (use assms(3,4) sched_okD(8) [OF assms(2)] in \<open>auto simp: park_loading_def Let_def\<close>)
  ultimately show ?thesis by simp
qed

lemma admit_running_facts:
  assumes "admit_running L cfg r h (ins, n, b1, ext, pad) s loc = Inr (s', loc')"
  shows "running s' = running s @ [r]" "waiting s' = waiting s" "skipped_waiting s' = skipped_waiting s"
    "requests s' = requests s" "num_waiting_for_streaming_input s' = num_waiting_for_streaming_input s"
    "inflight_prefills s' \<subseteq> insert r (inflight_prefills s)"
    "status (store s' r) = RUNNING" "x \<noteq> r \<Longrightarrow> store s' x = store s x"
    "num_scheduled_tokens loc' = dict_put r n (num_scheduled_tokens loc)"
    "token_budget loc' = token_budget loc - n"
    "mset (scheduled_reqs loc') = add_mset r (mset (scheduled_reqs loc))"
    "pause_state s' = pause_state s"
  using assms
  by (auto simp: admit_running_def Let_def exc_simps scheduled_reqs_def split: if_splits)

lemma allocate_waiting_cases:
  assumes "allocate_waiting L cfg sk r h (ins, n, b1, ext, pad) s loc k = Inr (go, s', loc', k')"
  obtains (full) w where "\<not> go" "s' = s\<lparr>world := w\<rparr>" "loc' = loc" "k' = k"
  | (loading) w r' s1 where "go" "h_async h" "pop_from L sk (s\<lparr>world := w\<rparr>) = Inr (r', s1)"
      "park_loading L r' h s1 k = (s', k')" "loc' = loc"
  | (admitted) w r' s1 where "go" "\<not> h_async h" "pop_from L sk (s\<lparr>world := w\<rparr>) = Inr (r', s1)"
      "admit_running L cfg r' h (ins, n, b1, ext, pad) s1 loc = Inr (s', loc')" "k' = k"
proof -
  obtain a w where a: "kv_allocate_slots (kv L) (store s r)
      (waiting_alloc_args L cfg (store s r) h ins n s) (world s) = (a, w)" by fastforce
  show thesis
  proof (cases a)
    case None
    with assms a show thesis by (intro full) (auto simp: allocate_waiting_def Let_def)
  next
    case (Some b)
    define w' where "w' = (if has_connector cfg
       then conn_update_state_after_alloc (conn L) (store s r) (kv_get_blocks (kv L) r w) (h_external h) w else w)"
    have "bindE (pop_from L sk (s\<lparr>world := w'\<rparr>)) (\<lambda>(r', s3).
                  if h_async h then
                    (case park_loading L r' h s3 k of (s4, step_skipped') \<Rightarrow> Inr (True, s4, loc, step_skipped'))
                  else bindE (admit_running L cfg r' h (ins, n, b1, ext, pad) s3 loc) (\<lambda>(s4, loc1).
                         Inr (True, s4, loc1, k))) = Inr (go, s', loc', k')"
      using assms a Some by (auto simp: allocate_waiting_def Let_def w'_def split: if_splits)
    then obtain r' s1 where p: "pop_from L sk (s\<lparr>world := w'\<rparr>) = Inr (r', s1)"
      and c: "(if h_async h then
                    (case park_loading L r' h s1 k of (s4, step_skipped') \<Rightarrow> Inr (True, s4, loc, step_skipped'))
                  else bindE (admit_running L cfg r' h (ins, n, b1, ext, pad) s1 loc) (\<lambda>(s4, loc1).
                         Inr (True, s4, loc1, k))) = Inr (go, s', loc', k')"
      by (auto simp: exc_simps simp del: if_split)
    show thesis
    proof (cases "h_async h")
      case True
      with c show thesis by (intro loading [OF _ True p]) (auto split: prod.splits)
    next
      case False
      with c show thesis by (intro admitted [OF _ False p]) (auto simp: exc_simps)
    qed
  qed
qed

text \<open>The part of the invariant that does not speak of the queues.\<close>

definition step_ok :: "config \<Rightarrow> int \<Rightarrow> int \<Rightarrow> int \<Rightarrow> rid list \<Rightarrow> rid set \<Rightarrow> 'b step \<Rightarrow> bool" where
  "step_ok cfg B M C run inflight loc \<longleftrightarrow>
     distinct (scheduled_reqs loc) \<and> set (scheduled_reqs loc) \<subseteq> set run \<and>
     distinct (map fst (num_scheduled_tokens loc)) \<and>
     set (map fst (num_scheduled_tokens loc)) = set (scheduled_reqs loc) \<and>
     total_scheduled loc + token_budget loc = B \<and> 0 \<le> token_budget loc \<and>
     (\<forall>n \<in> set (map snd (num_scheduled_tokens loc)). 0 < n) \<and>
     int (length run) \<le> M \<and>
     (0 < max_num_partial_prefills cfg \<longrightarrow> int (card inflight) \<le> C)"

lemma wait_inv_iff:
  "wait_inv L cfg B M C s loc k \<longleftrightarrow>
     sched_ok_with L (mset (q_list (que L) k)) s \<and> step_ok cfg B M C (running s) (inflight_prefills s) loc"
  by (auto simp: wait_inv_def step_ok_def)

lemma card_insert_bound:
  "finite A \<Longrightarrow> A' \<subseteq> insert r A \<Longrightarrow> int (card A) < C \<Longrightarrow> int (card A') \<le> C"
  using card_mono [of "insert r A" A'] card_insert_le_m1 [of "Suc (card A)" A r] by (auto simp: card_insert_if split: if_splits)

lemma step_ok_admit:
  assumes "step_ok cfg B M C run inflight loc" and "r \<notin> set run" and "0 < n" "n \<le> token_budget loc"
    and "num_scheduled_tokens loc' = dict_put r n (num_scheduled_tokens loc)"
    and "token_budget loc' = token_budget loc - n"
    and "mset (scheduled_reqs loc') = add_mset r (mset (scheduled_reqs loc))"
    and "finite inflight" "inflight' \<subseteq> insert r inflight"
    and "int (length run) < M" and "0 < max_num_partial_prefills cfg \<longrightarrow> int (card inflight) < C"
  shows "step_ok cfg B M C (run @ [r]) inflight' loc'"
proof -
  have k: "r \<notin> set (map fst (num_scheduled_tokens loc))" "r \<notin> set (scheduled_reqs loc)"
    using assms(1,2) by (auto simp: step_ok_def)
  then have t: "num_scheduled_tokens loc' = num_scheduled_tokens loc @ [(r, n)]"
    using assms(5) by (simp add: dict_put_fresh)
  have m: "mset (scheduled_reqs loc') = mset (r # scheduled_reqs loc)" using assms(7) by simp
  have "set (scheduled_reqs loc') = insert r (set (scheduled_reqs loc))" using mset_eq_setD [OF m] by simp
  moreover have "distinct (scheduled_reqs loc')"
    using mset_eq_imp_distinct_iff [OF m] k assms(1) by (simp add: step_ok_def)
  moreover have "0 < max_num_partial_prefills cfg \<longrightarrow> int (card inflight') \<le> C"
    using card_insert_bound [OF assms(8,9)] assms(11) by simp
  moreover have "map fst (num_scheduled_tokens loc') = map fst (num_scheduled_tokens loc) @ [r]"
    "set (map snd (num_scheduled_tokens loc')) = insert n (set (map snd (num_scheduled_tokens loc)))"
    "total_scheduled loc' = total_scheduled loc + n"
    using t by (simp_all add: total_scheduled_def)
  moreover have "distinct (map fst (num_scheduled_tokens loc))"
    "set (map fst (num_scheduled_tokens loc)) = set (scheduled_reqs loc)"
    "set (scheduled_reqs loc) \<subseteq> set run" "total_scheduled loc + token_budget loc = B"
    "\<forall>n \<in> set (map snd (num_scheduled_tokens loc)). 0 < n"
    using assms(1) unfolding step_ok_def by blast+
  ultimately show ?thesis
    using assms(3,4,6,10) k(1) unfolding step_ok_def
    by (intro conjI) (simp_all add: subset_insertI2)
qed

lemma step_ok_inflight:
  assumes "step_ok cfg B M C run inflight loc" and "finite inflight" "inflight' \<subseteq> insert r inflight"
    and "0 < max_num_partial_prefills cfg \<longrightarrow> int (card inflight) < C"
  shows "step_ok cfg B M C run inflight' loc"
  using assms card_insert_bound [OF assms(2,3)] by (auto simp: step_ok_def)

lemma pop_from_ok:
  assumes "queue_laws (que L)" and "sched_ok_with L k s" and "peek_from L sk s = Inr r"
    and p: "pop_from L sk (s\<lparr>world := w\<rparr>) = Inr (r', s1)"
  shows "r' = r \<and> sched_ok_with L (add_mset r k) s1 \<and> running s1 = running s \<and>
      inflight_prefills s1 = inflight_prefills s \<and> store s1 = store s \<and>
      size (queued_mset L s) = Suc (size (queued_mset L s1)) \<and> r \<notin> set (running s)"
proof -
  note f = pop_from_facts [OF assms(1) p] and ok = assms(2)
  have r: "r' = r" using f(1) assms(3) peek_cong [of "s\<lparr>world := w\<rparr>" s L sk] by simp
  obtain x y where s1: "s1 = s\<lparr>world := w, waiting := x, skipped_waiting := y\<rparr>" using f(3) by auto
  have q: "queued_mset L s = add_mset r (queued_mset L s1)" using f(2) r by (simp add: queued_mset_def)
  have "sched_ok_with L (add_mset r k) s1"
    by (rule sched_ok_move [OF ok]) (use s1 q sched_okD(8) [OF ok] in simp_all)
  moreover have "r \<notin> set (running s)"
    using sched_okD(7) [OF ok, of r] sched_okD(6) [OF ok, of r] q by auto
  ultimately show ?thesis using r s1 q by simp
qed

lemma allocate_waiting_inv:
  assumes "sizes_ok L cfg" and "wait_inv L cfg B M C s loc k"
    and "int (length (running s)) < M" and "0 < max_num_partial_prefills cfg \<longrightarrow> int (card (inflight_prefills s)) < C"
    and "peek_from L sk s = Inr r" and "status (store s r) \<in> {WAITING, PREEMPTED}"
    and "h_async h \<or> 0 < n \<and> n \<le> token_budget loc"
    and "allocate_waiting L cfg sk r h (ins, n, b1, ext, pad) s loc k = Inr (go, s', loc', k')"
  shows "wait_inv L cfg B M C s' loc' k' \<and> (go \<longrightarrow> size (queued_mset L s) = Suc (size (queued_mset L s')))"
proof -
  have Q: "queue_laws (que L)" using assms(1) by (simp add: sizes_ok_def)
  have ok: "sched_ok_with L (mset (q_list (que L) k)) s"
    and st: "step_ok cfg B M C (running s) (inflight_prefills s) loc"
    using assms(2) by (simp_all add: wait_inv_iff)
  note popped = pop_from_ok [OF Q ok assms(5)]
  show ?thesis
    using assms(8)
  proof (cases rule: allocate_waiting_cases)
    case (full w)
    with assms(2) show ?thesis by (simp add: wait_inv_iff)
  next
    case (loading w r' s1)
    note p = popped [OF loading(3)]
    have "sched_ok_with L (mset (q_list (que L) k')) s'"
      by (rule park_ok [OF Q, where r = r and s = s1]) (use p loading(4) assms(6) in auto)
    moreover have "step_ok cfg B M C (running s') (inflight_prefills s') loc'"
      using step_ok_inflight [OF st sched_okD(8) [OF ok] _ assms(4), of "inflight_prefills s'" r] p loading(4,5)
      by (auto simp: park_loading_def Let_def)
    moreover have "queued_mset L s' = queued_mset L s1"
      using loading(4) by (auto simp: park_loading_def Let_def queued_mset_def)
    ultimately show ?thesis using p by (simp add: wait_inv_iff)
  next
    case (admitted w r' s1)
    note p = popped [OF admitted(3)]
    note f = admit_running_facts [OF admitted(4)]
    have fin: "finite (inflight_prefills s')"
      using f(6) p sched_okD(8) [OF ok] by (auto intro: finite_subset)
    have "sched_ok_with L (mset (q_list (que L) k)) s'"
    proof (rule sched_ok_start [where r = r and s = s1])
      show "status (store s1 r) \<noteq> WAITING_FOR_STREAMING_REQ" using p assms(6) by auto
      show "store s' x = store s1 x" if "x \<noteq> r" for x using f(8) p that by simp
    qed (use p f(1-5,7) fin in simp_all)
    then have "sched_ok_with L (mset (q_list (que L) k')) s'" using admitted(5) by simp
    moreover have "step_ok cfg B M C (running s') (inflight_prefills s') loc'"
    proof -
      have "step_ok cfg B M C (running s @ [r]) (inflight_prefills s') loc'"
      proof (rule step_ok_admit [OF st])
        show "num_scheduled_tokens loc' = dict_put r n (num_scheduled_tokens loc)"
          "mset (scheduled_reqs loc') = add_mset r (mset (scheduled_reqs loc))"
          "inflight_prefills s' \<subseteq> insert r (inflight_prefills s)"
          using f(6,9,11) p by simp_all
        show "0 < n" "n \<le> token_budget loc" using assms(7) admitted(2) by simp_all
      qed (use p f(10) assms(3,4) sched_okD(8) [OF ok] in simp_all)
      then show ?thesis using f(1) p by simp
    qed
    moreover have "queued_mset L s' = queued_mset L s1" using f(2,3) by (simp add: queued_mset_def)
    ultimately show ?thesis using p by (simp add: wait_inv_iff)
  qed
qed

abbreviation promotion ::
  "('w, 'b, 'q) vllm \<Rightarrow> config \<Rightarrow> rid \<Rightarrow> ('w, 'q) sched \<Rightarrow> (bool \<times> ('w, 'q) sched) res" where
  "promotion L cfg r s \<equiv>
     (if is_blocked_waiting_status (status (store s r))
      then try_promote_blocked_waiting_request L cfg r s else Inr (True, s))"

lemma promotion_facts:
  assumes "promotion L cfg r s = Inr (ready, s')" and "sched_ok_with L K s" and "r \<in># queued_mset L s + K"
  shows "sched_ok_with L K s'" "running s' = running s" "waiting s' = waiting s"
    "skipped_waiting s' = skipped_waiting s" "inflight_prefills s' = inflight_prefills s"
    "num_waiting_for_streaming_input s' = num_waiting_for_streaming_input s" "pause_state s' = pause_state s"
    "ready \<Longrightarrow> status (store s' r) \<in> {WAITING, PREEMPTED}"
proof -
  note q = sched_okD(7) [OF assms(2,3)]
  have "sched_ok_with L K s' \<and> running s' = running s \<and> waiting s' = waiting s \<and>
    skipped_waiting s' = skipped_waiting s \<and> inflight_prefills s' = inflight_prefills s \<and>
    num_waiting_for_streaming_input s' = num_waiting_for_streaming_input s \<and> pause_state s' = pause_state s \<and>
    (ready \<longrightarrow> status (store s' r) \<in> {WAITING, PREEMPTED})"
  proof (cases "is_blocked_waiting_status (status (store s r))")
    case True
    with assms(1) have p: "try_promote_blocked_waiting_request L cfg r s = Inr (ready, s')" by simp
    from promote_ok [OF assms(2,3) p] promote_facts [OF p] show ?thesis by auto
  next
    case False
    with assms(1) have "ready" "s' = s" by auto
    with q False assms(2) show ?thesis by (cases "status (store s r)") auto
  qed
  then show "sched_ok_with L K s'" "running s' = running s" "waiting s' = waiting s"
    "skipped_waiting s' = skipped_waiting s" "inflight_prefills s' = inflight_prefills s"
    "num_waiting_for_streaming_input s' = num_waiting_for_streaming_input s" "pause_state s' = pause_state s"
    "ready \<Longrightarrow> status (store s' r) \<in> {WAITING, PREEMPTED}" by blast+
qed

lemma wait_step_cases:
  assumes "wait_step L cfg dfr sk s loc k = Inr (go, s', loc', k')"
  obtains
    (skip) r s1 where "peek_from L sk s = Inr r" "promotion L cfg r s = Inr (False, s1) \<or>
        promotion L cfg r s = Inr (True, s1)" "skip_request L sk r s1 k = Inr (s', k')" "go" "loc' = loc"
  | (uncached) r s1 s2 where "peek_from L sk s = Inr r" "promotion L cfg r s = Inr (True, s1)"
      "lookup_cached L cfg r s1 = Inr (None, s2)" "skip_request L sk r s2 k = Inr (s', k')" "go" "loc' = loc"
  | (closed) r s1 h s2 where "peek_from L sk s = Inr r" "promotion L cfg r s = Inr (True, s1)"
      "lookup_cached L cfg r s1 = Inr (Some h, s2)"
      "plan_waiting L cfg dfr r h s2 loc = Inr (None, s')" "\<not> go" "loc' = loc" "k' = k"
  | (allocate) r s1 h s2 ins n b1 ext pad s3 where "peek_from L sk s = Inr r" "promotion L cfg r s = Inr (True, s1)"
      "lookup_cached L cfg r s1 = Inr (Some h, s2)"
      "plan_waiting L cfg dfr r h s2 loc = Inr (Some (ins, n, b1, ext, pad), s3)"
      "allocate_waiting L cfg sk r h (ins, n, b1, ext, pad) s3 loc k = Inr (go, s', loc', k')"
proof -
  from assms obtain r ready s1 where r: "peek_from L sk s = Inr r" and p: "promotion L cfg r s = Inr (ready, s1)"
    and c: "(if \<not> ready \<or> exceeds_loras cfg (store s1 r) loc then
         bindE (skip_request L sk r s1 k) (\<lambda>(s2, k). Inr (True, s2, loc, k))
       else
         bindE (lookup_cached L cfg r s1) (\<lambda>(found, s2).
           case found of
             None \<Rightarrow> bindE (skip_request L sk r s2 k) (\<lambda>(s3, k). Inr (True, s3, loc, k))
           | Some h \<Rightarrow>
               bindE (plan_waiting L cfg dfr r h s2 loc) (\<lambda>(plan, s3).
                 case plan of
                   None \<Rightarrow> Inr (False, s3, loc, k)
                 | Some p \<Rightarrow> allocate_waiting L cfg sk r h p s3 loc k))) = Inr (go, s', loc', k')"
    by (auto simp: wait_step_def exc_simps simp del: if_split)
  show thesis
  proof (cases "\<not> ready \<or> exceeds_loras cfg (store s1 r) loc")
    case True
    with c p r show thesis by (cases ready) (auto simp: exc_simps intro: skip [of r s1])
  next
    case False
    then have p: "promotion L cfg r s = Inr (True, s1)" using p by simp
    from False c obtain found s2 where l: "lookup_cached L cfg r s1 = Inr (found, s2)"
      by (auto simp: exc_simps)
    show thesis
    proof (cases found)
      case None
      with c False l show thesis by (intro uncached [OF r p, of s2]) (auto simp: exc_simps)
    next
      case (Some h)
      with c False l obtain plan s3 where q: "plan_waiting L cfg dfr r h s2 loc = Inr (plan, s3)"
        by (auto simp: exc_simps)
      note lh = l [unfolded Some]
      show thesis
      proof (cases plan)
        case None
        with c False lh q Some show thesis by (intro closed [OF r p lh]) auto
      next
        case (Some pl)
        obtain ins n b1 ext pad where "pl = (ins, n, b1, ext, pad)" by (metis prod_cases5)
        with c False lh q Some show thesis by (intro allocate [OF r p lh, of ins n b1 ext pad s3]) auto
      qed
    qed
  qed
qed

lemma wait_step_inv:
  assumes "sizes_ok L cfg" and "wait_inv L cfg B M C s loc k"
    and "int (length (running s)) < M" and "0 < max_num_partial_prefills cfg \<longrightarrow> int (card (inflight_prefills s)) < C"
    and "wait_step L cfg dfr sk s loc k = Inr (go, s', loc', k')"
  shows "wait_inv L cfg B M C s' loc' k' \<and> (go \<longrightarrow> size (queued_mset L s) = Suc (size (queued_mset L s')))"
proof -
  have Q: "queue_laws (que L)" using assms(1) by (simp add: sizes_ok_def)
  let ?K = "mset (q_list (que L) k)"
  have ok: "sched_ok_with L ?K s" using assms(2) by (simp add: wait_inv_iff)
  have pk: "r \<in># queued_mset L s + ?K" if "peek_from L sk s = Inr r" for r
    using queued_of_peek [OF Q that] by simp
  have skipped: "wait_inv L cfg B M C s' loc' k' \<and> (go \<longrightarrow> size (queued_mset L s) = Suc (size (queued_mset L s')))"
    if "skip_request L sk r s2 k = Inr (s', k')" "sched_ok_with L ?K s2" "peek_from L sk s2 = Inr r"
      "running s2 = running s" "inflight_prefills s2 = inflight_prefills s" "queued_mset L s2 = queued_mset L s"
      "loc' = loc" for s2 r
    using skip_request_ok [OF Q that(2,3,1)] that(4-7) assms(2) by (simp add: wait_inv_iff)
  have look: "sched_ok_with L ?K s2 \<and> peek_from L sk s2 = peek_from L sk s1 \<and> running s2 = running s1 \<and>
      inflight_prefills s2 = inflight_prefills s1 \<and> queued_mset L s2 = queued_mset L s1 \<and>
      (\<forall>x. status (store s2 x) = status (store s1 x))"
    if "lookup_cached L cfg r s1 = Inr (found, s2)" "sched_ok_with L ?K s1" for r s1 found s2
    using lookup_cached_frame [OF that(1)] sched_okD(8) [OF that(2)]
    by (auto intro: sched_ok_upd [OF that(2)] peek_cong simp: queued_mset_def)
  show ?thesis
    using assms(5)
  proof (cases rule: wait_step_cases)
    case (skip r s1)
    then obtain ready where p: "promotion L cfg r s = Inr (ready, s1)" by blast
    note f = promotion_facts [OF p ok pk [OF skip(1)]]
    show ?thesis
      by (rule skipped [OF skip(3) f(1)])
        (use f(2-5) skip(1,5) peek_cong [OF f(3,4), of L sk] in \<open>simp_all add: queued_mset_def\<close>)
  next
    case (uncached r s1 s2)
    note f = promotion_facts [OF uncached(2) ok pk [OF uncached(1)]]
    note l = look [OF uncached(3) f(1)]
    show ?thesis
      by (rule skipped [OF uncached(4)])
        (use f(2-5) l uncached(1,6) peek_cong [OF f(3,4), of L sk] in \<open>simp_all add: queued_mset_def\<close>)
  next
    case (closed r s1 h s2)
    note f = promotion_facts [OF closed(2) ok pk [OF closed(1)]]
    note l = look [OF closed(3) f(1)]
    obtain w where "s' = s2\<lparr>world := w\<rparr>" using plan_waiting_world [OF closed(4)] by blast
    with l f assms(2) closed show ?thesis by (simp add: wait_inv_iff)
  next
    case (allocate r s1 h s2 ins n b1 ext pad s3)
    note f = promotion_facts [OF allocate(2) ok pk [OF allocate(1)]]
    note l = look [OF allocate(3) f(1)]
    obtain w where w: "s3 = s2\<lparr>world := w\<rparr>" using plan_waiting_world [OF allocate(4)] by blast
    have same: "running s3 = running s" "inflight_prefills s3 = inflight_prefills s"
      "queued_mset L s3 = queued_mset L s"
      using w l f(2-5) by (simp_all add: queued_mset_def)
    have "wait_inv L cfg B M C s3 loc k" using assms(2) l w same by (simp add: wait_inv_iff)
    moreover have "peek_from L sk s3 = Inr r"
      using l allocate(1) peek_cong [OF f(3,4), of L sk] peek_cong [of s3 s2 L sk] w by simp
    moreover have "status (store s3 r) \<in> {WAITING, PREEMPTED}" using f(8) l w by simp
    moreover have "h_async h \<or> 0 < n \<and> n \<le> token_budget loc"
      using plan_waiting_bounds [OF allocate(4) assms(1)] by blast
    ultimately show ?thesis
      using allocate_waiting_inv [OF assms(1) _ _ _ _ _ _ allocate(5), of B M C] assms(3,4) same by simp
  qed
qed

section \<open>The loop\<close>

text \<open>The gates of \<open>admission_closed\<close> keep room for one more request.\<close>

lemma admission_open:
  assumes "sched_ok_with L K s" and "\<not> admission_closed cfg s"
  shows "int (length (running s)) < max_num_running_reqs cfg"
    "0 < max_num_partial_prefills cfg \<longrightarrow> int (card (inflight_prefills s)) < max_num_partial_prefills cfg"
  using assms(2) sched_okD(9) [OF assms(1)] by (auto simp: admission_closed_def)

lemma wait_loop_inv:
  assumes "wait_loop L cfg dfr fuel s loc k = Inr (s', loc', k')" and "sizes_ok L cfg"
    and "wait_inv L cfg B M C s loc k"
    and "max_num_running_reqs cfg \<le> M" and "max_num_partial_prefills cfg \<le> C"
  shows "wait_inv L cfg B M C s' loc' k'"
  using assms
proof (induction fuel arbitrary: s loc k)
  case (Suc fuel)
  show ?case
  proof (cases "\<not> ((q_truthy L (waiting s) \<or> q_truthy L (skipped_waiting s)) \<and> 0 < token_budget loc) \<or>
         admission_closed cfg s")
    case True
    with Suc.prems(1,3) show ?thesis by (simp split: if_splits)
  next
    case False
    with Suc.prems(1) obtain sk go s1 loc1 k1 where
      st: "wait_step L cfg dfr sk s loc k = Inr (go, s1, loc1, k1)"
      and c: "(if go then wait_loop L cfg dfr fuel s1 loc1 k1 else Inr (s1, loc1, k1)) = Inr (s', loc', k')"
      by (auto simp: exc_simps simp del: if_split split: if_split_asm option.splits)
    have ok: "sched_ok_with L (mset (q_list (que L) k)) s" using Suc.prems(3) by (simp add: wait_inv_iff)
    have cl: "\<not> admission_closed cfg s" using False by blast
    note o = admission_open [OF ok cl]
    have "wait_inv L cfg B M C s1 loc1 k1"
      by (rule conjunct1 [OF wait_step_inv [OF Suc.prems(2,3) _ _ st]]) (use o Suc.prems(4,5) in auto)
    with Suc.IH c Suc.prems(2,4,5) show ?thesis by (cases go) auto
  qed
qed simp

end
