(* ===== verification/SchedStep.thy ===== *)
theory SchedStep
  imports SchedAdmit
begin

text \<open>
  Both loops of \<open>schedule\<close> together: what holds when they end, and that they end.
\<close>

section \<open>Between the loops\<close>

lemma run_inv_wait_inv:
  assumes "run_inv L cfg B idx s loc" and "q_list (que L) k = []"
    and "int (length (running s)) \<le> M"
    and "0 < max_num_partial_prefills cfg \<longrightarrow> int (card (inflight_prefills s)) \<le> C"
  shows "wait_inv L cfg B M C s loc k"
proof -
  have "set (take (nat idx) (running s)) \<subseteq> set (running s)" by (rule set_take_subset)
  with assms show ?thesis
    unfolding wait_inv_def run_inv_def by (auto simp: scheduled_reqs_def)
qed

lemma record_loras_same:
  assumes "record_loras cfg s loc = Inr loc'"
  shows "\<exists>ls. loc' = loc\<lparr>scheduled_loras := ls\<rparr>"
proof (cases "max_loras cfg")
  case None
  with assms have "loc' = loc\<lparr>scheduled_loras := scheduled_loras loc\<rparr>" by (simp add: record_loras_def)
  then show ?thesis by blast
qed (use assms in \<open>auto simp: record_loras_def Let_def exc_simps\<close>)

lemma wait_inv_loras: "wait_inv L cfg B M C s (loc\<lparr>scheduled_loras := ls\<rparr>) k = wait_inv L cfg B M C s loc k"
  by (simp add: wait_inv_def scheduled_reqs_def total_scheduled_def)

lemma wait_inv_empty:
  assumes "queue_laws (que L)" and "wait_inv L cfg B M C s loc k"
  shows "wait_inv L cfg B M C
    (if q_truthy L k then s\<lparr>skipped_waiting := q_prepend_all (que L) (store s) k (skipped_waiting s)\<rparr> else s)
    loc (q_empty (que L))"
proof (cases "q_truthy L k")
  case False
  with assms queue_lawsD(1) [OF assms(1)] show ?thesis by (simp add: wait_inv_iff q_truthy_def)
next
  case True
  let ?s = "s\<lparr>skipped_waiting := q_prepend_all (que L) (store s) k (skipped_waiting s)\<rparr>"
  have ok: "sched_ok_with L (mset (q_list (que L) k)) s" using assms(2) by (simp add: wait_inv_iff)
  have "sched_ok_with L {#} ?s"
    by (rule sched_ok_move [OF ok])
      (use sched_okD(8) [OF ok] queue_lawsD(4) [OF assms(1)] in \<open>simp_all add: queued_mset_def\<close>)
  with True assms(2) queue_lawsD(1) [OF assms(1)] show ?thesis by (simp add: wait_inv_iff)
qed

lemma wait_inv_capacity:
  "wait_inv L cfg B M C (s\<lparr>prefill_capacity_bound := b\<rparr>) loc k = wait_inv L cfg B M C s loc k"
  by (simp add: wait_inv_def sched_ok_with_def queued_mset_def)

lemma schedule_waiting_inv:
  assumes "schedule_waiting L cfg dfr s loc = Inr (s', loc')" and "sizes_ok L cfg"
    and "wait_inv L cfg B M C s loc (q_empty (que L))"
    and "max_num_running_reqs cfg \<le> M" and "max_num_partial_prefills cfg \<le> C"
  shows "wait_inv L cfg B M C s' loc' (q_empty (que L))"
proof (cases "preempted_reqs loc \<noteq> [] \<or> pause_state s \<noteq> UNPAUSED")
  case True
  with assms(1,3) show ?thesis by (simp add: schedule_waiting_def)
next
  case False
  with assms(1) obtain s1 k where
    w: "wait_loop L cfg dfr (Suc (queued L s)) s loc (q_empty (que L)) = Inr (s1, loc', k)"
    and s': "s' = (let s2 = (if q_truthy L k
                   then s1\<lparr>skipped_waiting := q_prepend_all (que L) (store s1) k (skipped_waiting s1)\<rparr> else s1)
         in if dfr then s2 else s2\<lparr>prefill_capacity_bound := q_truthy L (waiting s2)\<rparr>)"
    unfolding schedule_waiting_def by (auto simp: exc_simps Let_def simp del: wait_loop.simps)
  have Q: "queue_laws (que L)" using assms(2) by (simp add: sizes_ok_def)
  note i = wait_inv_empty [OF Q wait_loop_inv [OF w assms(2-5)]]
  show ?thesis unfolding s' Let_def using i by (simp add: wait_inv_capacity)
qed

section \<open>The constraints hold\<close>

lemma constraints_of_wait_inv:
  assumes "wait_inv L cfg B M C s loc k" and "B \<le> max_num_scheduled_tokens cfg" and "M \<le> max_num_running_reqs cfg"
  shows "constraints_ok cfg s loc"
proof -
  have "length (scheduled_reqs loc) \<le> length (running s)"
    using assms(1) card_mono [of "set (running s)" "set (scheduled_reqs loc)"]
    by (metis List.finite_set card_length distinct_card order.trans wait_inv_def)
  with assms show ?thesis
    by (auto simp: constraints_ok_def wait_inv_def scheduled_reqs_def)
qed

definition step_budget :: "config \<Rightarrow> ('w, 'q) sched \<Rightarrow> int" where
  "step_budget cfg s = (if pause_state s = PAUSED_ALL then 0 else max_num_scheduled_tokens cfg)"

text \<open>A state in which \<open>schedule\<close> can start.\<close>

definition schedulable :: "('w, 'b, 'q) vllm \<Rightarrow> config \<Rightarrow> ('w, 'q) sched \<Rightarrow> bool" where
  "schedulable L cfg s \<longleftrightarrow>
     sched_ok L s \<and> (\<forall>r \<in> set (running s). demand_ok cfg (store s r)) \<and>
     int (length (running s)) \<le> max_num_running_reqs cfg \<and> 0 \<le> max_num_scheduled_tokens cfg"

lemma begin_step_frame:
  "sched_ok L (begin_step L s) = sched_ok L s" "running (begin_step L s) = running s"
  "store (begin_step L s) = store s" "inflight_prefills (begin_step L s) = inflight_prefills s"
  "pause_state (begin_step L s) = pause_state s" "requests (begin_step L s) = requests s"
  by (simp_all add: begin_step_def sched_ok_with_def queued_mset_def)

lemma schedule_loops_inv:
  assumes "schedule_loops L cfg thr s = Inr (s', loc)" and "sizes_ok L cfg" and "schedulable L cfg s"
  shows "wait_inv L cfg (step_budget cfg s) (max_num_running_reqs cfg)
    (max (int (card (inflight_prefills s))) (max_num_partial_prefills cfg)) s' loc (q_empty (que L))"
proof -
  let ?s = "begin_step L s" and ?C = "max (int (card (inflight_prefills s))) (max_num_partial_prefills cfg)"
  from assms(1) obtain s1 loc1 loc2 where
    r: "run_loop L cfg (defers_prefills thr ?s) 0 ?s (initial_step cfg ?s) = Inr (s1, loc1)"
    and l: "record_loras cfg s1 loc1 = Inr loc2"
    and w: "schedule_waiting L cfg (defers_prefills thr ?s) s1 loc2 = Inr (s', loc)"
    by (auto simp: schedule_loops_def Let_def exc_simps)
  have "run_inv L cfg (step_budget cfg s) 0 ?s (initial_step cfg ?s)"
    using assms(3) unfolding schedulable_def
    by (auto simp: run_inv_def begin_step_frame initial_step_def total_scheduled_def step_budget_def)
  from run_loop_inv [OF r assms(2) this] obtain idx where
    i: "run_inv L cfg (step_budget cfg s) idx s1 loc1" by blast
  have sh: "shrinks ?s s1" using r by (rule run_loop_shrinks)
  have fin: "finite (inflight_prefills s)" using assms(3) sched_okD(8) by (auto simp: schedulable_def)
  have Q: "queue_laws (que L)" using assms(2) by (simp add: sizes_ok_def)
  have "int (length (running s1)) \<le> max_num_running_reqs cfg"
    using sh assms(3) by (simp add: shrinks_def begin_step_frame schedulable_def)
  moreover have "int (card (inflight_prefills s1)) \<le> ?C"
    using sh card_mono [OF fin, of "inflight_prefills s1"] by (simp add: shrinks_def begin_step_frame)
  ultimately have "wait_inv L cfg (step_budget cfg s) (max_num_running_reqs cfg) ?C s1 loc1 (q_empty (que L))"
    by (intro run_inv_wait_inv [OF i queue_lawsD(1) [OF Q]]) simp_all
  then have "wait_inv L cfg (step_budget cfg s) (max_num_running_reqs cfg) ?C s1 loc2 (q_empty (que L))"
    using record_loras_same [OF l] by (auto simp: wait_inv_loras)
  from schedule_waiting_inv [OF w assms(2) this] show ?thesis by simp
qed

section \<open>The loops end\<close>

text \<open>No operation of the admission loop uses fuel, so none answers \<open>FuelExhausted\<close>.\<close>

named_theorems fuel_free \<open>operations that never answer \<open>FuelExhausted\<close>\<close>

definition unfuelled :: "'a res \<Rightarrow> bool" where
  "unfuelled m \<longleftrightarrow> m \<noteq> Inl FuelExhausted"

lemma unfuelled_basic [simp]:
  "unfuelled (Inr x)" "unfuelled (Inl e) \<longleftrightarrow> e \<noteq> FuelExhausted" "unfuelled (assertE b)"
  by (simp_all add: unfuelled_def assertE_def)

lemma unfuelled_bind: "unfuelled m \<Longrightarrow> (\<And>x. m = Inr x \<Longrightarrow> unfuelled (f x)) \<Longrightarrow> unfuelled (bindE m f)"
  by (cases m) (auto simp: unfuelled_def)

lemma unfuelled_struct:
  "(b \<Longrightarrow> unfuelled x) \<Longrightarrow> (\<not> b \<Longrightarrow> unfuelled y) \<Longrightarrow> unfuelled (if b then x else y)"
  "(\<And>u v. p = (u, v) \<Longrightarrow> unfuelled (g u v)) \<Longrightarrow> unfuelled (case p of (u, v) \<Rightarrow> g u v)"
  "unfuelled (h z) \<Longrightarrow> unfuelled (Let z h)"
  by (auto split: prod.splits)

lemma unfuelled_item [fuel_free]: "unfuelled (encoder_item L cfg req c sh i st)"
  unfolding encoder_item_def by (intro unfuelled_struct unfuelled_bind) simp_all

lemma unfuelled_items [fuel_free]: "unfuelled (encoder_items L cfg req c sh is st)"
  by (induction "is" arbitrary: st) (auto intro!: unfuelled_bind fuel_free)

lemma unfuelled_encoder [fuel_free]: "unfuelled (try_schedule_encoder_inputs L cfg req c n b sh w)"
  by (auto simp: try_schedule_encoder_inputs_def intro!: unfuelled_bind fuel_free split: prod.splits)

lemma unfuelled_promote [fuel_free]: "unfuelled (try_promote_blocked_waiting_request L cfg r s)"
  by (auto simp: try_promote_blocked_waiting_request_def update_waiting_for_remote_kv_def Let_def
      intro!: unfuelled_bind split: request_status.splits)

lemma unfuelled_pop [fuel_free]: "unfuelled (pop_from L sk s)"
  by (auto simp: pop_from_def split: option.splits)

lemma unfuelled_peek [fuel_free]: "unfuelled (peek_from L sk s)"
  by (auto simp: peek_from_def split: option.splits)

lemma unfuelled_skip [fuel_free]: "unfuelled (skip_request L sk r s k)"
  by (auto simp: skip_request_def intro!: unfuelled_bind fuel_free)

lemma unfuelled_settle [fuel_free]: "unfuelled (settle_hit L cfg r h w s)"
  by (auto simp: settle_hit_def Let_def intro!: unfuelled_bind split: prod.splits)

lemma unfuelled_lookup [fuel_free]: "unfuelled (lookup_cached L cfg r s)"
  by (auto simp: lookup_cached_def lookup_fresh_def local_hit_def Let_def
      intro!: unfuelled_bind fuel_free split: prod.splits option.splits)

lemma unfuelled_tokens [fuel_free]: "unfuelled (waiting_tokens cfg dfr q c loc)"
  by (auto simp: waiting_tokens_def Let_def intro!: unfuelled_bind)

lemma unfuelled_plan [fuel_free]: "unfuelled (plan_waiting L cfg dfr r h s loc)"
  unfolding plan_waiting_def Let_def
  by (auto intro!: unfuelled_bind fuel_free split: option.splits prod.splits)

lemma unfuelled_admit [fuel_free]: "unfuelled (admit_running L cfg r h p s loc)"
  by (auto simp: admit_running_def Let_def intro!: unfuelled_bind split: prod.splits)

lemma unfuelled_allocate [fuel_free]: "unfuelled (allocate_waiting L cfg sk r h p s loc k)"
  unfolding allocate_waiting_def Let_def
  by (auto intro!: unfuelled_bind fuel_free split: option.splits prod.splits)

lemma unfuelled_wait_step [fuel_free]: "unfuelled (wait_step L cfg dfr sk s loc k)"
  unfolding wait_step_def
  by (auto intro!: unfuelled_bind fuel_free split: option.splits prod.splits)

lemma unfuelled_select [fuel_free]: "unfuelled (select_waiting_queue L cfg s)"
  by (auto simp: select_waiting_queue_def Let_def split: option.splits)

lemma queued_size: "queued L s = size (queued_mset L s)"
  by (simp add: queued_def queued_mset_def)

lemma wait_loop_fuel:
  assumes "sizes_ok L cfg" and "wait_inv L cfg B M C s loc k" and "queued L s < fuel"
    and "max_num_running_reqs cfg \<le> M" and "max_num_partial_prefills cfg \<le> C"
  shows "unfuelled (wait_loop L cfg dfr fuel s loc k)"
  using assms(2,3)
proof (induction fuel arbitrary: s loc k)
  case (Suc fuel)
  have ok: "sched_ok_with L (mset (q_list (que L) k)) s" using Suc.prems(1) by (simp add: wait_inv_iff)
  have go: "unfuelled (wait_loop L cfg dfr fuel s1 loc1 k1)"
    if st: "wait_step L cfg dfr sk s loc k = Inr (True, s1, loc1, k1)" and "\<not> admission_closed cfg s"
    for sk s1 loc1 k1
  proof -
    note o = admission_open [OF ok that(2)]
    have "wait_inv L cfg B M C s1 loc1 k1 \<and> (True \<longrightarrow> size (queued_mset L s) = Suc (size (queued_mset L s1)))"
      by (rule wait_step_inv [OF assms(1) Suc.prems(1) _ _ st]) (use o assms(4,5) in auto)
    with Suc show ?thesis by (simp add: queued_size)
  qed
  show ?case
    using go by (auto intro!: unfuelled_bind fuel_free split: option.splits prod.splits if_splits)
qed simp

lemma unfuelled_preempt [fuel_free]: "unfuelled (preempt_request L cfg r s)"
  by (auto simp: preempt_request_def Let_def intro!: unfuelled_bind)

lemma unfuelled_victim [fuel_free]: "unfuelled (preempt_victim L cfg idx s loc)"
  by (auto simp: preempt_victim_def Let_def intro!: unfuelled_bind fuel_free)

lemma unfuelled_or_preempt [fuel_free]: "unfuelled (allocate_or_preempt L cfg r n idx s loc)"
proof (induction L cfg r n idx s loc rule: allocate_or_preempt.induct)
  case (1 L cfg r n idx s loc)
  then show ?case
    by (subst allocate_or_preempt.simps) (auto intro!: unfuelled_bind fuel_free split: option.splits prod.splits)
qed

lemma unfuelled_run_plan [fuel_free]: "unfuelled (plan_running L cfg r s loc)"
  by (auto simp: plan_running_def Let_def intro!: unfuelled_bind fuel_free)

lemma unfuelled_run_step [fuel_free]: "unfuelled (run_step L cfg dfr idx s loc)"
  by (auto simp: run_step_def py_nth_def intro!: unfuelled_bind fuel_free split: option.splits prod.splits)

lemma unfuelled_run_loop [fuel_free]: "unfuelled (run_loop L cfg dfr idx s loc)"
proof (induction L cfg dfr idx s loc rule: run_loop.induct)
  case (1 L cfg dfr idx s loc)
  then show ?case
    by (subst run_loop.simps) (auto intro!: unfuelled_bind fuel_free split: prod.splits)
qed

lemma unfuelled_schedule:
  assumes "sizes_ok L cfg" and "schedulable L cfg s"
  shows "unfuelled (schedule_loops L cfg thr s)"
  unfolding schedule_loops_def Let_def
proof (intro unfuelled_bind unfuelled_struct)
  fix x y s1 loc1 loc2
  let ?s = "begin_step L s"
  assume "run_loop L cfg (defers_prefills thr ?s) 0 ?s (initial_step cfg ?s) = Inr x" "x = (s1, loc1)"
    and l: "record_loras cfg s1 loc1 = Inr loc2"
  then have r: "run_loop L cfg (defers_prefills thr ?s) 0 ?s (initial_step cfg ?s) = Inr (s1, loc1)" by simp
  have "run_inv L cfg (step_budget cfg s) 0 ?s (initial_step cfg ?s)"
    using assms(2) unfolding schedulable_def
    by (auto simp: run_inv_def begin_step_frame initial_step_def total_scheduled_def step_budget_def)
  from run_loop_inv [OF r assms(1) this] obtain idx where
    i: "run_inv L cfg (step_budget cfg s) idx s1 loc1" by blast
  have Q: "queue_laws (que L)" using assms(1) by (simp add: sizes_ok_def)
  have "wait_inv L cfg (step_budget cfg s) (max (int (length (running s1))) (max_num_running_reqs cfg))
      (max (int (card (inflight_prefills s1))) (max_num_partial_prefills cfg)) s1 loc2 (q_empty (que L))"
    using run_inv_wait_inv [OF i queue_lawsD(1) [OF Q]] record_loras_same [OF l] by (auto simp: wait_inv_loras)
  from wait_loop_fuel [OF assms(1) this, of "Suc (queued L s1)"]
  show "unfuelled (schedule_waiting L cfg (defers_prefills thr ?s) s1 loc2)"
    unfolding schedule_waiting_def Let_def by (auto intro!: unfuelled_bind simp del: wait_loop.simps)
qed (auto intro: fuel_free simp: record_loras_def Let_def intro!: unfuelled_bind split: option.splits)

end
