(* ===== verification/SchedOutput.thy ===== *)
theory SchedOutput
  imports SchedStep
begin

text \<open>
  The end of \<open>schedule\<close> (the scheduler output and \<open>_update_after_schedule\<close>), the grammar bitmask, and
  the draft-token updates.
\<close>

section \<open>Cached request data\<close>

text \<open>
  The iteration over \<open>chain(running_reqs, resumed_reqs)\<close>; \<open>resumed\<close> says that the request comes from
  the second list.
\<close>

definition add_cached_request ::
  "('w, 'b, 'q) vllm \<Rightarrow> config \<Rightarrow> ('w, 'q) sched \<Rightarrow> 'b step \<Rightarrow> bool \<Rightarrow> rid \<Rightarrow> cached_request_data \<Rightarrow>
   cached_request_data res" where
  "add_cached_request L cfg s loc resumed r d =
     (let q = store s r in
      case (map_of (num_scheduled_tokens loc) r, map_of (req_to_new_blocks loc) r) of
        (Some n, Some blocks) \<Rightarrow>
          (let spec = (case map_of (scheduled_spec_decode_tokens loc) r of None \<Rightarrow> [] | Some ts \<Rightarrow> ts);
               k = n - int (length spec)
           in Inr (d\<lparr>cd_req_ids := cd_req_ids d @ [r],
                     cd_new_token_ids :=
                       (if use_pp cfg \<and> \<not> async_scheduling cfg
                        then cd_new_token_ids d @ [py_slice (all_token_ids q) (num_computed_tokens q)
                                                     (num_computed_tokens q + k)]
                        else cd_new_token_ids d),
                     cd_resumed_req_ids :=
                       (if resumed then insert r (cd_resumed_req_ids d) else cd_resumed_req_ids d),
                     cd_all_token_ids :=
                       (if \<not> use_v2_model_runner cfg \<and> r \<notin> prev_step_scheduled_req_ids s
                        then dict_put r (all_token_ids q) (cd_all_token_ids d) else cd_all_token_ids d),
                     cd_new_block_ids := cd_new_block_ids d @ [kv_block_ids_of (kv L) blocks],
                     cd_num_computed_tokens := cd_num_computed_tokens d @ [num_computed_tokens q],
                     cd_num_output_tokens := cd_num_output_tokens d
                       @ [int (length (output_token_ids q)) + num_output_placeholders q]\<rparr>))
      | _ \<Rightarrow> Inl KeyError)"

fun add_cached_requests ::
  "('w, 'b, 'q) vllm \<Rightarrow> config \<Rightarrow> ('w, 'q) sched \<Rightarrow> 'b step \<Rightarrow> bool \<Rightarrow> rid list \<Rightarrow> cached_request_data \<Rightarrow>
   cached_request_data res" where
  "add_cached_requests L cfg s loc resumed [] d = Inr d"
| "add_cached_requests L cfg s loc resumed (r # rs) d =
     bindE (add_cached_request L cfg s loc resumed r d) (add_cached_requests L cfg s loc resumed rs)"

definition make_cached_request_data ::
  "('w, 'b, 'q) vllm \<Rightarrow> config \<Rightarrow> ('w, 'q) sched \<Rightarrow> 'b step \<Rightarrow> rid list \<Rightarrow> rid list \<Rightarrow>
   cached_request_data res" where
  "make_cached_request_data L cfg s loc running_reqs resumed_reqs =
     bindE (add_cached_requests L cfg s loc False running_reqs
              \<lparr>cd_req_ids = [], cd_resumed_req_ids = {}, cd_new_token_ids = [], cd_all_token_ids = [],
               cd_new_block_ids = [], cd_num_computed_tokens = [], cd_num_output_tokens = []\<rparr>)
       (add_cached_requests L cfg s loc True resumed_reqs)"

definition new_request_of ::
  "('w, 'b, 'q) vllm \<Rightarrow> config \<Rightarrow> ('w, 'q) sched \<Rightarrow> 'b step \<Rightarrow> rid \<Rightarrow> new_request_data res" where
  "new_request_of L cfg s loc r =
     (case map_of (req_to_new_blocks loc) r of
        None \<Rightarrow> Inl KeyError
      | Some blocks \<Rightarrow>
          Inr \<lparr>nr_req_id = r, nr_block_ids = kv_block_ids_of (kv L) blocks,
               nr_all_token_ids =
                 (if use_v2_model_runner cfg then Some (all_token_ids (store s r)) else None)\<rparr>)"

section \<open>After the step\<close>

definition after_schedule_one ::
  "config \<Rightarrow> rid \<times> int \<Rightarrow> bool \<times> ('w, 'q) sched \<Rightarrow> (bool \<times> ('w, 'q) sched) res" where
  "after_schedule_one cfg = (\<lambda>(r, n) (structured, s).
     (if r \<notin> set (requests s) then Inl KeyError
      else
        (let q0 = store s r;
             computed = num_computed_tokens q0 + n;
             chunk = (computed < num_tokens q0 + num_output_placeholders q0);
             q = q0\<lparr>num_computed_tokens := computed,
                    last_sched_seq := (if defer_block_free cfg then sched_step_seq s else last_sched_seq q0),
                    is_prefill_chunk := chunk\<rparr>;
             s1 = s\<lparr>store := (store s)(r := q)\<rparr>
         in Inr (structured \<or> (use_structured_output q \<and> \<not> chunk),
                 if chunk then s1 else s1\<lparr>inflight_prefills := inflight_prefills s1 - {r}\<rparr>))))"

fun after_schedule_each ::
  "config \<Rightarrow> (rid \<times> int) list \<Rightarrow> bool \<times> ('w, 'q) sched \<Rightarrow> (bool \<times> ('w, 'q) sched) res" where
  "after_schedule_each cfg [] st = Inr st"
| "after_schedule_each cfg (e # es) st = bindE (after_schedule_one cfg e st) (after_schedule_each cfg es)"

definition update_after_schedule ::
  "config \<Rightarrow> scheduler_output \<Rightarrow> ('w, 'q) sched \<Rightarrow> (scheduler_output \<times> ('w, 'q) sched) res" where
  "update_after_schedule cfg out s =
     bindE (after_schedule_each cfg (so_num_scheduled_tokens out) (so_has_structured_output_requests out, s))
       (\<lambda>(structured, s1).
          Inr (out\<lparr>so_has_structured_output_requests := structured\<rparr>,
               s1\<lparr>finished_req_ids := {}, reset_preempted_req_ids := {}\<rparr>))"

section \<open>The whole step\<close>

definition spec_tokens_to_schedule :: "config \<Rightarrow> 'b step \<Rightarrow> int res" where
  "spec_tokens_to_schedule cfg loc =
     (case dynamic_sd_lookup cfg of
        Some table \<Rightarrow>
          if num_scheduled_tokens loc \<noteq> [] then py_nth table (int (length (num_scheduled_tokens loc)))
          else Inr (num_spec_tokens cfg)
      | None \<Rightarrow> Inr (num_spec_tokens cfg))"

definition build_output ::
  "('w, 'b, 'q) vllm \<Rightarrow> config \<Rightarrow> ('w, 'q) sched \<Rightarrow> 'b step \<Rightarrow> (scheduler_output \<times> ('w, 'q) sched) res" where
  "build_output L cfg s loc =
     (let common = (case running s of
                      [] \<Rightarrow> replicate (num_kv_cache_groups cfg) 0
                    | r # _ \<Rightarrow> kv_common_prefix_blocks (kv L) r (world s));
          new_reqs = (if use_v2_model_runner cfg then scheduled_new_reqs loc @ scheduled_resumed_reqs loc
                      else scheduled_new_reqs loc);
          resumed = (if use_v2_model_runner cfg then [] else scheduled_resumed_reqs loc)
      in
      bindE (mapE (new_request_of L cfg s loc) new_reqs) (\<lambda>new_data.
      bindE (make_cached_request_data L cfg s loc (scheduled_running_reqs loc) resumed) (\<lambda>cached.
      (let s1 = (if use_v2_model_runner cfg then s
                 else s\<lparr>prev_step_scheduled_req_ids := set (map fst (num_scheduled_tokens loc))\<rparr>);
           (zero, s2) = (if needs_kv_cache_zeroing cfg
                         then (case kv_take_new_block_ids (kv L) (world s1) of
                                 (ids, w) \<Rightarrow> (if ids = [] then None else Some ids, s1\<lparr>world := w\<rparr>))
                         else (None, s1))
       in
       bindE (spec_tokens_to_schedule cfg loc) (\<lambda>num_spec.
       (case enc_freed_mm_hashes (enc L) (world s2) of
          (hashes, w) \<Rightarrow>
            Inr (\<lparr>so_scheduled_new_reqs = new_data,
                   so_scheduled_cached_reqs = cached,
                   so_num_scheduled_tokens = num_scheduled_tokens loc,
                   so_total_num_scheduled_tokens = total_scheduled loc,
                   so_scheduled_spec_decode_tokens = scheduled_spec_decode_tokens loc,
                   so_scheduled_encoder_inputs = scheduled_encoder_inputs loc,
                   so_num_common_prefix_blocks = common,
                   so_preempted_req_ids = reset_preempted_req_ids s2,
                   so_finished_req_ids = finished_req_ids s2,
                   so_free_encoder_mm_hashes = hashes,
                   so_new_block_ids_to_zero = zero,
                   so_num_spec_tokens_to_schedule = num_spec,
                   so_has_structured_output_requests = False,
                   so_num_invalid_spec_tokens = []\<rparr>, s2\<lparr>world := w\<rparr>)))))))"

definition finish_step ::
  "('w, 'b, 'q) vllm \<Rightarrow> config \<Rightarrow> scheduler_output \<Rightarrow> ('w, 'q) sched \<Rightarrow>
   (scheduler_output \<times> ('w, 'q) sched) res" where
  "finish_step L cfg out s =
     (let s1 = (if has_connector cfg then on_world (conn_build_connector_meta (conn L) out) s else s);
          s2 = (if has_ec_connector cfg then on_world (ec_build_connector_meta (enc L) out) s1 else s1);
          s3 = (if defer_block_free cfg \<and> 0 < so_total_num_scheduled_tokens out
                then s2\<lparr>sched_step_seq := sched_step_seq s2 + 1\<rparr> else s2)
      in update_after_schedule cfg out s3)"

definition schedule ::
  "('w, 'b, 'q) vllm \<Rightarrow> config \<Rightarrow> bool \<Rightarrow> ('w, 'q) sched \<Rightarrow> (scheduler_output \<times> ('w, 'q) sched) res" where
  "schedule L cfg throttle_prefills s =
     bindE (schedule_requests L cfg throttle_prefills s) (\<lambda>(s1, loc).
     bindE (build_output L cfg s1 loc) (\<lambda>(out, s2). finish_step L cfg out s2))"

section \<open>Grammar bitmask\<close>

text \<open>The ids whose rows the bitmask has, in order; \<open>None\<close> when there is no bitmask.\<close>

definition grammar_bitmask_ids :: "scheduler_output \<Rightarrow> ('w, 'q) sched \<Rightarrow> rid list option" where
  "grammar_bitmask_ids out s =
     (if \<not> so_has_structured_output_requests out then None
      else (let ids = filter (\<lambda>r. r \<in> set (requests s) \<and> use_structured_output (store s r) \<and>
                                  \<not> is_prefill_chunk (store s r)) (map fst (so_num_scheduled_tokens out))
            in if ids = [] then None else Some ids))"

section \<open>Draft tokens\<close>

definition live :: "('w, 'q) sched \<Rightarrow> rid \<Rightarrow> bool" where
  "live s r \<longleftrightarrow> r \<in> set (requests s) \<and> \<not> is_finished (status (store s r))"

definition update_draft_one ::
  "('w, 'b, 'q) vllm \<Rightarrow> rid \<times> int list \<Rightarrow> ('w, 'q) sched \<Rightarrow> ('w, 'q) sched" where
  "update_draft_one L = (\<lambda>(r, drafts) s.
     (if \<not> live s r then s
      else if is_prefill_chunk (store s r) then upd_req r (\<lambda>q. q\<lparr>spec_token_ids := []\<rparr>) s
      else (let ts = (if so_should_advance (rql L) (store s r) (world s)
                      then so_validate_tokens (rql L) (store s r) drafts (world s) else drafts)
            in upd_req r (\<lambda>q. q\<lparr>spec_token_ids := ts\<rparr>) s)))"

definition update_draft_token_ids ::
  "('w, 'b, 'q) vllm \<Rightarrow> rid list \<Rightarrow> int list list \<Rightarrow> ('w, 'q) sched \<Rightarrow> ('w, 'q) sched" where
  "update_draft_token_ids L req_ids drafts s = fold (update_draft_one L) (zip req_ids drafts) s"

text \<open>The drafts of one request, cut to the placeholders, validated and padded with -1.\<close>

definition fit_drafts ::
  "('w, 'b, 'q) vllm \<Rightarrow> ('w, 'q) sched \<Rightarrow> rid \<Rightarrow> nat \<Rightarrow> int list \<Rightarrow> int list \<times> int" where
  "fit_drafts L s r placeholders drafts =
     (let ts = take placeholders drafts;
          valid = (if so_should_advance (rql L) (store s r) (world s)
                   then so_validate_tokens (rql L) (store s r) ts (world s) else ts);
          invalid = int placeholders - int (length valid)
      in (if invalid \<noteq> 0 then valid @ replicate (nat invalid) (-1) else valid, invalid))"

definition update_draft_in_output_one ::
  "('w, 'b, 'q) vllm \<Rightarrow> ('w, 'q) sched \<Rightarrow> rid \<times> int list \<Rightarrow>
   (rid \<times> int list) list \<times> (rid \<times> int) list \<Rightarrow> (rid \<times> int list) list \<times> (rid \<times> int) list" where
  "update_draft_in_output_one L s = (\<lambda>(r, drafts) (sched_spec, invalid).
     (case map_of sched_spec r of
        Some (p # ps) \<Rightarrow>
          if \<not> live s r then (sched_spec, invalid)
          else (case fit_drafts L s r (length (p # ps)) drafts of
                  (ts, k) \<Rightarrow> (dict_put r ts sched_spec, if k \<noteq> 0 then dict_put r k invalid else invalid))
      | _ \<Rightarrow> (sched_spec, invalid)))"

definition update_draft_token_ids_in_output ::
  "('w, 'b, 'q) vllm \<Rightarrow> rid list \<Rightarrow> int list list \<Rightarrow> scheduler_output \<Rightarrow> ('w, 'q) sched \<Rightarrow> scheduler_output" where
  "update_draft_token_ids_in_output L req_ids drafts out s =
     (case fold (update_draft_in_output_one L s) (zip req_ids drafts)
             (so_scheduled_spec_decode_tokens out, []) of
        (sched_spec, invalid) \<Rightarrow>
          out\<lparr>so_scheduled_spec_decode_tokens := sched_spec, so_num_invalid_spec_tokens := invalid\<rparr>)"

end
