(* ===== verification/SchedUpdate.thy ===== *)
theory SchedUpdate
  imports SchedOutput
begin

text \<open>
  Processing a step's results: \<open>update_from_output\<close> with accepted drafts, stops, grammar and sessions,
  finished KV transfers, and KV blocks that failed to load.
\<close>

section \<open>Model output\<close>

record kv_connector_output =
  ko_invalid_block_ids :: "int set"
  ko_finished_recving :: "rid list"
  ko_finished_sending :: "rid list"

text \<open>\<open>mo_pooler_output\<close> has handles; \<open>None\<close> inside it is a request without pooler output.\<close>

record model_output =
  mo_req_id_to_index :: "(rid \<times> nat) list"
  mo_sampled_token_ids :: "int list list"
  mo_pooler_output :: "int option list"
  mo_prompt_logprobs :: "(rid \<times> int option) list"
  mo_kv_connector_output :: "kv_connector_output option"

text \<open>\<open>EngineCoreOutput\<close>; the finish reason is given by the status it is read from.\<close>

record engine_output =
  eo_request_id :: rid
  eo_new_token_ids :: "int list"
  eo_finish_reason :: "request_status option"
  eo_pooling_output :: "int option"
  eo_kv_transfer_params :: "int option"

section \<open>Tokens of one request\<close>

text \<open>Rejected draft tokens are taken back from the computed tokens and the placeholders.\<close>

definition take_back_rejected :: "config \<Rightarrow> int list option \<Rightarrow> int list \<Rightarrow> request \<Rightarrow> request" where
  "take_back_rejected cfg spec generated q =
     (case spec of
        Some (t # ts) \<Rightarrow>
          if (generated \<noteq> [] \<or> num_sampled_tokens_per_step cfg = 0) \<and> async_tokens_to_discard q = 0 then
            (let num_accepted = max (int (length generated) - num_sampled_tokens_per_step cfg) 0;
                 num_rejected = int (length (t # ts)) - num_accepted
             in q\<lparr>num_computed_tokens :=
                    (if 0 < num_computed_tokens q then num_computed_tokens q - num_rejected
                     else num_computed_tokens q),
                  num_output_placeholders :=
                    (if 0 < num_output_placeholders q then num_output_placeholders q - num_rejected
                     else num_output_placeholders q)\<rparr>)
          else q
      | _ \<Rightarrow> q)"

text \<open>\<open>_update_request_with_output\<close>: tokens are appended until one stops the request.\<close>

fun append_until_stop ::
  "'w req_lib \<Rightarrow> int \<Rightarrow> int list \<Rightarrow> request \<Rightarrow> int list \<times> bool \<times> request" where
  "append_until_stop R max_len [] q = ([], False, q)"
| "append_until_stop R max_len (t # ts) q =
     (case check_stop R (append_output_token_ids R q t) max_len of
        (q1, True) \<Rightarrow> ([t], True, q1)
      | (q1, False) \<Rightarrow>
          (case append_until_stop R max_len ts q1 of (kept, stopped, q2) \<Rightarrow> (t # kept, stopped, q2)))"

definition update_request_with_output ::
  "('w, 'b, 'q) vllm \<Rightarrow> config \<Rightarrow> rid \<Rightarrow> int list \<Rightarrow> ('w, 'q) sched \<Rightarrow>
   (int list \<times> bool) \<times> ('w, 'q) sched" where
  "update_request_with_output L cfg r new_token_ids s =
     (case append_until_stop (rql L) (max_model_len cfg) new_token_ids (store s r) of
        (kept, stopped, q) \<Rightarrow> ((kept, stopped), s\<lparr>store := (store s)(r := q)\<rparr>))"

text \<open>\<open>_free_encoder_inputs\<close>.\<close>

definition encoder_input_done :: "config \<Rightarrow> request \<Rightarrow> nat \<Rightarrow> bool" where
  "encoder_input_done cfg q i \<longleftrightarrow>
     (is_encoder_decoder cfg \<and> 0 < num_computed_tokens q) \<or>
     mm_offset (mm_features q ! i) + mm_length (mm_features q ! i) + (if use_eagle cfg then 1 else 0)
       \<le> num_computed_tokens q - num_output_placeholders q"

definition free_encoder_inputs ::
  "('w, 'b, 'q) vllm \<Rightarrow> config \<Rightarrow> rid \<Rightarrow> ('w, 'q) sched \<Rightarrow> ('w, 'q) sched" where
  "free_encoder_inputs L cfg r s =
     (let q = store s r in
      on_world (\<lambda>w. fold (\<lambda>i w. if encoder_input_done cfg q i then enc_free_encoder_input (enc L) q i w else w)
                      (enc_cached_input_ids (enc L) q w) w) s)"

text \<open>Advancing the grammar; the flag says that it rejected the tokens and the request is terminated.\<close>

definition advance_grammar ::
  "('w, 'b, 'q) vllm \<Rightarrow> rid \<Rightarrow> int list \<Rightarrow> ('w, 'q) sched \<Rightarrow> (bool \<times> ('w, 'q) sched) res" where
  "advance_grammar L r new_token_ids s =
     (let q = store s r in
      if new_token_ids \<noteq> [] \<and> so_should_advance (rql L) q (world s) then
        bindE (assertE (has_grammar q)) (\<lambda>_.
        (let adv = so_trim_reasoning (rql L) q new_token_ids (world s) in
         if adv = [] then Inr (False, s)
         else (case so_accept_tokens (rql L) q adv (world s) of
                 (True, w) \<Rightarrow> Inr (False, s\<lparr>world := w\<rparr>)
               | (False, w) \<Rightarrow>
                   Inr (True, upd_req r (\<lambda>q. q\<lparr>status := FINISHED_ERROR, resumable := False\<rparr>)
                                (s\<lparr>world := w\<rparr>)))))
      else Inr (False, s))"

section \<open>The loop over the scheduled requests\<close>

text \<open>Its local variables: the outputs per client, and the requests that stopped.\<close>

record update_acc =
  ua_outputs :: "(int \<times> engine_output list) list"
  ua_stopped_running :: "rid list"
  ua_stopped_preempted :: "rid list"

definition add_output :: "int \<Rightarrow> engine_output \<Rightarrow> (int \<times> engine_output list) list \<Rightarrow>
   (int \<times> engine_output list) list" where
  "add_output c e d = dict_put c ((case map_of d c of None \<Rightarrow> [] | Some es \<Rightarrow> es) @ [e]) d"

text \<open>
  From the check for stops to the release of a stopped request: kept tokens, stopped flag, finish
  status, transfer parameters.
\<close>

definition settle_request ::
  "('w, 'b, 'q) vllm \<Rightarrow> config \<Rightarrow> rid \<Rightarrow> int list \<Rightarrow> int option \<Rightarrow> ('w, 'q) sched \<Rightarrow> update_acc \<Rightarrow>
   ((int list \<times> bool \<times> request_status option \<times> int option) \<times> ('w, 'q) sched \<times> update_acc) res" where
  "settle_request L cfg r generated pooler_output s acc =
     (let status_before_stop = status (store s r);
          ((new_token_ids, stopped0), s1) =
            (if generated \<noteq> [] then update_request_with_output L cfg r generated s
             else if is_pooling (store s r) \<and> pooler_output \<noteq> None
             then (([], True), upd_req r (\<lambda>q. q\<lparr>status := FINISHED_STOPPED\<rparr>) s)
             else (([], False), s))
      in
      bindE (advance_grammar L r new_token_ids s1) (\<lambda>(rejected, s2).
        if \<not> (stopped0 \<or> rejected) then Inr ((new_token_ids, False, None, None), s2, acc)
        else
          (let finish = status (store s2 r);
               (finished, s3) = handle_stopped_request L r s2;
               acc1 = (if status_before_stop = RUNNING
                       then acc\<lparr>ua_stopped_running := ua_stopped_running acc @ [r]\<rparr>
                       else acc\<lparr>ua_stopped_preempted := ua_stopped_preempted acc @ [r]\<rparr>)
           in if finished then
                bindE (free_request L cfg r False s3) (\<lambda>(params, s4).
                  Inr ((new_token_ids, True, Some finish, params), s4, acc1))
              else Inr ((new_token_ids, True, Some finish, None), s3, acc1))))"

definition update_one ::
  "('w, 'b, 'q) vllm \<Rightarrow> config \<Rightarrow> scheduler_output \<Rightarrow> model_output \<Rightarrow> rid set \<Rightarrow> rid \<times> int \<Rightarrow>
   ('w, 'q) sched \<times> update_acc \<Rightarrow> (('w, 'q) sched \<times> update_acc) res" where
  "update_one L cfg out mo failed = (\<lambda>(r, n) (s, acc).
     bindE (assertE (0 < n)) (\<lambda>_.
       if r \<in> failed \<or> \<not> live s r then Inr (s, acc)
       else
         (case map_of (mo_req_id_to_index mo) r of
            None \<Rightarrow> Inl KeyError
          | Some i \<Rightarrow>
              bindE (if mo_sampled_token_ids mo = [] then Inr []
                     else py_nth (mo_sampled_token_ids mo) (int i)) (\<lambda>generated.
              (let s1 = upd_req r (take_back_rejected cfg
                          (map_of (so_scheduled_spec_decode_tokens out) r) generated) s;
                   s2 = (if has_encoder_inputs (store s1 r) then free_encoder_inputs L cfg r s1 else s1)
               in
               bindE (if mo_pooler_output mo = [] then Inr None
                      else py_nth (mo_pooler_output mo) (int i)) (\<lambda>pooler_output.
               bindE (settle_request L cfg r generated pooler_output s2 acc)
                 (\<lambda>((new_token_ids, stopped, finish, params), s3, acc1).
                    if new_token_ids \<noteq> [] \<or> pooler_output \<noteq> None \<or> params \<noteq> None \<or> stopped then
                      Inr (upd_req r (take_output_state (rql L)) s3,
                           acc1\<lparr>ua_outputs := add_output (client_index (store s3 r))
                                  \<lparr>eo_request_id = r, eo_new_token_ids = new_token_ids,
                                   eo_finish_reason = finish, eo_pooling_output = pooler_output,
                                   eo_kv_transfer_params = params\<rparr> (ua_outputs acc1)\<rparr>)
                    else
                      bindE (assertE (map_of (mo_prompt_logprobs mo) r \<in> {None, Some None})) (\<lambda>_.
                        Inr (s3, acc1)))))))))"

fun update_each ::
  "('w, 'b, 'q) vllm \<Rightarrow> config \<Rightarrow> scheduler_output \<Rightarrow> model_output \<Rightarrow> rid set \<Rightarrow> (rid \<times> int) list \<Rightarrow>
   ('w, 'q) sched \<times> update_acc \<Rightarrow> (('w, 'q) sched \<times> update_acc) res" where
  "update_each L cfg out mo failed [] st = Inr st"
| "update_each L cfg out mo failed (e # es) st =
     bindE (update_one L cfg out mo failed e st) (update_each L cfg out mo failed es)"

text \<open>Removing the stopped requests from \<open>running\<close> and \<open>waiting\<close>.\<close>

definition remove_stopped ::
  "('w, 'b, 'q) vllm \<Rightarrow> update_acc \<Rightarrow> ('w, 'q) sched \<Rightarrow> ('w, 'q) sched" where
  "remove_stopped L acc s =
     (let s1 = (if ua_stopped_running acc \<noteq> []
                then s\<lparr>running := filter (\<lambda>r. r \<notin> set (ua_stopped_running acc)) (running s)\<rparr> else s)
      in if ua_stopped_preempted acc \<noteq> []
         then s1\<lparr>waiting := q_remove_all (que L) (store s1) (ua_stopped_preempted acc) (waiting s1)\<rparr>
         else s1)"

section \<open>Finished KV transfers\<close>

definition finish_recving ::
  "('w, 'b, 'q) vllm \<Rightarrow> config \<Rightarrow> rid \<Rightarrow> ('w, 'q) sched \<Rightarrow> ('w, 'q) sched res" where
  "finish_recving L cfg r s =
     bindE (assertE (r \<in> set (requests s))) (\<lambda>_.
       if status (store s r) = WAITING_FOR_REMOTE_KVS
       then Inr (s\<lparr>finished_recving_kv_req_ids := insert r (finished_recving_kv_req_ids s)\<rparr>)
       else bindE (assertE (is_finished (status (store s r)))) (\<lambda>_. free_blocks L cfg r s))"

definition finish_sending ::
  "('w, 'b, 'q) vllm \<Rightarrow> config \<Rightarrow> rid \<Rightarrow> ('w, 'q) sched \<Rightarrow> ('w, 'q) sched res" where
  "finish_sending L cfg r s =
     bindE (assertE (r \<in> set (requests s))) (\<lambda>_. free_blocks L cfg r s)"

definition update_from_kv_xfer_finished ::
  "('w, 'b, 'q) vllm \<Rightarrow> config \<Rightarrow> kv_connector_output \<Rightarrow> ('w, 'q) sched \<Rightarrow> ('w, 'q) sched res" where
  "update_from_kv_xfer_finished L cfg ko s =
     (let s1 = (if has_connector cfg
                then on_world (conn_update_connector_output (conn L) (ko_finished_recving ko)
                                 (ko_finished_sending ko)) s else s)
      in bindE (foldE (finish_recving L cfg) (ko_finished_recving ko) s1)
               (foldE (finish_sending L cfg) (ko_finished_sending ko)))"

section \<open>KV blocks that failed to load\<close>

text \<open>The state of the scan over the blocks of one request.\<close>

record block_scan =
  bs_affected :: bool
  bs_marked :: bool
  bs_computed :: int
  bs_total :: int
  bs_marked_ids :: "int set"
  bs_evict :: "int set"

fun scan_blocks ::
  "int \<Rightarrow> int set \<Rightarrow> bool \<Rightarrow> int list \<Rightarrow> int \<Rightarrow> nat \<Rightarrow> int list \<Rightarrow> block_scan \<Rightarrow> block_scan" where
  "scan_blocks bs invalid evict all_ids computed idx [] st = st"
| "scan_blocks bs invalid evict all_ids computed idx (b # ids) st =
     scan_blocks bs invalid evict all_ids computed (Suc idx) ids
       (if b \<notin> invalid then st
        else if b \<in> bs_marked_ids st then st\<lparr>bs_affected := True\<rparr>
        else if bs_marked st then st\<lparr>bs_affected := True, bs_marked_ids := insert b (bs_marked_ids st)\<rparr>
        else st\<lparr>bs_affected := True, bs_marked_ids := insert b (bs_marked_ids st), bs_marked := True,
                bs_computed := int idx * bs,
                bs_total := bs_total st + (computed - int idx * bs),
                bs_evict := (if evict then bs_evict st \<union> set (drop idx all_ids) else bs_evict st)\<rparr>)"

text \<open>The variables of \<open>_update_requests_with_invalid_blocks\<close> across requests.\<close>

record invalid_acc =
  ia_affected :: "rid list"
  ia_total :: int
  ia_evict :: "int set"
  ia_marked_ids :: "int set"

definition invalid_one ::
  "('w, 'b, 'q) vllm \<Rightarrow> config \<Rightarrow> int set \<Rightarrow> (rid \<times> int) list \<Rightarrow> bool \<Rightarrow> rid \<Rightarrow>
   ('w, 'q) sched \<times> invalid_acc \<Rightarrow> (('w, 'q) sched \<times> invalid_acc) res" where
  "invalid_one L cfg invalid scheduled evict r = (\<lambda>(s, acc).
     (case kv_get_block_ids (kv L) r (world s) of
        [req_block_ids] \<Rightarrow>
          (let before = num_computed_tokens (store s r);
               computed = before - (case map_of scheduled r of None \<Rightarrow> 0 | Some n \<Rightarrow> n);
               blocks = (computed + block_size cfg - 1) div block_size cfg;
               st = scan_blocks (block_size cfg) invalid evict req_block_ids computed 0
                      (take (nat blocks) req_block_ids)
                      \<lparr>bs_affected = False, bs_marked = False, bs_computed = before,
                       bs_total = ia_total acc, bs_marked_ids = ia_marked_ids acc, bs_evict = ia_evict acc\<rparr>;
               shared = bs_affected st \<and> \<not> bs_marked st;
               computed' = (if shared then computed else bs_computed st);
               total = (if shared then bs_total st + (before - computed) else bs_total st)
           in Inr (upd_req r (\<lambda>q. q\<lparr>num_computed_tokens := computed'\<rparr>) s,
                   \<lparr>ia_affected = (if bs_affected st then ia_affected acc @ [r] else ia_affected acc),
                    ia_total = total, ia_evict = bs_evict st, ia_marked_ids = bs_marked_ids st\<rparr>))
      | _ \<Rightarrow> Inl ValueError))"

definition update_requests_with_invalid_blocks ::
  "('w, 'b, 'q) vllm \<Rightarrow> config \<Rightarrow> rid list \<Rightarrow> int set \<Rightarrow> (rid \<times> int) list \<Rightarrow> bool \<Rightarrow> ('w, 'q) sched \<Rightarrow>
   ((rid list \<times> int \<times> int set) \<times> ('w, 'q) sched) res" where
  "update_requests_with_invalid_blocks L cfg reqs invalid scheduled evict s =
     bindE (foldE (invalid_one L cfg invalid scheduled evict) reqs
              (s, \<lparr>ia_affected = [], ia_total = 0, ia_evict = {}, ia_marked_ids = {}\<rparr>))
       (\<lambda>(s1, acc). Inr ((ia_affected acc, ia_total acc, ia_evict acc), s1))"

text \<open>The answer lists the request ids to skip.\<close>

definition handle_invalid_blocks ::
  "('w, 'b, 'q) vllm \<Rightarrow> config \<Rightarrow> int set \<Rightarrow> (rid \<times> int) list \<Rightarrow> ('w, 'q) sched \<Rightarrow>
   (rid list \<times> ('w, 'q) sched) res" where
  "handle_invalid_blocks L cfg invalid scheduled s =
     bindE (update_requests_with_invalid_blocks L cfg
              (filter (\<lambda>r. status (store s r) = WAITING_FOR_REMOTE_KVS) (q_list (que L) (skipped_waiting s)))
              invalid scheduled False s) (\<lambda>((async_failed, _, _), s1).
     bindE (update_requests_with_invalid_blocks L cfg (running s1) invalid scheduled True s1)
       (\<lambda>((sync_failed, _, evict), s2).
          if async_failed = [] \<and> sync_failed = [] then Inr ([], s2)
          else
            (let s3 = (if evict \<noteq> {} \<and> \<not> recompute_kv_load_failures cfg
                       then on_world (kv_evict_blocks (kv L) evict) s2 else s2)
             in if \<not> recompute_kv_load_failures cfg then Inr (async_failed @ sync_failed, s3)
                else Inr (sync_failed, s3\<lparr>failed_recving_kv_req_ids :=
                                            failed_recving_kv_req_ids s3 \<union> set async_failed\<rparr>))))"

section \<open>The handler\<close>

definition fail_loads ::
  "('w, 'b, 'q) vllm \<Rightarrow> config \<Rightarrow> rid list \<Rightarrow> ('w, 'q) sched \<Rightarrow> (int \<times> engine_output list) list \<Rightarrow>
   (('w, 'q) sched \<times> (int \<times> engine_output list) list) res" where
  "fail_loads L cfg failed s outs =
     bindE (if set failed \<subseteq> set (requests s) then Inr () else Inl KeyError) (\<lambda>_.
     bindE (finish_requests L cfg (Some failed) FINISHED_ERROR s) (\<lambda>(_, s1).
       Inr (s1, fold (\<lambda>r d. add_output (client_index (store s1 r))
                        \<lparr>eo_request_id = r, eo_new_token_ids = [],
                         eo_finish_reason = Some (status (store s1 r)),
                         eo_pooling_output = None, eo_kv_transfer_params = None\<rparr> d) failed outs)))"

text \<open>The outputs per client, and the sets of finished ids they carry.\<close>

definition attach_finished ::
  "(int \<times> rid set) list option \<Rightarrow> (int \<times> engine_output list) list \<Rightarrow>
   (int \<times> engine_output list \<times> rid set option) list" where
  "attach_finished finished outs =
     (let base = map (\<lambda>(c, es). (c, es, None)) outs in
      case finished of
        None \<Rightarrow> base
      | Some d \<Rightarrow>
          fold (\<lambda>(c, ids) res. dict_put c
                  ((case map_of res c of None \<Rightarrow> [] | Some (es, _) \<Rightarrow> es), Some ids) res) d base)"

definition update_from_output ::
  "('w, 'b, 'q) vllm \<Rightarrow> config \<Rightarrow> scheduler_output \<Rightarrow> model_output \<Rightarrow> ('w, 'q) sched \<Rightarrow>
   ((int \<times> engine_output list \<times> rid set option) list \<times> ('w, 'q) sched) res" where
  "update_from_output L cfg out mo s =
     (let s0 = (if defer_block_free cfg \<and> 0 < so_total_num_scheduled_tokens out
                then drain_deferred_frees L (s\<lparr>processed_step_seq := processed_step_seq s + 1\<rparr>) else s)
      in
      bindE (case mo_kv_connector_output mo of
               Some ko \<Rightarrow> if ko_invalid_block_ids ko \<noteq> {}
                         then handle_invalid_blocks L cfg (ko_invalid_block_ids ko) (so_num_scheduled_tokens out) s0
                         else Inr ([], s0)
             | None \<Rightarrow> Inr ([], s0)) (\<lambda>(failed, s1).
      bindE (update_each L cfg out mo (set failed) (so_num_scheduled_tokens out)
               (s1, \<lparr>ua_outputs = [], ua_stopped_running = [], ua_stopped_preempted = []\<rparr>)) (\<lambda>(s2, acc).
      (let s3 = remove_stopped L acc s2 in
      bindE (if failed \<noteq> [] \<and> \<not> recompute_kv_load_failures cfg
             then fail_loads L cfg failed s3 (ua_outputs acc) else Inr (s3, ua_outputs acc)) (\<lambda>(s4, outs).
      bindE (case mo_kv_connector_output mo of
               Some ko \<Rightarrow> update_from_kv_xfer_finished L cfg ko s4
             | None \<Rightarrow> Inr s4) (\<lambda>s5.
        Inr (attach_finished (finished_req_ids_dict s5) outs,
             s5\<lparr>finished_req_ids_dict := map_option (\<lambda>_. []) (finished_req_ids_dict s5)\<rparr>)))))))"

end
