(* ===== verification/SchedQueueFacts.thy ===== *)
theory SchedQueueFacts
  imports SchedUpdate
begin

text \<open>
  The queue invariant under the operations outside \<open>schedule\<close>: adding requests, continuing sessions,
  finishing requests, and preempting everything for a cache reset.
\<close>

section \<open>Adding\<close>

lemma sched_ok_enqueue:
  assumes "queue_laws (que L)" and "sched_ok L s" and "r \<notin> set (requests s)"
    and "\<not> is_finished (status q)" "status q \<noteq> RUNNING" "status q \<noteq> WAITING_FOR_STREAMING_REQ"
  shows "sched_ok L ((enqueue_waiting_request L r (s\<lparr>store := (store s)(r := q)\<rparr>))\<lparr>requests := requests s @ [r]\<rparr>)"
    (is "sched_ok L ?s")
proof -
  have q: "queued_mset L ?s = add_mset r (queued_mset L s)"
    by (simp add: enqueue_waiting_request_def queued_mset_def queue_lawsD(2) [OF assms(1)])
  have f: "running ?s = running s" "store ?s = (store s)(r := q)" "requests ?s = requests s @ [r]"
    "inflight_prefills ?s = inflight_prefills s"
    "num_waiting_for_streaming_input ?s = num_waiting_for_streaming_input s"
    by (simp_all add: enqueue_waiting_request_def)
  have nr: "r \<notin> set (running s)" "r \<notin># queued_mset L s"
    using sched_okD(2,3) [OF assms(2), of r] assms(3) by auto
  have c: "count (mset (running s) + add_mset r (queued_mset L s)) x \<le> 1" for x
    using sched_okD(1) [OF assms(2), of x] nr by (cases "x = r") (auto simp: not_in_iff)
  have sub: "set (running s) \<subseteq> set (requests s)" "set_mset (queued_mset L s) \<subseteq> set (requests s)"
    using sched_okD(2,3) [OF assms(2)] by auto
  have run: "\<forall>x \<in> set (running s). status (store ?s x) = RUNNING"
    using sched_okD(6) [OF assms(2)] nr(1) unfolding f by auto
  have que: "\<forall>x \<in># add_mset r (queued_mset L s). \<not> is_finished (status (store ?s x)) \<and> status (store ?s x) \<noteq> RUNNING"
    using sched_okD(7) [OF assms(2)] nr(2) assms(4,5) unfolding f by auto
  have "filter_mset (\<lambda>x. status (store ?s x) = WAITING_FOR_STREAMING_REQ) (queued_mset L s)
      = filter_mset (\<lambda>x. status (store s x) = WAITING_FOR_STREAMING_REQ) (queued_mset L s)"
    by (rule filter_mset_cong [OF refl]) (use nr(2) in \<open>auto simp: f\<close>)
  then have cnt: "size (filter_mset (\<lambda>x. status (store ?s x) = WAITING_FOR_STREAMING_REQ) (add_mset r (queued_mset L s)))
      = size (filter_mset (\<lambda>x. status (store s x) = WAITING_FOR_STREAMING_REQ) (queued_mset L s))"
    using assms(6) by (simp add: f(2))
  have live: "\<forall>x \<in> set (requests s @ [r]). is_finished (status (store ?s x)) \<or>
      x \<in># mset (running s) + add_mset r (queued_mset L s)"
  proof
    fix x assume "x \<in> set (requests s @ [r])"
    with sched_okD(10) [OF assms(2), of x]
    show "is_finished (status (store ?s x)) \<or> x \<in># mset (running s) + add_mset r (queued_mset L s)"
      by (cases "x = r") (auto simp: f(2))
  qed
  show ?thesis
    unfolding sched_ok_with_def q f(1,3,4,5)
    using c sub run que cnt live sched_okD(5,8,9) [OF assms(2)] assms(3) by auto
qed

lemma sched_ok_session:
  assumes "sched_ok L s" and "r \<in># queued_mset L s" and "status (store s r) = WAITING_FOR_STREAMING_REQ"
  shows "sched_ok L (update_request_as_session r u s)"
proof -
  let ?s = "update_request_as_session r u s"
  have f: "running ?s = running s" "queued_mset L ?s = queued_mset L s" "requests ?s = requests s"
    "store ?s = (store s)(r := session_after (store s r) u)"
    "inflight_prefills ?s = inflight_prefills s"
    "num_waiting_for_streaming_input ?s = num_waiting_for_streaming_input s - 1"
    using assms(3) by (simp_all add: update_request_as_session_def queued_mset_def)
  have st: "status (session_after (store s r) u) = WAITING" by (simp add: session_after_def Let_def)
  have nr: "r \<notin> set (running s)" using sched_ok_apart [OF assms(1)] assms(2) by auto
  obtain M where M: "queued_mset L s = add_mset r M" using assms(2) by (metis mset_add)
  have "count (queued_mset L s) r \<le> 1" using sched_okD(1) [OF assms(1), of r] by simp
  then have nM: "r \<notin># M" using M by (simp add: not_in_iff)
  have "filter_mset (\<lambda>x. status (store ?s x) = WAITING_FOR_STREAMING_REQ) M
      = filter_mset (\<lambda>x. status (store s x) = WAITING_FOR_STREAMING_REQ) M"
    by (rule filter_mset_cong [OF refl]) (use nM in \<open>auto simp: f\<close>)
  then have cnt: "int (size (filter_mset (\<lambda>x. status (store ?s x) = WAITING_FOR_STREAMING_REQ) (queued_mset L s)))
      = num_waiting_for_streaming_input s - 1"
    using sched_okD(9) [OF assms(1)] assms(3) st by (simp add: M f(4))
  have run: "\<forall>x \<in> set (running s). status (store ?s x) = RUNNING"
    using sched_okD(6) [OF assms(1)] nr unfolding f by auto
  have que: "\<forall>x \<in># queued_mset L s. \<not> is_finished (status (store ?s x)) \<and> status (store ?s x) \<noteq> RUNNING"
    using sched_okD(7) [OF assms(1)] st unfolding f by auto
  have live: "\<forall>x \<in> set (requests s). is_finished (status (store ?s x)) \<or> x \<in># mset (running s) + queued_mset L s"
  proof
    fix x assume "x \<in> set (requests s)"
    with sched_okD(10) [OF assms(1), of x] assms(2)
    show "is_finished (status (store ?s x)) \<or> x \<in># mset (running s) + queued_mset L s"
      by (cases "x = r") (auto simp: f(4))
  qed
  show ?thesis
    using assms(1) run que cnt live unfolding sched_ok_with_def f(1-3,5,6) by auto
qed

section \<open>Finishing\<close>

lemma free_request_frame:
  assumes "free_request L cfg r d s = Inr (p, s')"
  shows "running s' = running s" "waiting s' = waiting s" "skipped_waiting s' = skipped_waiting s"
    "store s' = store s" "num_waiting_for_streaming_input s' = num_waiting_for_streaming_input s"
    "inflight_prefills s' = inflight_prefills s - {r}"
    "requests s' = requests s \<or> requests s' = remove1 r (requests s)"
    "r \<in> finished_req_ids s'" "pause_state s' = pause_state s"
proof -
  from assms obtain a b s1 where
    c: "connector_finished L cfg r (s\<lparr>inflight_prefills := inflight_prefills s - {r}\<rparr>) = Inr ((a, b), s1)"
    by (auto simp: free_request_def exc_simps)
  then obtain w where s1: "s1 = s\<lparr>inflight_prefills := inflight_prefills s - {r}, world := w\<rparr>"
    using connector_finished_frame [OF c] by auto
  from assms c s1 show "running s' = running s" "waiting s' = waiting s" "skipped_waiting s' = skipped_waiting s"
    "store s' = store s" "num_waiting_for_streaming_input s' = num_waiting_for_streaming_input s"
    "inflight_prefills s' = inflight_prefills s - {r}"
    "requests s' = requests s \<or> requests s' = remove1 r (requests s)"
    "r \<in> finished_req_ids s'" "pause_state s' = pause_state s"
    by (auto simp: free_request_def free_blocks_def Let_def exc_simps split: if_splits)
qed

text \<open>The second pass leaves the queues alone.\<close>

lemma finish_one_frame:
  assumes "finish_one L cfg st r s = Inr s'"
  shows "running s' = running s" "waiting s' = waiting s" "skipped_waiting s' = skipped_waiting s"
    "store s' = (store s)(r := (store s r)\<lparr>status := st\<rparr>)" "pause_state s' = pause_state s"
    "num_waiting_for_streaming_input s' = num_waiting_for_streaming_input s"
    "inflight_prefills s' = inflight_prefills s - {r}"
    "requests s' = requests s \<or> requests s' = remove1 r (requests s)"
proof -
  let ?s1 = "if status (store s r) = WAITING_FOR_REMOTE_KVS
                then s\<lparr>finished_recving_kv_req_ids := finished_recving_kv_req_ids s - {r},
                       failed_recving_kv_req_ids := failed_recving_kv_req_ids s - {r}\<rparr> else s"
  let ?s2 = "upd_req r (\<lambda>q. q\<lparr>status := st\<rparr>) ?s1"
  from assms obtain p d where fr: "free_request L cfg r d ?s2 = Inr (p, s')"
    by (auto simp: finish_one_def Let_def exc_simps simp del: if_split)
  from free_request_frame [OF fr]
  show "running s' = running s" "waiting s' = waiting s" "skipped_waiting s' = skipped_waiting s"
    "store s' = (store s)(r := (store s r)\<lparr>status := st\<rparr>)" "pause_state s' = pause_state s"
    "num_waiting_for_streaming_input s' = num_waiting_for_streaming_input s"
    "inflight_prefills s' = inflight_prefills s - {r}"
    "requests s' = requests s \<or> requests s' = remove1 r (requests s)"
    by (simp_all split: if_splits)
qed

lemma finish_each_frame:
  assumes "finish_each L cfg st rs s = Inr s'"
  shows "running s' = running s \<and> waiting s' = waiting s \<and> skipped_waiting s' = skipped_waiting s \<and>
    pause_state s' = pause_state s \<and>
    num_waiting_for_streaming_input s' = num_waiting_for_streaming_input s \<and>
    inflight_prefills s' = inflight_prefills s - set rs \<and>
    set (requests s') \<subseteq> set (requests s) \<and> set (requests s) - set rs \<subseteq> set (requests s') \<and>
    (distinct (requests s) \<longrightarrow> distinct (requests s')) \<and>
    (\<forall>r. status (store s' r) = (if r \<in> set rs then st else status (store s r)))"
  using assms
proof (induction rs arbitrary: s)
  case (Cons r rs)
  then obtain s1 where o: "finish_one L cfg st r s = Inr s1" and e: "finish_each L cfg st rs s1 = Inr s'"
    by (auto simp: exc_simps)
  note f = finish_one_frame [OF o]
  have "set xs - {r} \<subseteq> set (remove1 r xs)" for xs by (induction xs) auto
  then have q: "set (requests s1) \<subseteq> set (requests s)" "set (requests s) - {r} \<subseteq> set (requests s1)"
    "distinct (requests s) \<longrightarrow> distinct (requests s1)"
    using f(8) set_remove1_subset [of r "requests s"] by (metis Diff_subset order_refl, metis Diff_subset, auto)
  from Cons.IH [OF e] q f(1-7) show ?case by auto
qed simp

text \<open>The first pass takes the valid requests out of all three queues.\<close>

lemma unqueue_frame:
  assumes "queue_laws (que L)" and "sched_ok L s" and "valid = finishable s ids"
  shows "running (unqueue L valid s) = filter (\<lambda>r. r \<notin> set valid) (running s)"
    "queued_mset L (unqueue L valid s) = filter_mset (\<lambda>r. r \<notin> set valid) (queued_mset L s)"
    "store (unqueue L valid s) = store s" "requests (unqueue L valid s) = requests s"
    "inflight_prefills (unqueue L valid s) = inflight_prefills s"
    "num_waiting_for_streaming_input (unqueue L valid s) = num_waiting_for_streaming_input s -
       int (length (filter (\<lambda>r. status (store s r) = WAITING_FOR_STREAMING_REQ) valid))"
    "pause_state (unqueue L valid s) = pause_state s"
proof -
  have "filter (\<lambda>r. r \<notin> set (filter (\<lambda>r. status (store s r) = RUNNING) valid)) (running s)
      = filter (\<lambda>r. r \<notin> set valid) (running s)"
    using sched_okD(6) [OF assms(2)] by (intro filter_cong) auto
  then show "running (unqueue L valid s) = filter (\<lambda>r. r \<notin> set valid) (running s)"
    by (auto simp: unqueue_def Let_def filter_empty_conv)
  have "filter_mset (\<lambda>r. r \<notin> set (filter (\<lambda>r. status (store s r) \<noteq> RUNNING) valid)) (queued_mset L s)
      = filter_mset (\<lambda>r. r \<notin> set valid) (queued_mset L s)"
    using sched_okD(7) [OF assms(2)] by (intro filter_mset_cong refl) auto
  then show "queued_mset L (unqueue L valid s) = filter_mset (\<lambda>r. r \<notin> set valid) (queued_mset L s)"
    by (auto simp: unqueue_def Let_def queued_mset_def filter_empty_conv queue_lawsD(5) [OF assms(1)])
  have "filter (\<lambda>r. status (store s r) = WAITING_FOR_STREAMING_REQ) (filter (\<lambda>r. status (store s r) \<noteq> RUNNING) valid)
      = filter (\<lambda>r. status (store s r) = WAITING_FOR_STREAMING_REQ) valid"
    by (simp, rule filter_cong) auto
  then show "num_waiting_for_streaming_input (unqueue L valid s) = num_waiting_for_streaming_input s -
       int (length (filter (\<lambda>r. status (store s r) = WAITING_FOR_STREAMING_REQ) valid))"
    by (cases "filter (\<lambda>r. status (store s r) \<noteq> RUNNING) valid = []")
      (auto simp: unqueue_def Let_def filter_empty_conv)
qed (simp_all add: unqueue_def Let_def)

lemma mset_filter_within:
  assumes "distinct xs" and "\<And>r. count M r \<le> 1" and "\<And>r. r \<in> set xs \<Longrightarrow> P r \<Longrightarrow> r \<in># M"
  shows "filter_mset (\<lambda>r. P r \<and> r \<in> set xs) M = mset (filter P xs)"
proof (rule multiset_eqI)
  fix r
  have "count M r = (if r \<in># M then 1 else 0)"
    using assms(2) [of r] by (auto simp: not_in_iff count_greater_zero_iff [symmetric] simp del: count_greater_zero_iff)
  moreover have "count (mset (filter P xs)) r = (if r \<in> set xs \<and> P r then 1 else 0)"
    using assms(1) by (simp add: distinct_count_atmost_1)
  ultimately show "count (filter_mset (\<lambda>r. P r \<and> r \<in> set xs) M) r = count (mset (filter P xs)) r"
    using assms(3) [of r] by auto
qed

lemma finishable_streaming:
  assumes "sched_ok L s" and "valid = finishable s (case ids of None \<Rightarrow> requests s | Some rs \<Rightarrow> remdups rs)"
  defines "W \<equiv> \<lambda>r. status (store s r) = WAITING_FOR_STREAMING_REQ"
  shows "int (size (filter_mset W (filter_mset (\<lambda>r. r \<notin> set valid) (queued_mset L s)))) =
    num_waiting_for_streaming_input s - int (length (filter W valid))"
proof -
  have d: "distinct valid" using assms(2) sched_okD(5) [OF assms(1)]
    by (auto simp: finishable_def split: option.splits)
  have q: "r \<in># queued_mset L s" if "r \<in> set valid" "W r" for r
    using that sched_okD(10) [OF assms(1), of r] sched_okD(6) [OF assms(1), of r] assms(2)
    by (auto simp: finishable_def W_def)
  have one: "count (queued_mset L s) r \<le> 1" for r using sched_okD(1) [OF assms(1), of r] by simp
  have w: "filter_mset (\<lambda>r. W r \<and> r \<in> set valid) (queued_mset L s) = mset (filter W valid)"
    by (rule mset_filter_within [OF d one q])
  have "filter_mset W (queued_mset L s) = filter_mset (\<lambda>r. W r \<and> r \<in> set valid) (queued_mset L s) +
      filter_mset W (filter_mset (\<lambda>r. r \<notin> set valid) (queued_mset L s))"
    by (rule multiset_eqI) simp
  then show ?thesis
    using sched_okD(9) [OF assms(1)] w by (simp add: W_def flip: size_mset)
qed

lemma finish_requests_ok:
  assumes "queue_laws (que L)" and "sched_ok L s" and "finish_requests L cfg ids st s = Inr (out, s')"
    and "valid = finishable s (case ids of None \<Rightarrow> requests s | Some rs \<Rightarrow> remdups rs)"
  shows "sched_ok L s'" "map fst out = valid" "\<forall>r \<in> set valid. status (store s' r) = st"
    "running s' = filter (\<lambda>r. r \<notin> set valid) (running s)"
    "queued_mset L s' = filter_mset (\<lambda>r. r \<notin> set valid) (queued_mset L s)"
proof -
  let ?u = "unqueue L valid s"
  let ?W = "\<lambda>r. status (store s r) = WAITING_FOR_STREAMING_REQ"
  from assms(3,4) have fin: "is_finished st" and e: "finish_each L cfg st valid ?u = Inr s'"
    and out: "out = map (\<lambda>r. (r, client_index (store s' r))) valid"
    by (auto simp: finish_requests_def Let_def exc_simps split: if_splits)
  note u = unqueue_frame [OF assms(1,2,4)]
  note f = finish_each_frame [OF e, unfolded u]
  show "map fst out = valid" by (simp add: out comp_def)
  show "\<forall>r \<in> set valid. status (store s' r) = st" using f by simp
  show run: "running s' = filter (\<lambda>r. r \<notin> set valid) (running s)" using f by simp
  show que: "queued_mset L s' = filter_mset (\<lambda>r. r \<notin> set valid) (queued_mset L s)"
    using f u(2) by (simp add: queued_mset_def)
  note n = finishable_streaming [OF assms(2,4)]
  have st: "status (store s' r) = status (store s r)" if "r \<notin> set valid" for r using f that by simp
  have "filter_mset (\<lambda>r. status (store s' r) = WAITING_FOR_STREAMING_REQ) (queued_mset L s')
      = filter_mset ?W (filter_mset (\<lambda>r. r \<notin> set valid) (queued_mset L s))"
    unfolding que by (rule filter_mset_cong [OF refl]) (use st in auto)
  then have cnt: "num_waiting_for_streaming_input s' = int (size
      (filter_mset (\<lambda>r. status (store s' r) = WAITING_FOR_STREAMING_REQ) (queued_mset L s')))"
    using n f by simp
  show "sched_ok L s'"
    unfolding sched_ok_with_def add.right_neutral
  proof (intro conjI allI ballI)
    fix r
    have "count (mset (running s')) r \<le> count (mset (running s)) r"
      "count (queued_mset L s') r \<le> count (queued_mset L s) r" by (simp_all add: run que)
    with sched_okD(1) [OF assms(2), of r] show "count (mset (running s') + queued_mset L s') r \<le> 1" by simp
  next
    show "set_mset (mset (running s') + queued_mset L s') \<subseteq> set (requests s')"
      using f sched_okD(2,3) [OF assms(2)] by (auto simp: run que)
    show "distinct (requests s')" "finite (inflight_prefills s')"
      using f sched_okD(5,8) [OF assms(2)] by auto
  next
    fix r assume "r \<in> set (running s')"
    then show "status (store s' r) = RUNNING" using st sched_okD(6) [OF assms(2)] by (auto simp: run)
  next
    fix r assume "r \<in># queued_mset L s'"
    then show "\<not> is_finished (status (store s' r))" "status (store s' r) \<noteq> RUNNING"
      using st sched_okD(7) [OF assms(2)] by (auto simp: que)
  next
    fix r assume "r \<in> set (requests s')"
    then have "r \<in> set (requests s)" using f by auto
    then show "is_finished (status (store s' r)) \<or> r \<in># mset (running s') + queued_mset L s'"
      using sched_okD(10) [OF assms(2), of r] f fin by (auto simp: run que)
  qed (rule cnt)
qed

section \<open>Preempting everything\<close>

lemma preempt_all_ok:
  assumes "queue_laws (que L)" and "sched_ok L s" and "preempt_all L cfg n s = Inr s'"
    and "n = length (running s)"
  shows "sched_ok L s' \<and> running s' = [] \<and> queued_mset L s' = queued_mset L s + mset (running s) \<and>
    requests s' = requests s \<and> (\<forall>r \<in> set (running s). status (store s' r) = PREEMPTED) \<and>
    (\<forall>r. r \<notin> set (running s) \<longrightarrow> store s' r = store s r)"
  using assms(2-)
proof (induction n arbitrary: s)
  case 0
  then show ?case by (simp add: preempt_all.simps [of L cfg 0])
next
  case (Suc n)
  let ?v = "last (running s)"
  have run: "running s = butlast (running s) @ [?v]" using Suc.prems(3) by (cases "running s" rule: rev_cases) auto
  have ne: "running s \<noteq> []" using Suc.prems(3) by auto
  from Suc.prems(2) ne obtain s1 where p: "preempt_request L cfg ?v (s\<lparr>running := butlast (running s)\<rparr>) = Inr s1"
    and e: "preempt_all L cfg n (upd_req ?v (\<lambda>q. q\<lparr>async_tokens_to_discard := num_output_placeholders q,
                         num_output_placeholders := 0\<rparr>) s1) = Inr s'"
    by (auto simp: preempt_all.simps [of L cfg "Suc n"] exc_simps)
  let ?s2 = "upd_req ?v (\<lambda>q. q\<lparr>async_tokens_to_discard := num_output_placeholders q, num_output_placeholders := 0\<rparr>) s1"
  note f = preempt_request_frame [OF p, simplified]
  have m: "mset (running s) = add_mset ?v (mset (butlast (running s)))" by (subst run) simp
  have ok1: "sched_ok L s1" by (rule preempt_ok [OF assms(1) Suc.prems(1) m p])
  have ok2: "sched_ok L ?s2" by (rule sched_ok_upd [OF ok1]) (use sched_okD(8) [OF ok1] in simp_all)
  have n: "n = length (running ?s2)" using Suc.prems(3) f(1) by simp
  have q: "queued_mset L ?s2 = add_mset ?v (queued_mset L s)"
    using f by (simp add: queued_mset_def queue_lawsD(3) [OF assms(1)])
  have d: "?v \<notin> set (butlast (running s))"
    using sched_ok_running_distinct [OF Suc.prems(1)] run by (metis distinct.simps(2) distinct1_rotate rotate1.simps(2))
  have s: "set (running s) = insert ?v (set (butlast (running s)))" by (subst run) simp
  from Suc.IH [OF ok2 e n] show ?case
    using q m f(1,2,4) d s by (auto simp: fun_upd_def split: if_splits)
qed

lemma reset_prefix_cache_cases:
  assumes "reset_prefix_cache L cfg rr rc s = Inr (ok, s')"
  obtains s1 w where "rr \<longrightarrow> (\<exists>s0. preempt_all L cfg (length (running s)) s = Inr s0 \<and> s1 = s0\<lparr>prev_step_scheduled_req_ids := {}\<rparr>)"
    and "\<not> rr \<longrightarrow> s1 = s" and "s' = s1\<lparr>world := w\<rparr>"
proof -
  from assms obtain s1 where a: "(if rr
            then bindE (preempt_all L cfg (length (running s)) s)
                   (\<lambda>s1. Inr (s1\<lparr>prev_step_scheduled_req_ids := {}\<rparr>))
            else Inr s) = Inr s1"
    and b: "(case kv_reset_prefix_cache (kv L) (world s1) of
        (ok, w) \<Rightarrow>
          (let s2 = s1\<lparr>world := w\<rparr> in
           if rr \<and> \<not> ok then Inl RuntimeError
           else if rc then
             (case reset_connector_cache L cfg s2 of (c, s3) \<Rightarrow> Inr (c \<and> ok, s3))
           else Inr (ok, s2))) = Inr (ok, s')"
    unfolding reset_prefix_cache_def bindE_eq_Inr by blast
  from b obtain w where "s' = s1\<lparr>world := w\<rparr>"
    by (auto simp: reset_connector_cache_def Let_def split: prod.splits if_splits)
  moreover from a have "rr \<longrightarrow> (\<exists>s0. preempt_all L cfg (length (running s)) s = Inr s0 \<and> s1 = s0\<lparr>prev_step_scheduled_req_ids := {}\<rparr>)"
    "\<not> rr \<longrightarrow> s1 = s"
    by (auto simp: exc_simps)
  ultimately show thesis using that by blast
qed

section \<open>\<open>add_request\<close>\<close>

lemma queued_of_status:
  assumes "sched_ok L s" and "r \<in> set (requests s)" and "\<not> is_finished (status (store s r))"
    and "status (store s r) \<noteq> RUNNING"
  shows "r \<in># queued_mset L s"
  using sched_okD(10) [OF assms(1-3)] sched_okD(6) [OF assms(1), of r] assms(4) by auto

lemma add_request_ok:
  assumes "queue_laws (que L)" and "sched_ok L s" and "add_request L cfg req s = Inr s'"
    and "status req \<in> {WAITING, WAITING_FOR_STRUCTURED_OUTPUT_GRAMMAR}"
  shows "sched_ok L s' \<and>
    (request_id req \<notin> set (requests s) \<longrightarrow>
       requests s' = requests s @ [request_id req] \<and>
       queued_mset L s' = add_mset (request_id req) (queued_mset L s))"
proof (cases "request_id req \<in> set (requests s)")
  case True
  let ?r = "request_id req"
  show ?thesis
  proof (cases "status (store s ?r) = WAITING_FOR_STREAMING_REQ")
    case False
    with True assms(3) obtain us u where "s' = upd_req ?r (\<lambda>q. q\<lparr>streaming_queue := Some (us @ [u])\<rparr>) s"
      by (auto simp: add_request_def Let_def split: option.splits)
    then have "sched_ok L s'"
      by (intro sched_ok_upd [OF assms(2)]) (use sched_okD(8) [OF assms(2)] in simp_all)
    with True show ?thesis by simp
  next
    case w: True
    have q: "?r \<in># queued_mset L s" by (rule queued_of_status [OF assms(2) True]) (simp_all add: w)
    show ?thesis
    proof (cases "update_from_request (rql L) req")
      case None
      with True w assms(3) obtain out where "finish_requests L cfg (Some [?r]) FINISHED_ABORTED s = Inr (out, s')"
        by (auto simp: add_request_def Let_def exc_simps)
      from finish_requests_ok(1) [OF assms(1,2) this refl] True show ?thesis by simp
    next
      case (Some u)
      with True w assms(3) have "s' = update_request_as_session ?r u s" by (simp add: add_request_def Let_def)
      with sched_ok_session [OF assms(2) q w] True show ?thesis by simp
    qed
  qed
next
  case False
  let ?r = "request_id req"
  let ?q = "if resumable req then req\<lparr>streaming_queue := Some []\<rparr> else req"
  let ?s = "(enqueue_waiting_request L ?r (s\<lparr>store := (store s)(?r := ?q)\<rparr>))\<lparr>requests := requests s @ [?r]\<rparr>"
  have st: "status ?q = status req" by simp
  have e: "requests (enqueue_waiting_request L ?r (s\<lparr>store := f\<rparr>)) = requests s" for f
    by (simp add: enqueue_waiting_request_def)
  have id: "x = x\<lparr>world := world x\<rparr>" for x :: "('w, 'q) sched" by (cases x) simp
  have "(if has_connector cfg then on_world (conn_on_new_request (conn L) (store ?s ?r)) ?s else ?s) = s'"
    using False assms(3) by (simp only: add_request_def Let_def e if_False sum.inject)
  then have "\<exists>w. s' = ?s\<lparr>world := w\<rparr>" using id [of ?s] by (cases "has_connector cfg") (simp_all only: if_True if_False, blast+)
  then obtain w where s': "s' = ?s\<lparr>world := w\<rparr>" by blast
  have "sched_ok L ?s"
    by (rule sched_ok_enqueue [OF assms(1,2) False]) (use assms(4) st in auto)
  moreover have "queued_mset L ?s = add_mset ?r (queued_mset L s)"
    by (simp add: enqueue_waiting_request_def queued_mset_def queue_lawsD(2) [OF assms(1)])
  ultimately show ?thesis by (simp add: s' queued_mset_def)
qed

section \<open>\<open>reset_prefix_cache\<close>\<close>

lemma reset_running_ok:
  assumes "queue_laws (que L)" and "sched_ok L s" and "reset_prefix_cache L cfg True rc s = Inr (ok, s')"
  shows "sched_ok L s' \<and> running s' = [] \<and> queued_mset L s' = queued_mset L s + mset (running s) \<and>
    (\<forall>r \<in> set (running s). status (store s' r) = PREEMPTED) \<and> prev_step_scheduled_req_ids s' = {}"
proof -
  from assms(3) obtain s0 w where p: "preempt_all L cfg (length (running s)) s = Inr s0"
    and s': "s' = s0\<lparr>prev_step_scheduled_req_ids := {}, world := w\<rparr>"
    by (elim reset_prefix_cache_cases) auto
  note f = preempt_all_ok [OF assms(1,2) p refl]
  have "sched_ok L s'" by (rule sched_ok_upd) (use f s' sched_okD(8) [of L "{#}" s0] in auto)
  with f s' show ?thesis by (auto simp: queued_mset_def)
qed

lemma reset_prefix_cache_ok:
  assumes "queue_laws (que L)" and "sched_ok L s" and "reset_prefix_cache L cfg rr rc s = Inr (ok, s')"
  shows "sched_ok L s'"
proof (cases rr)
  case True
  with assms(3) have "reset_prefix_cache L cfg True rc s = Inr (ok, s')" by simp
  from reset_running_ok [OF assms(1,2) this] show ?thesis by blast
next
  case False
  obtain s1 w where "\<not> rr \<longrightarrow> s1 = s" and s': "s' = s1\<lparr>world := w\<rparr>"
    by (rule reset_prefix_cache_cases [OF assms(3)])
  with False have "s' = s\<lparr>world := w\<rparr>" by simp
  with assms(2) show ?thesis by simp
qed

end
