(* ===== verification/SchedOutFacts.thy ===== *)
theory SchedOutFacts
  imports SchedQueueFacts
begin

text \<open>
  The end of \<open>schedule\<close>: what building the output and \<open>_update_after_schedule\<close> leave alone, and the
  invariant of the whole step.
\<close>

section \<open>Building the output\<close>

lemma build_output_facts:
  assumes "build_output L cfg s loc = Inr (out, s')"
  shows "so_num_scheduled_tokens out = num_scheduled_tokens loc"
    "so_total_num_scheduled_tokens out = total_scheduled loc"
    "so_has_structured_output_requests out = False"
    "so_finished_req_ids out = finished_req_ids s"
    "so_preempted_req_ids out = reset_preempted_req_ids s"
    "\<exists>p w. s' = s\<lparr>prev_step_scheduled_req_ids := p, world := w\<rparr>"
proof -
  have "so_num_scheduled_tokens out = num_scheduled_tokens loc \<and>
    so_total_num_scheduled_tokens out = total_scheduled loc \<and>
    so_has_structured_output_requests out = False \<and>
    so_finished_req_ids out = finished_req_ids s \<and>
    so_preempted_req_ids out = reset_preempted_req_ids s \<and>
    (s' = s\<lparr>prev_step_scheduled_req_ids := prev_step_scheduled_req_ids s', world := world s'\<rparr>)"
    using assms
    by (cases "use_v2_model_runner cfg"; cases "needs_kv_cache_zeroing cfg")
      (auto simp: build_output_def Let_def bindE_eq_Inr case_prod_beta)
  then show "so_num_scheduled_tokens out = num_scheduled_tokens loc"
    "so_total_num_scheduled_tokens out = total_scheduled loc"
    "so_has_structured_output_requests out = False"
    "so_finished_req_ids out = finished_req_ids s"
    "so_preempted_req_ids out = reset_preempted_req_ids s"
    "\<exists>p w. s' = s\<lparr>prev_step_scheduled_req_ids := p, world := w\<rparr>" by blast+
qed

section \<open>Advancing the computed tokens\<close>

lemma after_schedule_one_facts:
  assumes "after_schedule_one cfg (r, n) (b, s) = Inr (b', s')"
  shows "r \<in> set (requests s)" "running s' = running s" "waiting s' = waiting s"
    "skipped_waiting s' = skipped_waiting s" "requests s' = requests s"
    "num_waiting_for_streaming_input s' = num_waiting_for_streaming_input s"
    "pause_state s' = pause_state s"
    "\<And>x. x \<noteq> r \<Longrightarrow> store s' x = store s x"
    "status (store s' r) = status (store s r)"
    "num_computed_tokens (store s' r) = num_computed_tokens (store s r) + n"
    "is_prefill_chunk (store s' r) \<longleftrightarrow> num_computed_tokens (store s' r)
       < num_tokens (store s' r) + num_output_placeholders (store s' r)"
    "inflight_prefills s' = inflight_prefills s - (if is_prefill_chunk (store s' r) then {} else {r})"
  using assms by (auto simp: after_schedule_one_def Let_def num_tokens_def split: if_splits)

lemma after_schedule_each_facts:
  assumes "after_schedule_each cfg es (b, s) = Inr (b', s')" and "distinct (map fst es)"
  shows "running s' = running s \<and> waiting s' = waiting s \<and> skipped_waiting s' = skipped_waiting s \<and>
    requests s' = requests s \<and> pause_state s' = pause_state s \<and>
    num_waiting_for_streaming_input s' = num_waiting_for_streaming_input s \<and>
    (\<forall>r. status (store s' r) = status (store s r)) \<and>
    (\<forall>r. num_computed_tokens (store s' r) = num_computed_tokens (store s r)
            + (case map_of es r of None \<Rightarrow> 0 | Some n \<Rightarrow> n)) \<and>
    (\<forall>r \<in> fst ` set es. is_prefill_chunk (store s' r) \<longleftrightarrow> num_computed_tokens (store s' r)
       < num_tokens (store s' r) + num_output_placeholders (store s' r)) \<and>
    inflight_prefills s' = inflight_prefills s - {r \<in> fst ` set es. \<not> is_prefill_chunk (store s' r)} \<and>
    (\<forall>r. r \<notin> fst ` set es \<longrightarrow> store s' r = store s r)"
  using assms
proof (induction es arbitrary: b s)
  case (Cons e es)
  obtain r n where e: "e = (r, n)" by (cases e)
  from Cons.prems(1) obtain b1 s1 where o: "after_schedule_one cfg (r, n) (b, s) = Inr (b1, s1)"
    and k: "after_schedule_each cfg es (b1, s1) = Inr (b', s')"
    by (auto simp: exc_simps e)
  note f = after_schedule_one_facts [OF o]
  have nr: "r \<notin> fst ` set es" and d: "distinct (map fst es)" using Cons.prems(2) e by auto
  note i = Cons.IH [OF k d]
  have same: "store s' r = store s1 r" using i nr by blast
  have none: "map_of es r = None" using nr by (simp add: map_of_eq_None_iff)
  have inf: "inflight_prefills s' = inflight_prefills s - {x \<in> fst ` set (e # es). \<not> is_prefill_chunk (store s' x)}"
    using i f(12) same e by auto
  have comp: "num_computed_tokens (store s' x) = num_computed_tokens (store s x)
            + (case map_of (e # es) x of None \<Rightarrow> 0 | Some n \<Rightarrow> n)" for x
    using i f(8) [of x] f(10) same none e by (cases "x = r") auto
  have st: "status (store s' x) = status (store s x)" for x
    using i f(8) [of x] f(9) by (cases "x = r") auto
  have "\<forall>x \<in> fst ` set (e # es). is_prefill_chunk (store s' x) \<longleftrightarrow> num_computed_tokens (store s' x)
       < num_tokens (store s' x) + num_output_placeholders (store s' x)"
  proof
    fix x assume "x \<in> fst ` set (e # es)"
    then show "is_prefill_chunk (store s' x) \<longleftrightarrow> num_computed_tokens (store s' x)
       < num_tokens (store s' x) + num_output_placeholders (store s' x)"
      using i f(11) same e by (cases "x = r") (simp_all only: same f(11), auto)
  qed
  moreover have "\<forall>x. x \<notin> fst ` set (e # es) \<longrightarrow> store s' x = store s x" using i f(8) e by auto
  moreover have "running s' = running s" "waiting s' = waiting s" "skipped_waiting s' = skipped_waiting s"
    "requests s' = requests s" "pause_state s' = pause_state s"
    "num_waiting_for_streaming_input s' = num_waiting_for_streaming_input s"
    using i f(2-7) by simp_all
  ultimately show ?case using inf comp st by blast
qed simp

lemma update_after_schedule_facts:
  assumes "update_after_schedule cfg out s = Inr (out', s')"
  obtains b b' s1 where "after_schedule_each cfg (so_num_scheduled_tokens out) (b, s) = Inr (b', s1)"
    "s' = s1\<lparr>finished_req_ids := {}, reset_preempted_req_ids := {}\<rparr>"
    "out' = out\<lparr>so_has_structured_output_requests := b'\<rparr>"
  using assms that by (auto simp: update_after_schedule_def exc_simps)

lemma finish_step_facts:
  assumes "finish_step L cfg out s = Inr (out', s')"
  obtains w n b b' s1 where
    "after_schedule_each cfg (so_num_scheduled_tokens out) (b, s\<lparr>sched_step_seq := n, world := w\<rparr>) = Inr (b', s1)"
    "s' = s1\<lparr>finished_req_ids := {}, reset_preempted_req_ids := {}\<rparr>"
    "out' = out\<lparr>so_has_structured_output_requests := b'\<rparr>"
proof -
  obtain s0 where u: "update_after_schedule cfg out s0 = Inr (out', s')"
    and s0: "\<exists>n w. s0 = s\<lparr>sched_step_seq := n, world := w\<rparr>"
  proof (rule that)
    let ?s1 = "if has_connector cfg then on_world (conn_build_connector_meta (conn L) out) s else s"
    let ?s2 = "if has_ec_connector cfg then on_world (ec_build_connector_meta (enc L) out) ?s1 else ?s1"
    let ?s3 = "if defer_block_free cfg \<and> 0 < so_total_num_scheduled_tokens out
               then ?s2\<lparr>sched_step_seq := sched_step_seq ?s2 + 1\<rparr> else ?s2"
    show "update_after_schedule cfg out ?s3 = Inr (out', s')" using assms by (simp only: finish_step_def Let_def)
    have "?s3 = s\<lparr>sched_step_seq := sched_step_seq ?s3, world := world ?s3\<rparr>" by (cases s) simp
    then show "\<exists>n w. ?s3 = s\<lparr>sched_step_seq := n, world := w\<rparr>" by blast
  qed
  from s0 obtain n w where e: "s0 = s\<lparr>sched_step_seq := n, world := w\<rparr>" by blast
  from u show thesis
    by (rule update_after_schedule_facts) (rule that, simp_all add: e)
qed

section \<open>The whole step\<close>

text \<open>
  What holds after \<open>schedule\<close>, for the output \<open>out\<close> and the state \<open>s'\<close> it leaves.
\<close>

definition step_result ::
  "('w, 'b, 'q) vllm \<Rightarrow> config \<Rightarrow> ('w, 'q) sched \<Rightarrow> scheduler_output \<Rightarrow> ('w, 'q) sched \<Rightarrow> bool" where
  "step_result L cfg s out s' \<longleftrightarrow>
     sched_ok L s' \<and>
     so_total_num_scheduled_tokens out = sum_list (map snd (so_num_scheduled_tokens out)) \<and>
     so_total_num_scheduled_tokens out \<le> step_budget cfg s \<and>
     distinct (map fst (so_num_scheduled_tokens out)) \<and>
     (\<forall>(r, n) \<in> set (so_num_scheduled_tokens out). r \<in> set (running s') \<and> 0 < n) \<and>
     int (length (running s')) \<le> max_num_running_reqs cfg \<and>
     (0 < max_num_partial_prefills cfg \<longrightarrow>
        int (card (inflight_prefills s')) \<le> max (int (card (inflight_prefills s))) (max_num_partial_prefills cfg))"

lemma schedule_result:
  assumes "sizes_ok L cfg" and "schedulable L cfg s" and "schedule L cfg thr s = Inr (out, s')"
  shows "step_result L cfg s out s'"
proof -
  from assms(3) obtain s1 loc out1 s2 where
    l: "schedule_loops L cfg thr s = Inr (s1, loc)"
    and b: "build_output L cfg s1 loc = Inr (out1, s2)"
    and f: "finish_step L cfg out1 s2 = Inr (out, s')"
    by (auto simp: schedule_def schedule_requests_def exc_simps)
  note i = schedule_loops_inv [OF l assms(1,2)]
  have q: "q_list (que L) (q_empty (que L)) = []" using assms(1) queue_lawsD(1) by (auto simp: sizes_ok_def)
  from i q have ok: "sched_ok L s1" and d: "distinct (map fst (num_scheduled_tokens loc))"
    and k: "set (map fst (num_scheduled_tokens loc)) \<subseteq> set (running s1)"
    and t: "total_scheduled loc + token_budget loc = step_budget cfg s" "0 \<le> token_budget loc"
    and p: "\<forall>n \<in> set (map snd (num_scheduled_tokens loc)). 0 < n"
    and m: "int (length (running s1)) \<le> max_num_running_reqs cfg"
    and c: "0 < max_num_partial_prefills cfg \<longrightarrow> int (card (inflight_prefills s1)) \<le>
      max (int (card (inflight_prefills s))) (max_num_partial_prefills cfg)"
    unfolding wait_inv_def by auto
  note bf = build_output_facts [OF b]
  from bf(6) obtain pv w where s2: "s2 = s1\<lparr>prev_step_scheduled_req_ids := pv, world := w\<rparr>" by blast
  obtain w' n' bb bb' s3 where
    a: "after_schedule_each cfg (num_scheduled_tokens loc) (bb, s2\<lparr>sched_step_seq := n', world := w'\<rparr>) = Inr (bb', s3)"
    and s': "s' = s3\<lparr>finished_req_ids := {}, reset_preempted_req_ids := {}\<rparr>"
    and o: "out = out1\<lparr>so_has_structured_output_requests := bb'\<rparr>"
    using finish_step_facts [OF f] bf(1) by metis
  note g = after_schedule_each_facts [OF a d]
  have fin: "finite (inflight_prefills s1)" by (rule sched_okD(8) [OF ok])
  have inf: "inflight_prefills s' \<subseteq> inflight_prefills s1" using g s2 s' by auto
  have "sched_ok L s'"
    by (rule sched_ok_upd [OF ok]) (use g s2 s' fin in auto)
  moreover have "int (card (inflight_prefills s')) \<le> int (card (inflight_prefills s1))"
    using card_mono [OF fin inf] by simp
  moreover have "running s' = running s1" using g s2 s' by simp
  ultimately show ?thesis
    using bf(1,2) o d k t p m c unfolding step_result_def by (auto simp: total_scheduled_def)
qed

section \<open>The step ends\<close>

lemma unfuelled_mapE: "(\<And>x. unfuelled (f x)) \<Longrightarrow> unfuelled (mapE f xs)"
  by (induction xs) (auto intro!: unfuelled_bind)

lemma unfuelled_cached [fuel_free]: "unfuelled (add_cached_requests L cfg s loc b rs d)"
  by (induction rs arbitrary: d)
    (auto simp: add_cached_request_def Let_def intro!: unfuelled_bind split: option.splits)

lemma unfuelled_new [fuel_free]: "unfuelled (new_request_of L cfg s loc r)"
  by (simp add: new_request_of_def split: option.splits)

lemma unfuelled_spec [fuel_free]: "unfuelled (spec_tokens_to_schedule cfg loc)"
  by (simp add: spec_tokens_to_schedule_def py_nth_def split: option.splits)

lemma unfuelled_build [fuel_free]: "unfuelled (build_output L cfg s loc)"
  unfolding build_output_def make_cached_request_data_def Let_def
  by (intro unfuelled_bind unfuelled_struct unfuelled_mapE fuel_free) simp_all

lemma unfuelled_after [fuel_free]: "unfuelled (after_schedule_each cfg es st)"
  by (induction es arbitrary: st)
    (auto simp: after_schedule_one_def Let_def intro!: unfuelled_bind split: prod.splits)

lemma unfuelled_finish [fuel_free]: "unfuelled (finish_step L cfg out s)"
  unfolding finish_step_def update_after_schedule_def Let_def
  by (intro unfuelled_bind unfuelled_struct fuel_free) simp

lemma schedule_unfuelled:
  assumes "sizes_ok L cfg" and "schedulable L cfg s"
  shows "unfuelled (schedule L cfg thr s)"
  unfolding schedule_def schedule_requests_def
  by (intro unfuelled_bind unfuelled_struct fuel_free unfuelled_schedule [OF assms]) simp_all

end
