(* ===== verification/SchedExample.thy ===== *)
theory SchedExample
  imports SchedOutFacts
begin

text \<open>
  A concrete library on which the scheduler's properties are evaluated: the deque of the FCFS policy,
  a KV cache that is a counter of free slots, no connector and no encoder; and two requests.
\<close>

definition ex_kv :: "(nat, unit) kv_lib" where
  "ex_kv = \<lparr>
     kv_new_step_starts = (\<lambda>w. w),
     kv_allocate_slots = (\<lambda>q a w. if 0 < w then (Some (), w - 1) else (None, w)),
     kv_allocate_slots_default = (\<lambda>q n la w. if 0 < w then (Some (), w - 1) else (None, w)),
     kv_get_computed_blocks = (\<lambda>q w. (((), 0), w)),
     kv_longest_hit_per_group = (\<lambda>q n w. (((), [0]), w)),
     kv_uncached_common_prefix = (\<lambda>w. 0),
     kv_empty_blocks = (),
     kv_get_blocks = (\<lambda>r w. ()),
     kv_free = (\<lambda>r w. Suc w),
     kv_pop_blocks_for_free = (\<lambda>r w. ([1], w)),
     kv_pool_free_blocks = (\<lambda>bs w. w + length bs),
     kv_num_blocks_to_allocate = (\<lambda>q n w. 1),
     kv_cache_blocks = (\<lambda>r n w. w),
     kv_get_block_ids = (\<lambda>r w. [[0, 1, 2, 3]]),
     kv_evict_blocks = (\<lambda>bs w. w),
     kv_reset_prefix_cache = (\<lambda>w. (True, w)),
     kv_remove_skipped_blocks = (\<lambda>r c p w. w),
     kv_block_ids_for_computed = (\<lambda>r n w. [[0]]),
     kv_common_prefix_blocks = (\<lambda>r w. [0]),
     kv_take_new_block_ids = (\<lambda>w. ([], w)),
     kv_block_ids_of = (\<lambda>b. Some [[0]])\<rparr>"

definition ex_enc :: "nat enc_lib" where
  "ex_enc = \<lparr>
     enc_check_and_update_cache = (\<lambda>q i w. (False, w)),
     enc_can_allocate = (\<lambda>q i b e w. (mm_embeds (mm_features q ! i) \<le> b, w)),
     enc_allocate = (\<lambda>q i w. w),
     enc_free = (\<lambda>q w. w),
     enc_free_encoder_input = (\<lambda>q i w. w),
     enc_cached_input_ids = (\<lambda>q w. []),
     enc_freed_mm_hashes = (\<lambda>w. ([], w)),
     mm_features_in_window = (\<lambda>fs a b. (0, length (takeWhile (\<lambda>f. mm_offset f < b) fs))),
     mm_embeds_in_range = (\<lambda>f a b. (a, b)),
     ec_has_cache_item = (\<lambda>h w. False),
     ec_update_state_after_alloc = (\<lambda>q i w. w),
     ec_build_connector_meta = (\<lambda>out w. w),
     ec_ensure_cache_available = (\<lambda>q n w. (True, w))\<rparr>"

definition ex_conn :: "(nat, unit) conn_lib" where
  "ex_conn = \<lparr>
     conn_new_matched_tokens = (\<lambda>q n w. ((Some 0, False), w)),
     conn_update_state_after_alloc = (\<lambda>q b n w. w),
     conn_on_new_request = (\<lambda>q w. w),
     conn_request_finished = (\<lambda>q ids w. ((False, None), w)),
     conn_request_finished_all_groups = (\<lambda>q ids w. ((False, None), w)),
     conn_reset_cache = (\<lambda>w. (Some True, w)),
     conn_build_connector_meta = (\<lambda>out w. w),
     conn_has_pending_push_work = (\<lambda>w. False),
     conn_update_connector_output = (\<lambda>a b w. w)\<rparr>"

definition ex_que :: "rid list queue_lib" where
  "ex_que = \<lparr>
     q_list = (\<lambda>q. q),
     q_empty = [],
     q_peek = (\<lambda>q. case q of [] \<Rightarrow> None | r # _ \<Rightarrow> Some r),
     q_pop = (\<lambda>st q. case q of [] \<Rightarrow> None | r # rs \<Rightarrow> Some (r, rs)),
     q_add = (\<lambda>st r q. q @ [r]),
     q_prepend = (\<lambda>st r q. r # q),
     q_prepend_all = (\<lambda>st k q. rev k @ q),
     q_remove_all = (\<lambda>st rs q. filter (\<lambda>r. r \<notin> set rs) q),
     q_less = (\<lambda>a b. arrival_time a < arrival_time b)\<rparr>"

text \<open>A request stops at the token 0.\<close>

definition ex_rql :: "nat req_lib" where
  "ex_rql = \<lparr>
     append_output_token_ids = (\<lambda>q t. q\<lparr>output_token_ids := output_token_ids q @ [t],
                                        all_token_ids := all_token_ids q @ [t]\<rparr>),
     check_stop = (\<lambda>q n. if last (all_token_ids q) = 0 then (q\<lparr>status := FINISHED_STOPPED\<rparr>, True) else (q, False)),
     take_output_state = (\<lambda>q. q),
     update_from_request = (\<lambda>q. None),
     so_should_advance = (\<lambda>q w. False),
     so_trim_reasoning = (\<lambda>q ts w. ts),
     so_accept_tokens = (\<lambda>q ts w. (True, w)),
     so_validate_tokens = (\<lambda>q ts w. ts)\<rparr>"

definition ex_vllm :: "(nat, unit, rid list) vllm" where
  "ex_vllm = \<lparr>kv = ex_kv, enc = ex_enc, conn = ex_conn, que = ex_que, rql = ex_rql\<rparr>"

definition ex_cfg :: config where
  "ex_cfg = \<lparr>
     max_num_running_reqs = 4, max_num_scheduled_tokens = 16, max_model_len = 100,
     num_sampled_tokens_per_step = 1, long_prefill_token_threshold = 0, max_num_partial_prefills = 1,
     enable_chunked_prefill = True, disable_chunked_mm_input = False, num_spec_tokens = 0,
     num_lookahead_tokens = 0, dynamic_sd_lookup = None, use_eagle = False, has_mamba_layers = False,
     need_mamba_block_aligned_split = False, cache_block_size = 4, block_size = 4, policy = FCFS,
     max_loras = None, has_connector = False, hybrid_coordinator = False, connector_supports_hma = False,
     num_kv_cache_groups = 1, has_ec_connector = False, is_encoder_decoder = False,
     max_num_encoder_input_tokens = 8, defer_block_free = True, recompute_kv_load_failures = False,
     scheduler_reserve_full_isl = False, use_v2_model_runner = False, use_pp = False,
     async_scheduling = False, needs_kv_cache_zeroing = False, log_stats = False\<rparr>"

definition ex_req :: "rid \<Rightarrow> int list \<Rightarrow> request" where
  "ex_req r ts = \<lparr>
     request_id = r, status = WAITING, num_computed_tokens = 0, num_prompt_tokens = int (length ts),
     prompt_token_ids = ts, all_token_ids = ts, output_token_ids = [], spec_token_ids = [],
     num_output_placeholders = 0, max_tokens = 10, next_decode_eligible_step = 0,
     is_prefill_chunk = False, mm_features = [], priority = 0, arrival_time = 0, lora_int_id = None,
     num_preemptions = 0, last_sched_seq = 0, use_structured_output = False, has_grammar = False,
     resumable = False, streaming_queue = None, client_index = 0, async_tokens_to_discard = 0,
     is_pooling = False, sampling_params = 0, prefill_stats = None\<rparr>"

text \<open>
  \<open>a\<close> is running with one computed token of two, \<open>b\<close> waits with a prompt of twenty tokens, longer
  than a step's budget.
\<close>

definition ex_a :: request where
  "ex_a = (ex_req ''a'' [7, 8])\<lparr>status := RUNNING, num_computed_tokens := 1\<rparr>"

definition ex_b :: request where
  "ex_b = ex_req ''b'' (replicate 20 5)"

definition ex_sched :: "(nat, rid list) sched" where
  "ex_sched = \<lparr>
     requests = [''a'', ''b''],
     store = (\<lambda>r. if r = ''a'' then ex_a else ex_b),
     waiting = [''b''], skipped_waiting = [], running = [''a''],
     finished_req_ids = {}, finished_req_ids_dict = None, reset_preempted_req_ids = {},
     num_waiting_for_streaming_input = 0, finished_recving_kv_req_ids = {},
     failed_recving_kv_req_ids = {}, inflight_prefills = {}, prev_step_scheduled_req_ids = {},
     current_step = 0, prefill_capacity_bound = False, sched_step_seq = 0, processed_step_seq = 0,
     deferred_frees = [], pause_state = UNPAUSED, world = 3\<rparr>"

lemmas ex_lib_defs = ex_vllm_def ex_kv_def ex_enc_def ex_conn_def ex_que_def ex_rql_def
lemmas ex_state_defs = ex_sched_def ex_a_def ex_b_def ex_req_def

lemma ex_queue_laws: "queue_laws ex_que"
  by (auto simp: queue_laws_def ex_que_def mset_filter split: list.splits)

lemma ex_window_ok: "window_ok ex_vllm"
  unfolding window_ok_def
proof (intro allI impI)
  fix fs a b i
  assume i: "i < snd (mm_features_in_window (enc ex_vllm) fs a b)"
  then have "i < length (takeWhile (\<lambda>f. mm_offset f < b) fs)" by (simp add: ex_vllm_def ex_enc_def)
  moreover from this have "fs ! i \<in> set (takeWhile (\<lambda>f. mm_offset f < b) fs)"
    by (metis nth_mem takeWhile_nth)
  ultimately show "i < length fs \<and> mm_offset (fs ! i) < b"
    by (auto dest: set_takeWhileD intro: less_le_trans [OF _ length_takeWhile_le])
qed

lemma ex_fits_ok: "fits_ok ex_vllm"
  by (simp add: fits_ok_def ex_vllm_def ex_enc_def)

lemma ex_sizes_ok: "sizes_ok ex_vllm ex_cfg"
  using ex_queue_laws ex_window_ok by (simp add: sizes_ok_def ex_vllm_def ex_cfg_def)

lemma ex_sched_ok: "sched_ok ex_vllm ex_sched"
  by (simp add: sched_ok_with_def queued_mset_def ex_lib_defs ex_state_defs)

lemma ex_schedulable: "schedulable ex_vllm ex_cfg ex_sched"
  using ex_sched_ok
  by (simp add: schedulable_def demand_ok_def num_tokens_with_spec_def ex_cfg_def ex_state_defs)

text \<open>One step: \<open>a\<close> gets its second token, \<open>b\<close> the first fifteen of its prompt, and is in flight.\<close>

definition ex_step :: "(scheduler_output \<times> (nat, rid list) sched) res" where
  "ex_step = schedule ex_vllm ex_cfg False ex_sched"

definition res_of :: "'a res \<Rightarrow> ('a \<Rightarrow> bool) \<Rightarrow> bool" where
  "res_of m P = (case m of Inl e \<Rightarrow> False | Inr x \<Rightarrow> P x)"

lemma res_of_obtain: "res_of m P \<Longrightarrow> (\<And>x. m = Inr x \<Longrightarrow> P x \<Longrightarrow> thesis) \<Longrightarrow> thesis"
  by (cases m) (auto simp: res_of_def)

lemma ex_step_scheduled:
  "res_of ex_step (\<lambda>(out, s). so_num_scheduled_tokens out = [(''a'', 1), (''b'', 15)] \<and>
     running s = [''a'', ''b''] \<and> ''b'' \<in> inflight_prefills s)"
  by code_simp

text \<open>The output of a step that scheduled one token of \<open>a\<close>.\<close>

definition ex_out :: scheduler_output where
  "ex_out = \<lparr>so_scheduled_new_reqs = [], so_scheduled_cached_reqs =
      \<lparr>cd_req_ids = [], cd_resumed_req_ids = {}, cd_new_token_ids = [], cd_all_token_ids = [],
       cd_new_block_ids = [], cd_num_computed_tokens = [], cd_num_output_tokens = []\<rparr>,
     so_num_scheduled_tokens = [(''a'', 1)], so_total_num_scheduled_tokens = 1,
     so_scheduled_spec_decode_tokens = [], so_scheduled_encoder_inputs = [], so_num_common_prefix_blocks = [],
     so_preempted_req_ids = {}, so_finished_req_ids = {}, so_free_encoder_mm_hashes = [],
     so_new_block_ids_to_zero = None, so_num_spec_tokens_to_schedule = 0,
     so_has_structured_output_requests = False, so_num_invalid_spec_tokens = []\<rparr>"

end
