(* ===== verification/SchedProps.thy ===== *)
theory SchedProps
  imports SchedExample
begin

text \<open>
  The properties of the scheduler: a step of \<open>schedule\<close> as a whole, the limits it respects, and the
  operations that add, finish and preempt requests.
\<close>

section \<open>A step of \<open>schedule\<close>\<close>

text \<open>
  C6. The three assertions at the end of the scheduling loops of \<open>schedule\<close> never fail: started in a
  state whose queues are consistent, whose running requests have demand that fits the model length and
  number at most \<open>max_num_running_reqs\<close>, \<open>schedule\<close> behaves as if the assertions were not there.
\<close>

theorem scheduling_assertions_hold:
  assumes "sizes_ok L cfg" and "schedulable L cfg s"
  shows "schedule_requests L cfg thr s = schedule_loops L cfg thr s"
proof (cases "schedule_loops L cfg thr s")
  case (Inr x)
  obtain s' loc where x: "x = (s', loc)" by (cases x)
  with Inr have l: "schedule_loops L cfg thr s = Inr (s', loc)" by simp
  have "step_budget cfg s \<le> max_num_scheduled_tokens cfg"
    using assms(2) by (simp add: step_budget_def schedulable_def)
  from constraints_of_wait_inv [OF schedule_loops_inv [OF l assms] this] l
  show ?thesis by (simp add: schedule_requests_def)
qed (simp add: schedule_requests_def)

theorem scheduling_assertions_hold_witness:
  "schedule_requests ex_vllm ex_cfg False ex_sched = schedule_loops ex_vllm ex_cfg False ex_sched"
  by (rule scheduling_assertions_hold [OF ex_sizes_ok ex_schedulable])

text \<open>
  C2. A step of \<open>schedule\<close> keeps the queue invariant (each live request is in exactly one of
  \<open>running\<close>, \<open>waiting\<close> and \<open>skipped_waiting\<close>, and the counter counts the paused sessions), schedules
  each request at most once and only running ones, each with at least one token, and never more tokens
  in total than the step's budget, which is 0 when everything is paused.
\<close>

theorem schedule_keeps_queues_and_budget:
  assumes "sizes_ok L cfg" and "schedulable L cfg s" and "schedule L cfg thr s = Inr (out, s')"
  shows "sched_ok L s' \<and>
    so_total_num_scheduled_tokens out = sum_list (map snd (so_num_scheduled_tokens out)) \<and>
    so_total_num_scheduled_tokens out \<le> step_budget cfg s \<and>
    distinct (map fst (so_num_scheduled_tokens out)) \<and>
    (\<forall>(r, n) \<in> set (so_num_scheduled_tokens out). r \<in> set (running s') \<and> 0 < n) \<and>
    int (length (running s')) \<le> max_num_running_reqs cfg"
  using schedule_result [OF assms] unfolding step_result_def by blast

lemma ex_step_result: "\<exists>out s'. schedule ex_vllm ex_cfg False ex_sched = Inr (out, s') \<and>
    so_num_scheduled_tokens out = [(''a'', 1), (''b'', 15)] \<and> ''b'' \<in> inflight_prefills s'"
  using ex_step_scheduled by (auto simp: ex_step_def elim!: res_of_obtain)

theorem schedule_keeps_queues_and_budget_witness:
  "\<exists>out s'. schedule ex_vllm ex_cfg False ex_sched = Inr (out, s') \<and> sched_ok ex_vllm s' \<and>
     so_total_num_scheduled_tokens out = 16 \<and> so_total_num_scheduled_tokens out \<le> step_budget ex_cfg ex_sched"
proof -
  obtain out s' where o: "schedule ex_vllm ex_cfg False ex_sched = Inr (out, s')"
    "so_num_scheduled_tokens out = [(''a'', 1), (''b'', 15)]"
    using ex_step_result by blast
  with schedule_keeps_queues_and_budget [OF ex_sizes_ok ex_schedulable o(1)] show ?thesis by auto
qed

text \<open>
  C5. The admission gate on partial prefills: with \<open>max_num_partial_prefills\<close> set, a step of
  \<open>schedule\<close> never raises the number of in-flight prefills above that limit (a number that was
  already above it can only fall).
\<close>

theorem partial_prefill_gate:
  assumes "sizes_ok L cfg" and "schedulable L cfg s" and "schedule L cfg thr s = Inr (out, s')"
    and "0 < max_num_partial_prefills cfg"
  shows "int (card (inflight_prefills s')) \<le> max (int (card (inflight_prefills s))) (max_num_partial_prefills cfg)"
  using schedule_result [OF assms(1-3)] assms(4) unfolding step_result_def by blast

theorem partial_prefill_gate_witness:
  "\<exists>out s'. schedule ex_vllm ex_cfg False ex_sched = Inr (out, s') \<and>
     ''b'' \<in> inflight_prefills s' \<and> card (inflight_prefills s') \<le> 1"
proof -
  obtain out s' where o: "schedule ex_vllm ex_cfg False ex_sched = Inr (out, s')" "''b'' \<in> inflight_prefills s'"
    using ex_step_result by blast
  have "0 < max_num_partial_prefills ex_cfg" by (simp add: ex_cfg_def)
  from partial_prefill_gate [OF ex_sizes_ok ex_schedulable o(1) this] o show ?thesis
    by (auto simp: ex_cfg_def ex_sched_def)
qed

text \<open>
  C7. \<open>schedule\<close> ends: the fuel of the admission loop (one unit per queued request and one more) never
  runs out, because every iteration that goes on takes a request out of the queues.
\<close>

theorem schedule_terminates:
  assumes "sizes_ok L cfg" and "schedulable L cfg s"
  shows "schedule L cfg thr s \<noteq> Inl FuelExhausted"
  using schedule_unfuelled [OF assms] by (simp add: unfuelled_def)

theorem schedule_terminates_witness: "schedule ex_vllm ex_cfg False ex_sched \<noteq> Inl FuelExhausted"
  by (rule schedule_terminates [OF ex_sizes_ok ex_schedulable])

text \<open>
  C13. \<open>_update_after_schedule\<close> advances each scheduled request by exactly the tokens it was given, leaves
  every other request alone, drops from the in-flight prefills exactly the scheduled requests that are
  no longer prefilling, and starts fresh sets of finished and preempted ids.
\<close>

theorem after_schedule_advances:
  assumes "update_after_schedule cfg out s = Inr (out', s')"
    and "distinct (map fst (so_num_scheduled_tokens out))"
  shows "(\<forall>r. num_computed_tokens (store s' r) = num_computed_tokens (store s r)
            + (case map_of (so_num_scheduled_tokens out) r of None \<Rightarrow> 0 | Some n \<Rightarrow> n)) \<and>
    (\<forall>r. r \<notin> fst ` set (so_num_scheduled_tokens out) \<longrightarrow> store s' r = store s r) \<and>
    inflight_prefills s' = inflight_prefills s -
      {r \<in> fst ` set (so_num_scheduled_tokens out). num_tokens (store s' r) + num_output_placeholders (store s' r)
          \<le> num_computed_tokens (store s' r)} \<and>
    finished_req_ids s' = {} \<and> reset_preempted_req_ids s' = {}"
proof -
  from assms(1) obtain b b' s1 where
    a: "after_schedule_each cfg (so_num_scheduled_tokens out) (b, s) = Inr (b', s1)"
    and s': "s' = s1\<lparr>finished_req_ids := {}, reset_preempted_req_ids := {}\<rparr>"
    by (rule update_after_schedule_facts)
  note f = after_schedule_each_facts [OF a assms(2)]
  have "{r \<in> fst ` set (so_num_scheduled_tokens out). \<not> is_prefill_chunk (store s1 r)} =
    {r \<in> fst ` set (so_num_scheduled_tokens out). num_tokens (store s1 r) + num_output_placeholders (store s1 r)
          \<le> num_computed_tokens (store s1 r)}"
    using f by (auto simp: not_less)
  with f s' show ?thesis by auto
qed

theorem after_schedule_advances_witness:
  "\<exists>out' s'. update_after_schedule ex_cfg ex_out ex_sched = Inr (out', s') \<and>
     num_computed_tokens (store s' ''a'') = 2"
proof -
  have "res_of (update_after_schedule ex_cfg ex_out ex_sched) (\<lambda>_. True)" by code_simp
  then obtain x where "update_after_schedule ex_cfg ex_out ex_sched = Inr x" by (elim res_of_obtain)
  then obtain out' s' where u: "update_after_schedule ex_cfg ex_out ex_sched = Inr (out', s')" by (cases x) simp
  from after_schedule_advances [OF u] u show ?thesis
    by (auto simp: ex_out_def ex_sched_def ex_a_def)
qed

end
