(* ===== verification/SchedQueueProps.thy ===== *)
theory SchedQueueProps
  imports SchedExample
begin

text \<open>
  Properties of the operations around the queues: adding, finishing, preempting and counting requests,
  and the FIFO of deferred block frees.
\<close>

section \<open>Adding and finishing\<close>

text \<open>
  \<open>add_request\<close> keeps the queue invariant: a new request that waits (for a slot or for its grammar)
  enters exactly one queue and the table of live requests, and for a known session the update is stored,
  continues the paused session, or ends it.
\<close>

theorem add_request_keeps_queues:
  assumes "queue_laws (que L)" and "sched_ok L s" and "add_request L cfg req s = Inr s'"
    and "status req \<in> {WAITING, WAITING_FOR_STRUCTURED_OUTPUT_GRAMMAR}"
  shows "sched_ok L s' \<and>
    (request_id req \<notin> set (requests s) \<longrightarrow>
       requests s' = requests s @ [request_id req] \<and>
       queued_mset L s' = add_mset (request_id req) (queued_mset L s))"
  using assms by (rule add_request_ok)

theorem add_request_keeps_queues_witness:
  "\<exists>s'. add_request ex_vllm ex_cfg (ex_req ''c'' [1]) ex_sched = Inr s' \<and> sched_ok ex_vllm s' \<and>
     requests s' = [''a'', ''b'', ''c'']"
proof -
  have "res_of (add_request ex_vllm ex_cfg (ex_req ''c'' [1]) ex_sched) (\<lambda>_. True)" by code_simp
  then obtain s' where a: "add_request ex_vllm ex_cfg (ex_req ''c'' [1]) ex_sched = Inr s'" by (elim res_of_obtain)
  have Q: "queue_laws (que ex_vllm)" using ex_queue_laws by (simp add: ex_vllm_def)
  from add_request_keeps_queues [OF Q ex_sched_ok a] a show ?thesis by (auto simp: ex_req_def ex_sched_def)
qed

text \<open>
  C8. \<open>finish_requests\<close> keeps the queue invariant, answers with exactly the named requests that were
  alive, gives each of them the finished status, and takes exactly them out of \<open>running\<close> and both waiting
  queues, whatever status they were in.
\<close>

theorem finish_requests_removes:
  assumes "queue_laws (que L)" and "sched_ok L s" and "finish_requests L cfg (Some ids) st s = Inr (out, s')"
  shows "sched_ok L s' \<and>
    set (map fst out) = {r \<in> set ids. r \<in> set (requests s) \<and> \<not> is_finished (status (store s r))} \<and>
    (\<forall>r \<in> set (map fst out). status (store s' r) = st) \<and>
    running s' = filter (\<lambda>r. r \<notin> set ids) (running s) \<and>
    queued_mset L s' = filter_mset (\<lambda>r. r \<notin> set ids) (queued_mset L s)"
proof -
  let ?v = "finishable s (remdups ids)"
  note f = finish_requests_ok [OF assms, simplified, OF refl]
  have v: "set ?v = {r \<in> set ids. r \<in> set (requests s) \<and> \<not> is_finished (status (store s r))}"
    by (auto simp: finishable_def)
  have "filter (\<lambda>r. r \<notin> set ?v) (running s) = filter (\<lambda>r. r \<notin> set ids) (running s)"
    using sched_okD(2,6) [OF assms(2)] unfolding v by (intro filter_cong) auto
  moreover have "filter_mset (\<lambda>r. r \<notin> set ?v) (queued_mset L s) = filter_mset (\<lambda>r. r \<notin> set ids) (queued_mset L s)"
    using sched_okD(3,7) [OF assms(2)] unfolding v by (intro filter_mset_cong) auto
  moreover have "set (map fst out) = set ?v" by (simp only: f(2))
  ultimately show ?thesis using f v by auto
qed

theorem finish_requests_removes_witness:
  "\<exists>out s'. finish_requests ex_vllm ex_cfg (Some [''a'', ''x'', ''b'']) FINISHED_ABORTED ex_sched = Inr (out, s') \<and>
     set (map fst out) = {''a'', ''b''} \<and> running s' = [] \<and> sched_ok ex_vllm s'"
proof -
  have "res_of (finish_requests ex_vllm ex_cfg (Some [''a'', ''x'', ''b'']) FINISHED_ABORTED ex_sched) (\<lambda>_. True)"
    by code_simp
  then obtain x where "finish_requests ex_vllm ex_cfg (Some [''a'', ''x'', ''b'']) FINISHED_ABORTED ex_sched = Inr x"
    by (elim res_of_obtain)
  then obtain out s' where a: "finish_requests ex_vllm ex_cfg (Some [''a'', ''x'', ''b'']) FINISHED_ABORTED ex_sched = Inr (out, s')"
    by (cases x) simp
  have Q: "queue_laws (que ex_vllm)" using ex_queue_laws by (simp add: ex_vllm_def)
  note f = finish_requests_removes [OF Q ex_sched_ok a]
  have "{r \<in> set [''a'', ''x'', ''b'']. r \<in> set (requests ex_sched) \<and> \<not> is_finished (status (store ex_sched r))} = {''a'', ''b''}"
    by (auto simp: ex_state_defs)
  with f a show ?thesis by (auto simp: ex_sched_def)
qed

section \<open>Preempting\<close>

text \<open>
  \<open>reset_prefix_cache\<close> with \<open>reset_running_requests\<close>: when it returns, no request is running, each
  request that was running is preempted and waits in a queue, the queue invariant holds, and the record
  of the previous step's requests is empty.
\<close>

theorem reset_preempts_everything:
  assumes "queue_laws (que L)" and "sched_ok L s" and "reset_prefix_cache L cfg True rc s = Inr (ok, s')"
  shows "sched_ok L s' \<and> running s' = [] \<and> queued_mset L s' = queued_mset L s + mset (running s) \<and>
    (\<forall>r \<in> set (running s). status (store s' r) = PREEMPTED) \<and> prev_step_scheduled_req_ids s' = {}"
  using assms by (rule reset_running_ok)

theorem reset_preempts_everything_witness:
  "\<exists>ok s'. reset_prefix_cache ex_vllm ex_cfg True False ex_sched = Inr (ok, s') \<and> running s' = [] \<and>
     status (store s' ''a'') = PREEMPTED \<and> sched_ok ex_vllm s'"
proof -
  have "res_of (reset_prefix_cache ex_vllm ex_cfg True False ex_sched) (\<lambda>_. True)" by code_simp
  then obtain x where "reset_prefix_cache ex_vllm ex_cfg True False ex_sched = Inr x" by (elim res_of_obtain)
  then obtain ok s' where a: "reset_prefix_cache ex_vllm ex_cfg True False ex_sched = Inr (ok, s')" by (cases x) simp
  have Q: "queue_laws (que ex_vllm)" using ex_queue_laws by (simp add: ex_vllm_def)
  from reset_preempts_everything [OF Q ex_sched_ok a] a show ?thesis by (auto simp: ex_sched_def)
qed

lemma py_max_ge:
  "\<not> key_less (st (py_max_from st best rs)) (st best) \<and>
   (\<forall>r \<in> set rs. \<not> key_less (st (py_max_from st best rs)) (st r))"
proof (induction st best rs rule: py_max_from.induct)
  case (2 st best r rs)
  have tr: "key_less a c" if "key_less a b" "key_less b c" for a b c
    using that by (auto simp: key_less_def)
  have nt: "\<not> key_less a c" if "\<not> key_less a b" "\<not> key_less b c" for a b c
    using that by (auto simp: key_less_def)
  show ?case
  proof (cases "key_less (st best) (st r)")
    case True
    then have "\<not> key_less (st r) (st best)" by (auto simp: key_less_def)
    with True 2 nt show ?thesis by (auto intro: nt)
  next
    case False
    with 2 nt show ?thesis by (auto intro: nt)
  qed
qed (simp add: key_less_def)

text \<open>
  Under the priority policy the victim of a preemption is a running request of the highest
  (priority, arrival time) key, that is of the lowest urgency; under FCFS it is the last of \<open>running\<close>.
\<close>

theorem victim_is_least_urgent:
  assumes "running s \<noteq> []"
  shows "victim_of cfg s \<in> set (running s) \<and>
    (policy cfg = PRIORITY \<longrightarrow> (\<forall>r \<in> set (running s). \<not> key_less (store s (victim_of cfg s)) (store s r))) \<and>
    (policy cfg = FCFS \<longrightarrow> victim_of cfg s = last (running s))"
proof (cases "running s")
  case (Cons x xs)
  with py_max_ge [of "store s" x xs] victim_in [OF assms, of cfg] show ?thesis
    by (auto simp: victim_of_def)
qed (use assms in simp)

theorem victim_is_least_urgent_witness:
  "victim_of (ex_cfg\<lparr>policy := PRIORITY\<rparr>) (ex_sched\<lparr>running := [''a'', ''b'']\<rparr>) \<in> {''a'', ''b''}"
  using victim_is_least_urgent [of "ex_sched\<lparr>running := [''a'', ''b'']\<rparr>" "ex_cfg\<lparr>policy := PRIORITY\<rparr>"] by simp

text \<open>One preemption: the victim leaves \<open>running\<close> and starts over.\<close>

lemma preempt_victim_moves:
  assumes "preempt_victim L cfg idx s loc = Inr (v, idx', s', loc')"
  shows "mset (running s) = add_mset v (mset (running s'))"
    "store s' = (store s)(v := (store s v)\<lparr>status := PREEMPTED, num_computed_tokens := 0,
        spec_token_ids := [], num_preemptions := num_preemptions (store s v) + 1\<rparr>)"
    "preempted_reqs loc' = preempted_reqs loc @ [v]"
proof -
  from assms obtain sx b where c: "running s \<noteq> []" "v = victim_of cfg s"
    "sx = s\<lparr>running := (if policy cfg = PRIORITY then remove1 v (running s) else butlast (running s))\<rparr>"
    "preempt_request L cfg v sx = Inr s'"
    "loc' = (if b then unschedule (store s v) v loc else loc)\<lparr>preempted_reqs := preempted_reqs loc @ [v]\<rparr>"
    by (rule preempt_victim_cases) blast
  note f = preempt_request_frame [OF c(4)]
  show "mset (running s) = add_mset v (mset (running s'))"
  proof (cases "policy cfg = PRIORITY")
    case True
    with victim_in [OF c(1), of cfg] f(1) c(2,3) show ?thesis by simp
  next
    case False
    then have "v = last (running s)" using c(2) by (simp add: victim_of_def)
    then have "running s = running s' @ [v]" using c(1,3) False f(1) by simp
    then show ?thesis by simp
  qed
  show "store s' = (store s)(v := (store s v)\<lparr>status := PREEMPTED, num_computed_tokens := 0,
        spec_token_ids := [], num_preemptions := num_preemptions (store s v) + 1\<rparr>)" using f(4) c(3) by simp
  show "preempted_reqs loc' = preempted_reqs loc @ [v]" using c(5) by simp
qed

text \<open>
  C14. The allocation loop for a running request: it moves requests from \<open>running\<close> to the preempted ones
  and does nothing else to \<open>running\<close>, each of them is \<open>PREEMPTED\<close> with its computed tokens forgotten, and it
  returns without blocks exactly when the request itself was the last victim.
\<close>

theorem allocation_preempts:
  assumes "allocate_or_preempt L cfg r n idx s loc = Inr (got, idx', s', loc')"
  shows "\<exists>ps. preempted_reqs loc' = preempted_reqs loc @ ps \<and>
    mset (running s) = mset (running s') + mset ps \<and>
    (\<forall>v \<in> set ps. status (store s' v) = PREEMPTED \<and> num_computed_tokens (store s' v) = 0) \<and>
    (if got = None then ps \<noteq> [] \<and> last ps = r else r \<notin> set ps)"
proof -
  let ?R = "\<lambda>ps s' loc'. preempted_reqs loc' = preempted_reqs loc @ ps \<and>
    mset (running s) = mset (running s') + mset ps \<and>
    (\<forall>v \<in> set ps. status (store s' v) = PREEMPTED \<and> num_computed_tokens (store s' v) = 0)"
  let ?P = "\<lambda>idx s' loc'. \<exists>ps. ?R ps s' loc' \<and> r \<notin> set ps"
  let ?Q = "\<lambda>idx s' loc'. \<exists>ps. ?R ps s' loc' \<and> ps \<noteq> [] \<and> last ps = r"
  have "if got = None then ?Q idx' s' loc' else ?P idx' s' loc'"
  proof (rule allocate_or_preempt_invariant [OF assms, of ?P ?Q])
    show "?P idx s loc" by simp
  next
    fix idx2 s2 loc2 v idx1 s1 loc1
    assume P: "?P idx2 s2 loc2" and p: "preempt_victim L cfg idx2 s2 loc2 = Inr (v, idx1, s1, loc1)"
    from P obtain ps where ps: "?R ps s2 loc2" "r \<notin> set ps" by blast
    from preempt_victim_moves [OF p] have "mset (running s2) = add_mset v (mset (running s1))"
      "store s1 = (store s2)(v := (store s2 v)\<lparr>status := PREEMPTED, num_computed_tokens := 0,
        spec_token_ids := [], num_preemptions := num_preemptions (store s2 v) + 1\<rparr>)"
      "preempted_reqs loc1 = preempted_reqs loc2 @ [v]" .
    then have R: "?R (ps @ [v]) s1 loc1" using ps by auto
    show "if v = r then ?Q idx1 s1 loc1 else ?P idx1 s1 loc1"
    proof (cases "v = r")
      case True
      with R have "?R (ps @ [v]) s1 loc1 \<and> ps @ [v] \<noteq> [] \<and> last (ps @ [v]) = r" by simp
      then have "?Q idx1 s1 loc1" by (rule exI)
      then show ?thesis by (simp only: if_P [OF True])
    next
      case False
      with R ps(2) have "?R (ps @ [v]) s1 loc1 \<and> r \<notin> set (ps @ [v])" by simp
      then have "?P idx1 s1 loc1" by (rule exI)
      then show ?thesis by (simp only: if_not_P [OF False])
    qed
  qed auto
  then show ?thesis by (auto split: if_splits)
qed

theorem allocation_preempts_witness:
  "\<exists>idx' s' loc'. allocate_or_preempt ex_vllm ex_cfg ''a'' 1 0 (ex_sched\<lparr>world := 0\<rparr>) (initial_step ex_cfg ex_sched)
       = Inr (None, idx', s', loc') \<and> preempted_reqs loc' = [''a''] \<and> running s' = []"
proof -
  let ?m = "allocate_or_preempt ex_vllm ex_cfg ''a'' 1 0 (ex_sched\<lparr>world := 0\<rparr>) (initial_step ex_cfg ex_sched)"
  have "res_of ?m (\<lambda>(got, _). got = None)" by code_simp
  then obtain x where "?m = Inr x" "fst x = None" by (elim res_of_obtain) (auto split: prod.splits)
  then obtain idx' s' loc' where m: "?m = Inr (None, idx', s', loc')" by (metis prod.exhaust fst_conv)
  from allocation_preempts [OF m] obtain ps where
    "preempted_reqs loc' = ps" "mset [''a''] = mset (running s') + mset ps" "ps \<noteq> []" "last ps = ''a''"
    by (auto simp: initial_step_def ex_sched_def)
  moreover from this have "size (mset (running s')) + size (mset ps) = 1"
    by (metis size_union size_mset length_Cons list.size(3) One_nat_def)
  ultimately have "running s' = []" "ps = [''a'']" by (cases ps; auto)+
  with m \<open>preempted_reqs loc' = ps\<close> show ?thesis by blast
qed

end
