(* ===== verification/SchedTokenProps.thy ===== *)
theory SchedTokenProps
  imports SchedExample
begin

text \<open>
  Properties of the token arithmetic: block-aligned splits, encoder budgets, counts, deferred frees,
  appended and draft tokens, and the truncation after KV blocks that failed to load.
\<close>

section \<open>How many tokens\<close>



text \<open>
  C16. \<open>_try_schedule_encoder_inputs\<close> only lowers the number of new tokens, never below zero, and accounts
  for every embedding: what is left of the encoder budget plus the embeddings of the inputs to encode is
  the budget it was given, and nothing is overdrawn.
\<close>

theorem encoder_inputs_within_budget:
  assumes "try_schedule_encoder_inputs L cfg req computed n budget shift w = Inr ((ins, n', budget', ext), w')"
    and "window_ok L" and "fits_ok L" and "0 \<le> n" and "0 \<le> budget"
  shows "0 \<le> n' \<and> n' \<le> n \<and> 0 \<le> budget' \<and> budget' + embeds_of req ins = budget"
proof -
  have t: "0 \<le> n' \<and> n' \<le> n" using encoder_inputs_tokens [OF assms(1,2)] assms(4) by auto
  show ?thesis
  proof (cases "n = 0 \<or> \<not> has_encoder_inputs req")
    case True
    with assms(1,5) t show ?thesis by (auto simp: try_schedule_encoder_inputs_def embeds_of_def)
  next
    case False
    obtain lo0 hi where "mm_features_in_window (enc L) (mm_features req) computed (computed + n + shift) = (lo0, hi)"
      by fastforce
    with False assms(1) obtain acc where
      i: "encoder_items L cfg req computed shift [(if is_encoder_decoder cfg then 0 else lo0)..<hi]
       (\<lparr>ea_inputs = [], ea_num_new_tokens = n, ea_budget = budget,
                        ea_external = [], ea_hashes = [], ea_embeds = 0\<rparr>, w) = Inr (acc, w')"
      and "budget' = ea_budget acc" "ins = ea_inputs acc"
      by (auto simp: try_schedule_encoder_inputs_def exc_simps)
    with encoder_items_budget [OF i assms(3)] assms(5) t show ?thesis by (simp add: embeds_of_def)
  qed
qed

definition ex_mm :: request where
  "ex_mm = (ex_req ''m'' (replicate 12 5))\<lparr>mm_features :=
     [\<lparr>mm_offset = 1, mm_length = 4, mm_embeds = 5, mm_identifier = ''x''\<rparr>,
      \<lparr>mm_offset = 6, mm_length = 4, mm_embeds = 5, mm_identifier = ''y''\<rparr>]\<rparr>"

text \<open>Two images of five embeddings do not fit a budget of eight: the second one is cut off.\<close>

theorem encoder_inputs_within_budget_witness:
  "\<exists>n' budget' w. try_schedule_encoder_inputs ex_vllm ex_cfg ex_mm 0 12 8 0 3 = Inr (([0], n', budget', []), w) \<and>
     n' = 6 \<and> budget' + 5 = 8"
proof -
  have "try_schedule_encoder_inputs ex_vllm ex_cfg ex_mm 0 12 8 0 3 = Inr (([0], 6, 3, []), 3)" by code_simp
  with encoder_inputs_within_budget [OF this ex_window_ok ex_fits_ok] show ?thesis
    by (auto simp: embeds_of_def ex_mm_def)
qed

section \<open>Counts\<close>

lemma size_card: "(\<And>r. count M r \<le> 1) \<Longrightarrow> size M = card (set_mset M)"
proof (induction M)
  case (add x M)
  have c: "count M r \<le> 1" for r using add.prems [of r] by (simp split: if_splits)
  have "x \<notin># M" using add.prems [of x] by (simp add: not_in_iff)
  with add.IH [OF c] show ?case by simp
qed simp

text \<open>
  Outside a pause \<open>get_num_unfinished_requests\<close> is the number of live requests that have work to do:
  those not finished and not paused between the turns of a streaming session.
\<close>

theorem unfinished_counts_live_requests:
  assumes "sched_ok L s" and "pause_state s = UNPAUSED"
  shows "get_num_unfinished_requests L s =
    int (card {r \<in> set (requests s). \<not> is_finished (status (store s r)) \<and>
                 status (store s r) \<noteq> WAITING_FOR_STREAMING_REQ})"
proof -
  let ?W = "\<lambda>r. status (store s r) = WAITING_FOR_STREAMING_REQ"
  let ?M = "mset (running s) + filter_mset (\<lambda>r. \<not> ?W r) (queued_mset L s)"
  have "count ?M r \<le> 1" for r using sched_okD(1) [OF assms(1), of r] by auto
  then have "size ?M = card (set_mset ?M)" by (rule size_card)
  moreover have "set_mset ?M = {r \<in> set (requests s). \<not> is_finished (status (store s r)) \<and> \<not> ?W r}"
    using sched_okD(2,3,6,7,10) [OF assms(1)] by fastforce
  moreover have "size (queued_mset L s) = size (filter_mset ?W (queued_mset L s)) + size (filter_mset (\<lambda>r. \<not> ?W r) (queued_mset L s))"
    by (metis multiset_partition size_union)
  moreover have "int (size (queued_mset L s)) = q_count L (waiting s) + q_count L (skipped_waiting s)"
    by (simp add: queued_mset_def q_count_def)
  ultimately show ?thesis
    using sched_okD(9) [OF assms(1)] assms(2) by (simp add: get_num_unfinished_requests_def)
qed

theorem unfinished_counts_live_requests_witness:
  "get_num_unfinished_requests ex_vllm ex_sched = 2"
proof -
  have "{r \<in> set (requests ex_sched). \<not> is_finished (status (store ex_sched r)) \<and>
                 status (store ex_sched r) \<noteq> WAITING_FOR_STREAMING_REQ} = {''a'', ''b''}"
    by (auto simp: ex_state_defs)
  with unfinished_counts_live_requests [OF ex_sched_ok] show ?thesis by (simp add: ex_sched_def)
qed

section \<open>Deferred frees\<close>

text \<open>
  C9. The fence of deferred block frees: draining hands back to the pool, oldest first and each in reverse
  order, exactly the blocks whose fence is a step already processed, keeps every later one pending, and keeps
  the FIFO sorted; and freeing a request whose last step is still in flight hands nothing back.
\<close>

theorem deferred_frees_wait_for_their_step:
  assumes "fences_ok s"
  shows "deferred_frees (drain_deferred_frees L s) = filter (\<lambda>e. processed_step_seq s < fst e) (deferred_frees s) \<and>
    world (drain_deferred_frees L s) = fold (kv_pool_free_blocks (kv L))
       (map (rev \<circ> snd) (filter (\<lambda>e. fst e \<le> processed_step_seq s) (deferred_frees s))) (world s) \<and>
    fences_ok (drain_deferred_frees L s) \<and> fences_ok (free_request_blocks L cfg r s) \<and>
    (defer_block_free cfg \<and> processed_step_seq s < last_sched_seq (store s r) \<longrightarrow>
       (\<exists>es. deferred_frees (free_request_blocks L cfg r s) = deferred_frees s @ es \<and>
          (\<forall>e \<in> set es. fst e = sched_step_seq s) \<and> concat (map snd es) = fst (kv_pop_blocks_for_free (kv L) r (world s)) \<and>
          world (free_request_blocks L cfg r s) = snd (kv_pop_blocks_for_free (kv L) r (world s))))"
proof -
  have "sorted (map fst (deferred_frees s))" using assms by (simp add: fences_ok_def)
  from drain_from_spec [OF this, of "kv_pool_free_blocks (kv L)" "processed_step_seq s" "world s"]
  have "deferred_frees (drain_deferred_frees L s) = filter (\<lambda>e. processed_step_seq s < fst e) (deferred_frees s)"
    "world (drain_deferred_frees L s) = fold (kv_pool_free_blocks (kv L))
       (map (rev \<circ> snd) (filter (\<lambda>e. fst e \<le> processed_step_seq s) (deferred_frees s))) (world s)"
    by (auto simp: drain_deferred_frees_def split: prod.splits)
  moreover have "\<exists>es. deferred_frees (free_request_blocks L cfg r s) = deferred_frees s @ es \<and>
      (\<forall>e \<in> set es. fst e = sched_step_seq s) \<and> concat (map snd es) = fst (kv_pop_blocks_for_free (kv L) r (world s)) \<and>
      world (free_request_blocks L cfg r s) = snd (kv_pop_blocks_for_free (kv L) r (world s))"
    if "defer_block_free cfg" "processed_step_seq s < last_sched_seq (store s r)"
    using that by (cases "kv_pop_blocks_for_free (kv L) r (world s)")
      (auto simp: free_request_blocks_def intro: exI [of _ "[(sched_step_seq s, fst (kv_pop_blocks_for_free (kv L) r (world s)))]"])
  ultimately show ?thesis using drain_fences [OF assms] free_request_blocks_fences [OF assms] by blast
qed

theorem deferred_frees_wait_for_their_step_witness:
  "deferred_frees (drain_deferred_frees ex_vllm
     (ex_sched\<lparr>deferred_frees := [(1, [4]), (2, [5, 6])], processed_step_seq := 1, sched_step_seq := 2\<rparr>)) = [(2, [5, 6])]"
proof -
  have "fences_ok (ex_sched\<lparr>deferred_frees := [(1, [4]), (2, [5, 6])], processed_step_seq := 1, sched_step_seq := 2\<rparr>)"
    by (simp add: fences_ok_def)
  from deferred_frees_wait_for_their_step [OF this, of ex_vllm] show ?thesis by simp
qed

end
