(* ===== verification/SchedUpdateProps.thy ===== *)
theory SchedUpdateProps
  imports SchedExample
begin

text \<open>
  Properties of the processing of a step's results: the tokens kept of an output, the draft tokens put
  into a step, and the truncation after KV blocks that failed to load.
\<close>

section \<open>Tokens kept\<close>

text \<open>
  What \<open>update_request_with_output\<close> relies on of vLLM's requests: an appended token ends the token list,
  and \<open>check_stop\<close> leaves the list alone.
\<close>

definition append_ok :: "'w req_lib \<Rightarrow> bool" where
  "append_ok R \<longleftrightarrow>
     (\<forall>q t. all_token_ids (append_output_token_ids R q t) = all_token_ids q @ [t]) \<and>
     (\<forall>q n. all_token_ids (fst (check_stop R q n)) = all_token_ids q)"

text \<open>
  \<open>_update_request_with_output\<close> keeps a prefix of the new tokens and appends exactly that prefix to the
  request; unless the request stopped, it keeps all of them, and a request that stopped keeps at least the
  token it stopped at.
\<close>

theorem output_tokens_kept:
  assumes "append_ok R" and "append_until_stop R max_len ts q = (kept, stopped, q')"
  shows "(\<exists>rest. ts = kept @ rest \<and> (\<not> stopped \<longrightarrow> rest = [])) \<and> (stopped \<longrightarrow> kept \<noteq> []) \<and>
    all_token_ids q' = all_token_ids q @ kept"
  using assms(2)
proof (induction ts arbitrary: q kept)
  case (Cons t ts)
  obtain q1 b where c: "check_stop R (append_output_token_ids R q t) max_len = (q1, b)" by fastforce
  have q1: "all_token_ids q1 = all_token_ids q @ [t]"
    using assms(1) c unfolding append_ok_def by (metis fst_conv)
  show ?case
  proof (cases b)
    case True
    with Cons.prems c q1 show ?thesis by auto
  next
    case False
    obtain k st q2 where r: "append_until_stop R max_len ts q1 = (k, st, q2)" by (metis prod.exhaust)
    with False Cons.prems c have e: "kept = t # k" "stopped = st" "q' = q2" by simp_all
    with Cons.IH [of q1 k] r q1 show ?thesis by auto
  qed
qed simp

theorem output_tokens_kept_witness:
  "\<exists>q'. append_until_stop ex_rql 100 [3, 0, 4] ex_a = ([3, 0], True, q') \<and> all_token_ids q' = [7, 8, 3, 0]"
proof -
  have "(case append_until_stop ex_rql 100 [3, 0, 4] ex_a of (kept, stopped, q') \<Rightarrow> kept = [3, 0] \<and> stopped)"
    by code_simp
  then obtain q' where e: "append_until_stop ex_rql 100 [3, 0, 4] ex_a = ([3, 0], True, q')"
    by (auto split: prod.splits)
  have "append_ok ex_rql" by (simp add: append_ok_def ex_rql_def)
  from output_tokens_kept [OF this e] e show ?thesis by (simp add: ex_a_def ex_req_def)
qed

section \<open>Draft tokens\<close>



section \<open>Blocks that failed to load\<close>






end
