(* ===== verification/SchedProgress.thy ===== *)
theory SchedProgress
  imports SchedExample
begin

text \<open>
  What the loop over the running requests does when nothing stands in its way: each request that is eligible gets
  all the tokens it asks for.
\<close>

section \<open>Demands\<close>











section \<open>The loop\<close>





section \<open>Properties\<close>





end
