(* ===== verification/SchedUpdateFacts.thy ===== *)
theory SchedUpdateFacts
  imports SchedOutFacts
begin

text \<open>
  The queue invariant through \<open>update_from_output\<close>. While the loop runs, a request that stopped is still
  in \<open>running\<close>; the invariant holds of the state without the requests that stopped so far.
\<close>

section \<open>Leaving \<open>running\<close>\<close>

lemma sched_ok_drop:
  assumes "sched_ok L s" and "running s' = filter (\<lambda>x. x \<noteq> r) (running s)" and "queued_mset L s' = queued_mset L s"
    and "r \<notin># queued_mset L s" and "\<And>x. x \<noteq> r \<Longrightarrow> status (store s' x) = status (store s x)"
    and "is_finished (status (store s' r))"
    and "requests s' = requests s \<or> requests s' = remove1 r (requests s)"
    and "finite (inflight_prefills s')" "num_waiting_for_streaming_input s' = num_waiting_for_streaming_input s"
  shows "sched_ok L s'"
  unfolding sched_ok_with_def add.right_neutral
proof (intro conjI allI ballI)
  fix x
  have "count (mset (running s')) x \<le> count (mset (running s)) x" by (simp add: assms(2))
  with sched_okD(1) [OF assms(1), of x] show "count (mset (running s') + queued_mset L s') x \<le> 1"
    by (simp add: assms(3))
next
  have d: "distinct (requests s)" by (rule sched_okD(5) [OF assms(1)])
  have nq: "x \<noteq> r" if "x \<in># queued_mset L s" for x using assms(4) that by metis
  show "set_mset (mset (running s') + queued_mset L s') \<subseteq> set (requests s')"
  proof
    fix x assume "x \<in># mset (running s') + queued_mset L s'"
    then have "x \<noteq> r" "x \<in> set (requests s)"
      using sched_okD(2,3) [OF assms(1), of x] nq [of x] by (auto simp: assms(2,3))
    then show "x \<in> set (requests s')" using assms(7) d by auto
  qed
  show "distinct (requests s')" using assms(7) d by (auto simp: distinct_remove1)
  have "filter_mset (\<lambda>x. status (store s' x) = WAITING_FOR_STREAMING_REQ) (queued_mset L s)
      = filter_mset (\<lambda>x. status (store s x) = WAITING_FOR_STREAMING_REQ) (queued_mset L s)"
    by (rule filter_mset_cong [OF refl]) (simp add: assms(5) nq)
  then show "num_waiting_for_streaming_input s' = int (size
      (filter_mset (\<lambda>x. status (store s' x) = WAITING_FOR_STREAMING_REQ) (queued_mset L s')))"
    using sched_okD(9) [OF assms(1)] assms(9) by (simp add: assms(3))
next
  fix x assume "x \<in> set (running s')"
  then show "status (store s' x) = RUNNING" using sched_okD(6) [OF assms(1), of x] assms(2,5) by auto
next
  fix x assume x: "x \<in># queued_mset L s'"
  then have "x \<noteq> r" using assms(3,4) by metis
  with x sched_okD(7) [OF assms(1), of x]
  show "\<not> is_finished (status (store s' x))" "status (store s' x) \<noteq> RUNNING" by (auto simp: assms(3,5))
next
  fix x assume "x \<in> set (requests s')"
  then have "x \<in> set (requests s)" using assms(7) by (auto dest: set_remove1_subset [THEN subsetD])
  with sched_okD(10) [OF assms(1), of x] assms(5,6)
  show "is_finished (status (store s' x)) \<or> x \<in># mset (running s') + queued_mset L s'"
    by (cases "x = r") (auto simp: assms(2,3))
qed (use assms(8) in simp)

lemma sched_ok_requeue:
  assumes "sched_ok L s" and "r \<in> set (running s)" and "running s' = filter (\<lambda>x. x \<noteq> r) (running s)"
    and "queued_mset L s' = add_mset r (queued_mset L s)"
    and "\<And>x. x \<noteq> r \<Longrightarrow> status (store s' x) = status (store s x)"
    and "\<not> is_finished (status (store s' r))" "status (store s' r) \<noteq> RUNNING"
    and "requests s' = requests s" "finite (inflight_prefills s')"
    and "num_waiting_for_streaming_input s' = num_waiting_for_streaming_input s
      + (if status (store s' r) = WAITING_FOR_STREAMING_REQ then 1 else 0)"
  shows "sched_ok L s'"
  unfolding sched_ok_with_def add.right_neutral
proof (intro conjI allI ballI)
  have nq: "r \<notin># queued_mset L s" using sched_ok_apart [OF assms(1,2)] by simp
  have ne: "x \<noteq> r" if "x \<in># queued_mset L s" for x using nq that by metis
  have run: "mset (running s) = add_mset r (mset (running s'))"
    using filter_remove1 [OF sched_ok_running_distinct [OF assms(1)], of r] assms(2,3) by simp
  have m: "mset (running s') + queued_mset L s' = mset (running s) + queued_mset L s" by (simp add: run assms(4))
  fix x
  show "count (mset (running s') + queued_mset L s') x \<le> 1"
    unfolding m using sched_okD(1) [OF assms(1), of x] by simp
  show "set_mset (mset (running s') + queued_mset L s') \<subseteq> set (requests s')"
    unfolding m assms(8) using sched_okD(2,3) [OF assms(1)] by auto
  show "distinct (requests s')" using sched_okD(5) [OF assms(1)] assms(8) by simp
  show "finite (inflight_prefills s')" by (rule assms(9))
  have "filter_mset (\<lambda>x. status (store s' x) = WAITING_FOR_STREAMING_REQ) (queued_mset L s)
      = filter_mset (\<lambda>x. status (store s x) = WAITING_FOR_STREAMING_REQ) (queued_mset L s)"
    by (rule filter_mset_cong [OF refl]) (simp add: assms(5) ne)
  then show "num_waiting_for_streaming_input s' = int (size
      (filter_mset (\<lambda>x. status (store s' x) = WAITING_FOR_STREAMING_REQ) (queued_mset L s')))"
    using sched_okD(9) [OF assms(1)] assms(10) by (simp add: assms(4))
  show "status (store s' x) = RUNNING" if "x \<in> set (running s')"
    using that sched_okD(6) [OF assms(1), of x] assms(3,5) by auto
  show "\<not> is_finished (status (store s' x))" "status (store s' x) \<noteq> RUNNING" if "x \<in># queued_mset L s'"
    using that sched_okD(7) [OF assms(1), of x] assms(4-7) by (cases "x = r"; auto)+
  show "is_finished (status (store s' x)) \<or> x \<in># mset (running s') + queued_mset L s'" if "x \<in> set (requests s')"
    unfolding m using that sched_okD(10) [OF assms(1), of x] assms(2,5,8) by (cases "x = r") auto
qed

section \<open>One request\<close>

text \<open>
  What the handler relies on of vLLM's requests: appending a token and taking the output state leave the
  status alone, and \<open>check_stop\<close> sets a finished status exactly when it answers that the request stopped.
\<close>

definition stop_ok :: "'w req_lib \<Rightarrow> bool" where
  "stop_ok R \<longleftrightarrow>
     (\<forall>q t. status (append_output_token_ids R q t) = status q) \<and>
     (\<forall>q n. if snd (check_stop R q n) then is_finished (status (fst (check_stop R q n)))
            else status (fst (check_stop R q n)) = status q) \<and>
     (\<forall>q. status (take_output_state R q) = status q)"

lemma append_until_stop_status:
  assumes "stop_ok R" and "append_until_stop R n ts q = (kept, stopped, q')"
  shows "if stopped then is_finished (status q') else status q' = status q"
  using assms(2)
proof (induction ts arbitrary: q kept)
  case (Cons t ts)
  obtain q1 b where c: "check_stop R (append_output_token_ids R q t) n = (q1, b)" by fastforce
  have a: "status (append_output_token_ids R q t) = status q" using assms(1) unfolding stop_ok_def by blast
  have s: "if b then is_finished (status q1) else status q1 = status q"
    using assms(1) c a unfolding stop_ok_def by (metis fst_conv snd_conv)
  show ?case
  proof (cases b)
    case True
    with Cons.prems c s show ?thesis by auto
  next
    case False
    obtain k st q2 where r: "append_until_stop R n ts q1 = (k, st, q2)" by (metis prod.exhaust)
    with False Cons.prems c have "stopped = st" "q' = q2" by simp_all
    with Cons.IH [of q1 k] r s False show ?thesis by auto
  qed
qed simp

text \<open>The requests that have stopped so far are left out of \<open>running\<close>.\<close>

definition settled :: "update_acc \<Rightarrow> ('w, 'q) sched \<Rightarrow> ('w, 'q) sched" where
  "settled acc s = s\<lparr>running := filter (\<lambda>r. r \<notin> set (ua_stopped_running acc)) (running s)\<rparr>"

lemma settled_simps [simp]:
  "store (settled acc s) = store s" "requests (settled acc s) = requests s"
  "queued_mset L (settled acc s) = queued_mset L s"
  "inflight_prefills (settled acc s) = inflight_prefills s"
  "num_waiting_for_streaming_input (settled acc s) = num_waiting_for_streaming_input s"
  "running (settled acc s) = filter (\<lambda>r. r \<notin> set (ua_stopped_running acc)) (running s)"
  by (simp_all add: settled_def queued_mset_def)

text \<open>What the steps before the settling of a request change: its own record, not its status.\<close>

definition touched :: "rid \<Rightarrow> ('w, 'q) sched \<Rightarrow> ('w, 'q) sched \<Rightarrow> bool" where
  "touched r s s' \<longleftrightarrow> running s' = running s \<and> waiting s' = waiting s \<and> skipped_waiting s' = skipped_waiting s \<and>
     requests s' = requests s \<and> inflight_prefills s' = inflight_prefills s \<and>
     num_waiting_for_streaming_input s' = num_waiting_for_streaming_input s \<and>
     (\<forall>x. x \<noteq> r \<longrightarrow> store s' x = store s x)"

lemma touched_ok:
  assumes "touched r s s'" and "status (store s' r) = status (store s r)" and "sched_ok L (settled acc s)"
  shows "sched_ok L (settled acc s')"
proof (rule sched_ok_upd [OF assms(3)])
  show "finite (inflight_prefills (settled acc s'))"
    using assms(1) sched_okD(8) [OF assms(3)] by (simp add: touched_def)
  show "status (store (settled acc s') x) = status (store (settled acc s) x)" for x
    using assms(1,2) by (cases "x = r") (auto simp: touched_def)
qed (use assms(1) in \<open>simp_all add: touched_def settled_def\<close>)

lemma advance_grammar_touched:
  assumes "advance_grammar L r ts s = Inr (rejected, s')"
  shows "touched r s s'"
    "if rejected then is_finished (status (store s' r)) else status (store s' r) = status (store s r)"
  using assms
  by (auto simp: advance_grammar_def Let_def exc_simps touched_def split: if_splits prod.splits bool.splits)

lemma handle_stopped_cases:
  assumes "handle_stopped_request L r s = (finished, s')"
  obtains (ends) "finished" "touched r s s'" "status (store s' r) = status (store s r)"
    | (requeued) "\<not> finished" "\<exists>s1. touched r s (s1\<lparr>num_waiting_for_streaming_input := num_waiting_for_streaming_input s\<rparr>) \<and>
        s' = enqueue_waiting_request L r s1 \<and>
        status (store s1 r) \<in> {WAITING, WAITING_FOR_STREAMING_REQ} \<and>
        (status (store s r) \<noteq> WAITING_FOR_STREAMING_REQ \<longrightarrow>
        num_waiting_for_streaming_input s1 = num_waiting_for_streaming_input s
          + (if status (store s1 r) = WAITING_FOR_STREAMING_REQ then 1 else 0))"
proof (cases "resumable (store s r)")
  case False
  with assms show thesis by (intro ends) (auto simp: handle_stopped_request_def touched_def)
next
  case True
  let ?requeue = "\<lambda>s1. touched r s (s1\<lparr>num_waiting_for_streaming_input := num_waiting_for_streaming_input s\<rparr>) \<and>
      s' = enqueue_waiting_request L r s1 \<and> status (store s1 r) \<in> {WAITING, WAITING_FOR_STREAMING_REQ} \<and>
      (status (store s r) \<noteq> WAITING_FOR_STREAMING_REQ \<longrightarrow>
      num_waiting_for_streaming_input s1 = num_waiting_for_streaming_input s
        + (if status (store s1 r) = WAITING_FOR_STREAMING_REQ then 1 else 0))"
  have again: thesis if "\<not> finished" "?requeue s1" for s1 using that(1) exI [of ?requeue, OF that(2)] by (rule requeued)
  let ?pause = "(upd_req r (\<lambda>q. q\<lparr>status := WAITING_FOR_STREAMING_REQ\<rparr>) s)
      \<lparr>num_waiting_for_streaming_input := num_waiting_for_streaming_input s + 1\<rparr>"
  consider "streaming_queue (store s r) \<in> {None, Some []}" | us where "streaming_queue (store s r) = Some (None # us)"
    | u us where "streaming_queue (store s r) = Some (Some u # us)"
    by (metis insertCI list.exhaust option.exhaust)
  then show thesis
  proof cases
    case 1
    with True assms have "\<not> finished" "s' = enqueue_waiting_request L r ?pause"
      by (auto simp: handle_stopped_request_def Let_def)
    then show thesis by (intro again [of ?pause]) (simp_all add: touched_def)
  next
    case 2
    with True assms show thesis by (intro ends) (auto simp: handle_stopped_request_def touched_def)
  next
    case (3 u us)
    let ?s1 = "update_request_as_session r u (upd_req r (\<lambda>q. q\<lparr>streaming_queue := Some us\<rparr>) s)"
    from 3 True assms have "\<not> finished" "s' = enqueue_waiting_request L r ?s1"
      by (auto simp: handle_stopped_request_def)
    then show thesis
      by (intro again [of ?s1]) (simp_all add: touched_def update_request_as_session_def session_after_def Let_def)
  qed
qed

lemma touched_trans: "touched r s t \<Longrightarrow> touched r t u \<Longrightarrow> touched r s u"
  by (auto simp: touched_def)

text \<open>Appending what was generated touches the request at hand, and ends it exactly when it says so.\<close>

lemma settle_generated:
  assumes "((kept, stopped0), s1) =
            (if generated \<noteq> [] then update_request_with_output L cfg r generated s
             else if is_pooling (store s r) \<and> po \<noteq> None
             then (([], True), upd_req r (\<lambda>q. q\<lparr>status := FINISHED_STOPPED\<rparr>) s)
             else (([], False), s))"
    and "stop_ok (rql L)"
  shows "touched r s s1 \<and>
    (if stopped0 then is_finished (status (store s1 r)) else status (store s1 r) = status (store s r))"
proof (cases "generated \<noteq> []")
  case True
  obtain q where "append_until_stop (rql L) (max_model_len cfg) generated (store s r) = (kept, stopped0, q)"
    "s1 = s\<lparr>store := (store s)(r := q)\<rparr>"
    using assms(1) True by (auto simp: update_request_with_output_def split: prod.splits)
  with append_until_stop_status [OF assms(2) this(1)] show ?thesis by (simp add: touched_def)
next
  case False
  with assms(1) show ?thesis by (auto simp: touched_def split: if_splits)
qed

lemma settled_running:
  "running (settled (acc\<lparr>ua_stopped_running := ua_stopped_running acc @ [r]\<rparr>) s) =
     filter (\<lambda>x. x \<noteq> r) (running (settled acc s))"
  by simp (rule filter_cong, auto)

text \<open>A stopped request that is freed leaves \<open>running\<close>.\<close>

lemma settle_freed:
  assumes "sched_ok L (settled acc s)" and "r \<notin># queued_mset L (settled acc s)"
    and "free_request L cfg r False s3 = Inr (params, s4)" and t3: "touched r s s3" and f2: "is_finished (status (store s3 r))"
    and acc1: "acc1 = acc\<lparr>ua_stopped_running := ua_stopped_running acc @ [r]\<rparr>"
  shows "sched_ok L (settled acc1 s4) \<and> (\<forall>x. x \<noteq> r \<longrightarrow> store s4 x = store s x) \<and> set (requests s4) \<subseteq> set (requests s)"
proof -
  note ff = free_request_frame [OF assms(3)]
  have fin: "finite (inflight_prefills s)" using sched_okD(8) [OF assms(1)] by simp
  have run1: "running (settled acc1 s) = filter (\<lambda>x. x \<noteq> r) (running (settled acc s))"
    unfolding acc1 by (rule settled_running)
  have st3: "store s4 x = store s x" if "x \<noteq> r" for x using that t3 ff(4) by (simp add: touched_def)
  have "sched_ok L (settled acc1 s4)"
  proof (rule sched_ok_drop [OF assms(1), where r = r])
    show "running (settled acc1 s4) = filter (\<lambda>x. x \<noteq> r) (running (settled acc s))"
      using run1 ff(1) t3 by (simp add: touched_def)
    show "queued_mset L (settled acc1 s4) = queued_mset L (settled acc s)"
      using ff(2,3) t3 by (simp add: touched_def queued_mset_def settled_def)
    show "is_finished (status (store (settled acc1 s4) r))" using f2 ff(4) by simp
    show "requests (settled acc1 s4) = requests (settled acc s) \<or>
        requests (settled acc1 s4) = remove1 r (requests (settled acc s))"
      using ff(7) t3 by (simp add: touched_def)
  qed (use assms(2) st3 ff(5,6) t3 fin in \<open>simp_all add: touched_def\<close>)
  moreover have "set (requests s4) \<subseteq> set (requests s)"
    using ff(7) t3 by (auto simp: touched_def dest: set_remove1_subset [THEN subsetD])
  ultimately show ?thesis using st3 by blast
qed

text \<open>A stopped session that goes on or pauses changes from \<open>running\<close> to a queue.\<close>

lemma settle_requeued:
  assumes "sched_ok L (settled acc s)" and "queue_laws (que L)" and run: "r \<in> set (running (settled acc s))"
    and t2: "touched r s s2" and ns: "status (store s2 r) \<noteq> WAITING_FOR_STREAMING_REQ"
    and t0: "touched r s2 (s0\<lparr>num_waiting_for_streaming_input := num_waiting_for_streaming_input s2\<rparr>)"
    and s3: "s3 = enqueue_waiting_request L r s0"
    and st0: "status (store s0 r) \<in> {WAITING, WAITING_FOR_STREAMING_REQ}"
    and n0: "status (store s2 r) \<noteq> WAITING_FOR_STREAMING_REQ \<longrightarrow>
      num_waiting_for_streaming_input s0 = num_waiting_for_streaming_input s2
      + (if status (store s0 r) = WAITING_FOR_STREAMING_REQ then 1 else 0)"
    and acc1: "acc1 = acc\<lparr>ua_stopped_running := ua_stopped_running acc @ [r]\<rparr>"
  shows "sched_ok L (settled acc1 s3) \<and> (\<forall>x. x \<noteq> r \<longrightarrow> store s3 x = store s x) \<and> requests s3 = requests s"
proof -
  note t3 = touched_trans [OF t2 t0]
  have fin: "finite (inflight_prefills s)" using sched_okD(8) [OF assms(1)] by simp
  have run1: "running (settled acc1 s) = filter (\<lambda>x. x \<noteq> r) (running (settled acc s))"
    unfolding acc1 by (rule settled_running)
  have f: "running s3 = running s" "store s3 = store s0" "requests s3 = requests s"
    "inflight_prefills s3 = inflight_prefills s"
    "num_waiting_for_streaming_input s3 = num_waiting_for_streaming_input s0"
    "queued_mset L s3 = add_mset r (queued_mset L s)"
    using t3 by (simp_all add: s3 enqueue_waiting_request_def touched_def queued_mset_def queue_lawsD(2) [OF assms(2)])
  have st3: "store s3 x = store s x" if "x \<noteq> r" for x using that t3 f(2) by (simp add: touched_def)
  have n2: "num_waiting_for_streaming_input s2 = num_waiting_for_streaming_input s" using t2 by (simp add: touched_def)
  have "sched_ok L (settled acc1 s3)"
  proof (rule sched_ok_requeue [OF assms(1) run])
    show "running (settled acc1 s3) = filter (\<lambda>x. x \<noteq> r) (running (settled acc s))"
      using run1 f(1) by simp
    show "num_waiting_for_streaming_input (settled acc1 s3) = num_waiting_for_streaming_input (settled acc s)
      + (if status (store (settled acc1 s3) r) = WAITING_FOR_STREAMING_REQ then 1 else 0)"
      using n0 n2 f(2,5) ns by simp
  qed (use f st3 st0 fin in auto)
  with f(3) st3 show ?thesis by blast
qed

lemma settle_request_inv:
  assumes "settle_request L cfg r generated po s acc = Inr (ans, s', acc')"
    and "stop_ok (rql L)" and "queue_laws (que L)"
    and "sched_ok L (settled acc s)" and "ua_stopped_preempted acc = []"
    and "r \<in> set (requests s)" "status (store s r) = RUNNING" "r \<notin> set (ua_stopped_running acc)"
  shows "sched_ok L (settled acc' s') \<and> ua_stopped_preempted acc' = [] \<and>
    (\<forall>x. x \<noteq> r \<longrightarrow> store s' x = store s x) \<and> set (requests s') \<subseteq> set (requests s) \<and>
    set (ua_stopped_running acc') \<subseteq> insert r (set (ua_stopped_running acc))"
proof -
  obtain kept stopped0 s1 where
    1: "((kept, stopped0), s1) =
            (if generated \<noteq> [] then update_request_with_output L cfg r generated s
             else if is_pooling (store s r) \<and> po \<noteq> None
             then (([], True), upd_req r (\<lambda>q. q\<lparr>status := FINISHED_STOPPED\<rparr>) s)
             else (([], False), s))" by (metis prod.exhaust)
  note t1 = settle_generated [OF 1 assms(2)]
  define acc1 where "acc1 = acc\<lparr>ua_stopped_running := ua_stopped_running acc @ [r]\<rparr>"
  from assms(1) obtain rejected s2 where g: "advance_grammar L r kept s1 = Inr (rejected, s2)"
    and k: "(if \<not> (stopped0 \<or> rejected) then Inr ((kept, False, None, None), s2, acc)
        else
          (let finish = status (store s2 r);
               (finished, s3) = handle_stopped_request L r s2
           in if finished then
                bindE (free_request L cfg r False s3) (\<lambda>(params, s4).
                  Inr ((kept, True, Some finish, params), s4, acc1))
              else Inr ((kept, True, Some finish, None), s3, acc1))) = Inr (ans, s', acc')"
    unfolding settle_request_def Let_def 1 [symmetric] acc1_def
    by (simp only: prod.case bindE_eq_Inr split_paired_Ex if_P [OF assms(7)]) blast
  note t2 = touched_trans [OF conjunct1 [OF t1] advance_grammar_touched(1) [OF g]]
  have st2: "if stopped0 \<or> rejected then is_finished (status (store s2 r)) else status (store s2 r) = status (store s r)"
    using t1 advance_grammar_touched(2) [OF g] by (auto split: if_splits)
  have run: "r \<in> set (running (settled acc s))"
    using sched_okD(10) [OF assms(4), of r] sched_okD(7) [OF assms(4), of r] assms(6,7) by auto
  then have nq: "r \<notin># queued_mset L (settled acc s)" using sched_ok_apart [OF assms(4)] by simp
  show ?thesis
  proof (cases "stopped0 \<or> rejected")
    case False
    then have e: "s' = s2" "acc' = acc" using k by simp_all
    have "sched_ok L (settled acc s2)" by (rule touched_ok [OF t2 _ assms(4)]) (use st2 False in simp)
    with t2 assms(5) e show ?thesis by (auto simp: touched_def)
  next
    case True
    obtain finished s3 where h: "handle_stopped_request L r s2 = (finished, s3)" by fastforce
    have f2: "is_finished (status (store s2 r))" using st2 True by simp
    from h show ?thesis
    proof (cases rule: handle_stopped_cases)
      case ends
      from k True h ends(1) obtain params s4 where fr: "free_request L cfg r False s3 = Inr (params, s4)"
        and e: "s' = s4" "acc' = acc1"
        by (auto simp: exc_simps Let_def)
      have "is_finished (status (store s3 r))" using f2 ends(3) by simp
      from settle_freed [OF assms(4) nq fr touched_trans [OF t2 ends(2)] this acc1_def] e assms(5)
      show ?thesis by (auto simp: acc1_def)
    next
      case requeued
      from k True h requeued(1) have e: "s' = s3" "acc' = acc1" by (auto simp: Let_def)
      have ns: "status (store s2 r) \<noteq> WAITING_FOR_STREAMING_REQ" using f2 by auto
      from requeued(2) settle_requeued [OF assms(4,3) run t2 ns _ _ _ _ acc1_def] e assms(5)
      show ?thesis by (auto simp: acc1_def)
    qed
  qed
qed

section \<open>All scheduled requests\<close>

text \<open>
  The requests still to be processed are running when they are alive, and have not stopped.
\<close>

definition update_inv ::
  "('w, 'b, 'q) vllm \<Rightarrow> rid set \<Rightarrow> ('w, 'q) sched \<Rightarrow> update_acc \<Rightarrow> bool" where
  "update_inv L todo s acc \<longleftrightarrow>
     sched_ok L (settled acc s) \<and> ua_stopped_preempted acc = [] \<and>
     (\<forall>r \<in> todo. r \<notin> set (ua_stopped_running acc) \<and> (live s r \<longrightarrow> status (store s r) = RUNNING))"

lemma update_one_inv:
  assumes "update_one L cfg out mo failed (r, n) (s, acc) = Inr (s', acc')"
    and "stop_ok (rql L)" and "queue_laws (que L)"
    and "update_inv L (insert r todo) s acc" and "r \<notin> todo"
  shows "update_inv L todo s' acc'"
proof (cases "r \<in> failed \<or> \<not> live s r")
  case True
  with assms(1) have "s' = s" "acc' = acc" by (auto simp: update_one_def exc_simps)
  with assms(4) show ?thesis by (simp add: update_inv_def)
next
  case False
  then have l: "live s r" by simp
  have ok: "sched_ok L (settled acc s)" and p: "ua_stopped_preempted acc = []"
    and run: "status (store s r) = RUNNING" and nr: "r \<notin> set (ua_stopped_running acc)"
    using assms(4) l by (simp_all add: update_inv_def)
  define spec where "spec = map_of (so_scheduled_spec_decode_tokens out) r"
  obtain i where i: "map_of (mo_req_id_to_index mo) r = Some i"
    using assms(1) False by (cases "map_of (mo_req_id_to_index mo) r") (simp_all add: update_one_def bindE_eq_Inr)
  from assms(1) obtain generated po nt st fi pa s3 acc1 s2 where
    s2: "s2 = (let s1 = upd_req r (take_back_rejected cfg spec generated) s
               in if has_encoder_inputs (store s1 r) then free_encoder_inputs L cfg r s1 else s1)"
    and se: "settle_request L cfg r generated po s2 acc = Inr ((nt, st, fi, pa), s3, acc1)"
    and fin: "(if nt \<noteq> [] \<or> po \<noteq> None \<or> pa \<noteq> None \<or> st then
                      Inr (upd_req r (take_output_state (rql L)) s3,
                           acc1\<lparr>ua_outputs := add_output (client_index (store s3 r))
                                  \<lparr>eo_request_id = r, eo_new_token_ids = nt,
                                   eo_finish_reason = fi, eo_pooling_output = po,
                                   eo_kv_transfer_params = pa\<rparr> (ua_outputs acc1)\<rparr>)
                    else bindE (assertE (map_of (mo_prompt_logprobs mo) r \<in> {None, Some None})) (\<lambda>_.
                        Inr (s3, acc1))) = Inr (s', acc')"
    unfolding update_one_def prod.case Let_def if_not_P [OF False] i option.case bindE_eq_Inr split_paired_Ex spec_def
    by blast
  have e: "(s' = upd_req r (take_output_state (rql L)) s3 \<or> s' = s3) \<and>
      ua_stopped_running acc' = ua_stopped_running acc1 \<and> ua_stopped_preempted acc' = ua_stopped_preempted acc1"
    using fin by (cases "nt \<noteq> [] \<or> po \<noteq> None \<or> pa \<noteq> None \<or> st") (auto simp: bindE_eq_Inr)
  have tb: "status (take_back_rejected cfg spec generated q) = status q" for q
    by (auto simp: take_back_rejected_def Let_def split: option.splits list.splits)
  have t: "touched r s s2" and st2: "status (store s2 r) = status (store s r)"
    by (auto simp: s2 touched_def free_encoder_inputs_def Let_def tb)
  have ok2: "sched_ok L (settled acc s2)" by (rule touched_ok [OF t st2 ok])
  have r2: "r \<in> set (requests s2)" using l t by (simp add: live_def touched_def)
  have run2: "status (store s2 r) = RUNNING" using st2 run by simp
  note i = settle_request_inv [OF se assms(2,3) ok2 p r2 run2 nr]
  have t': "touched r s3 s'" "status (store s' r) = status (store s3 r)"
    using e assms(2) by (auto simp: touched_def stop_ok_def)
  have se': "settled acc' x = settled acc1 x" for x :: "('w, 'q) sched" using e by (simp add: settled_def)
  have "sched_ok L (settled acc' s')" unfolding se' by (rule touched_ok [OF t']) (use i in blast)
  moreover have "x \<notin> set (ua_stopped_running acc')" if "x \<in> todo" for x
    using i e that assms(4,5) by (auto simp: update_inv_def)
  moreover have "status (store s' x) = RUNNING" if "x \<in> todo" "live s' x" for x
  proof -
    have x: "x \<noteq> r" using that(1) assms(5) by auto
    then have "store s' x = store s x" "set (requests s') \<subseteq> set (requests s)"
      using i t t' by (auto simp: touched_def)
    with that assms(4) show ?thesis by (auto simp: update_inv_def live_def)
  qed
  ultimately show ?thesis using i e by (simp add: update_inv_def)
qed

lemma update_each_inv:
  assumes "update_each L cfg out mo failed es (s, acc) = Inr (s', acc')"
    and "stop_ok (rql L)" and "queue_laws (que L)"
    and "update_inv L (fst ` set es) s acc" and "distinct (map fst es)"
  shows "update_inv L {} s' acc'"
  using assms(1,4,5)
proof (induction es arbitrary: s acc)
  case (Cons e es)
  obtain r n where e: "e = (r, n)" by (cases e)
  from Cons.prems(1) obtain s1 acc1 where
    o: "update_one L cfg out mo failed (r, n) (s, acc) = Inr (s1, acc1)"
    and k: "update_each L cfg out mo failed es (s1, acc1) = Inr (s', acc')"
    by (auto simp: exc_simps e)
  have "update_inv L (fst ` set es) s1 acc1"
    by (rule update_one_inv [OF o assms(2,3)]) (use Cons.prems(2,3) e in simp_all)
  from Cons.IH [OF k this] Cons.prems(3) show ?case by simp
qed simp

lemma drain_frame: "\<exists>d w. drain_deferred_frees L s = s\<lparr>deferred_frees := d, world := w\<rparr>"
  by (auto simp: drain_deferred_frees_def split: prod.splits)

section \<open>Connector output\<close>

text \<open>Everything the queue invariant looks at is as before.\<close>

definition same_places :: "('w, 'q) sched \<Rightarrow> ('w, 'q) sched \<Rightarrow> bool" where
  "same_places s s' \<longleftrightarrow>
     running s' = running s \<and> waiting s' = waiting s \<and> skipped_waiting s' = skipped_waiting s \<and>
     requests s' = requests s \<and> inflight_prefills s' = inflight_prefills s \<and>
     num_waiting_for_streaming_input s' = num_waiting_for_streaming_input s \<and>
     (\<forall>x. status (store s' x) = status (store s x))"

lemma same_places_refl [simp]: "same_places s s"
  by (simp add: same_places_def)

lemma same_places_trans: "same_places s t \<Longrightarrow> same_places t u \<Longrightarrow> same_places s u"
  by (simp add: same_places_def)

lemma same_places_ok: "same_places s s' \<Longrightarrow> sched_ok L s \<Longrightarrow> sched_ok L s'"
  by (rule sched_ok_upd) (auto simp: same_places_def dest: sched_okD(8))

lemma invalid_one_places:
  "invalid_one L cfg invalid scheduled evict r (s, acc) = Inr (s', acc') \<Longrightarrow> same_places s s'"
  by (auto simp: invalid_one_def same_places_def Let_def split: list.splits)

lemma invalid_each_places:
  "foldE (invalid_one L cfg invalid scheduled evict) rs (s, acc) = Inr (s', acc') \<Longrightarrow> same_places s s'"
proof (induction rs arbitrary: s acc)
  case (Cons r rs)
  from Cons.prems obtain s1 acc1 where "invalid_one L cfg invalid scheduled evict r (s, acc) = Inr (s1, acc1)"
    "foldE (invalid_one L cfg invalid scheduled evict) rs (s1, acc1) = Inr (s', acc')"
    by (auto simp: exc_simps)
  with Cons.IH show ?case by (blast intro: same_places_trans invalid_one_places)
qed simp

lemma invalid_requests_places:
  "update_requests_with_invalid_blocks L cfg rs invalid scheduled evict s = Inr (x, s') \<Longrightarrow> same_places s s'"
  by (auto simp: update_requests_with_invalid_blocks_def exc_simps dest!: invalid_each_places)

lemma invalid_blocks_places:
  assumes "handle_invalid_blocks L cfg invalid scheduled s = Inr (failed, s')"
  shows "same_places s s'"
proof -
  obtain a x s1 where u: "update_requests_with_invalid_blocks L cfg
       (filter (\<lambda>r. status (store s r) = WAITING_FOR_REMOTE_KVS) (q_list (que L) (skipped_waiting s)))
       invalid scheduled False s = Inr ((a, x), s1)"
    using assms unfolding handle_invalid_blocks_def bindE_eq_Inr by fastforce
  with assms obtain b y e s2 where
    v: "update_requests_with_invalid_blocks L cfg (running s1) invalid scheduled True s1 = Inr ((b, y, e), s2)"
    unfolding handle_invalid_blocks_def by (cases x) (auto simp: bindE_eq_Inr)
  have "same_places s2 s'"
    using assms u v unfolding handle_invalid_blocks_def
    by (cases x) (auto simp: same_places_def Let_def split: if_splits)
  with invalid_requests_places [OF u] invalid_requests_places [OF v] show ?thesis
    by (blast intro: same_places_trans)
qed

lemma free_blocks_ok:
  assumes "free_blocks L cfg r s = Inr s'" and "sched_ok L s"
  shows "sched_ok L s'"
proof -
  from assms(1) have f: "is_finished (status (store s r))"
    and s': "s' = (free_request_blocks L cfg r s)\<lparr>requests := remove1 r (requests s)\<rparr>"
    by (auto simp: free_blocks_def exc_simps Let_def split: if_splits)
  have "r \<notin> set (running s)" using f sched_okD(6) [OF assms(2), of r] by auto
  then have run: "running s = filter (\<lambda>x. x \<noteq> r) (running s)" by (metis (mono_tags, lifting) filter_True)
  show ?thesis
    by (rule sched_ok_drop [OF assms(2), where r = r])
      (use f run sched_okD(7) [OF assms(2), of r] sched_okD(8) [OF assms(2)] in \<open>auto simp: s' queued_mset_def\<close>)
qed

lemma finish_recving_ok: "finish_recving L cfg r s = Inr s' \<Longrightarrow> sched_ok L s \<Longrightarrow> sched_ok L s'"
proof (cases "status (store s r) = WAITING_FOR_REMOTE_KVS")
  case True
  assume "finish_recving L cfg r s = Inr s'" "sched_ok L s"
  with True same_places_ok [of s s'] show ?thesis
    by (auto simp: finish_recving_def exc_simps same_places_def)
next
  case False
  assume "finish_recving L cfg r s = Inr s'" "sched_ok L s"
  with False show ?thesis by (auto simp: finish_recving_def exc_simps intro: free_blocks_ok)
qed

lemma finish_sending_ok: "finish_sending L cfg r s = Inr s' \<Longrightarrow> sched_ok L s \<Longrightarrow> sched_ok L s'"
  by (auto simp: finish_sending_def exc_simps intro: free_blocks_ok)

lemma foldE_keeps:
  "\<forall>x s s'. f x s = Inr s' \<longrightarrow> P s \<longrightarrow> P s' \<Longrightarrow> foldE f xs s = Inr s' \<Longrightarrow> P s \<Longrightarrow> P s'"
proof (induction xs arbitrary: s)
  case (Cons x xs)
  from Cons.prems(2) obtain t where "f x s = Inr t" "foldE f xs t = Inr s'" by (auto simp: exc_simps)
  moreover from this(1) Cons.prems(1,3) have "P t" by blast
  ultimately show ?case using Cons.IH [OF Cons.prems(1)] by blast
qed simp

lemma xfer_finished_ok:
  assumes "update_from_kv_xfer_finished L cfg ko s = Inr s'" and "sched_ok L s"
  shows "sched_ok L s'"
proof -
  let ?s1 = "if has_connector cfg
    then on_world (conn_update_connector_output (conn L) (ko_finished_recving ko) (ko_finished_sending ko)) s else s"
  have "sched_ok L ?s1" using assms(2) by simp
  moreover from assms(1) obtain t where
    f: "foldE (finish_recving L cfg) (ko_finished_recving ko) ?s1 = Inr t"
    and g: "foldE (finish_sending L cfg) (ko_finished_sending ko) t = Inr s'"
    by (auto simp: update_from_kv_xfer_finished_def Let_def exc_simps simp del: if_split)
  ultimately have "sched_ok L t"
    using foldE_keeps [OF _ f, of "sched_ok L"] finish_recving_ok by blast
  then show ?thesis using foldE_keeps [OF _ g, of "sched_ok L"] finish_sending_ok by blast
qed

lemma fail_loads_ok:
  assumes "fail_loads L cfg failed s outs = Inr (s', outs')" and "queue_laws (que L)" and "sched_ok L s"
  shows "sched_ok L s'"
  using assms(1) finish_requests_ok(1) [OF assms(2,3) _ refl]
  by (auto simp: fail_loads_def exc_simps split: if_splits)

lemma update_from_output_ok:
  assumes "update_from_output L cfg out mo s = Inr (outs, s')"
    and "stop_ok (rql L)" and "queue_laws (que L)" and "sched_ok L s"
    and "distinct (map fst (so_num_scheduled_tokens out))"
    and "\<forall>r \<in> fst ` set (so_num_scheduled_tokens out). live s r \<longrightarrow> status (store s r) = RUNNING"
  shows "sched_ok L s'"
proof -
  let ?s0 = "if defer_block_free cfg \<and> 0 < so_total_num_scheduled_tokens out
             then drain_deferred_frees L (s\<lparr>processed_step_seq := processed_step_seq s + 1\<rparr>) else s"
  let ?a = "\<lparr>ua_outputs = [], ua_stopped_running = [], ua_stopped_preempted = []\<rparr>"
  from assms(1) obtain failed s1 s2 acc s4 outs4 s5 where
    inv: "(case mo_kv_connector_output mo of
        Some ko \<Rightarrow> if ko_invalid_block_ids ko \<noteq> {}
                  then handle_invalid_blocks L cfg (ko_invalid_block_ids ko) (so_num_scheduled_tokens out) ?s0
                  else Inr ([], ?s0)
      | None \<Rightarrow> Inr ([], ?s0)) = Inr (failed, s1)"
    and u: "update_each L cfg out mo (set failed) (so_num_scheduled_tokens out) (s1, ?a) = Inr (s2, acc)"
    and fl: "(if failed \<noteq> [] \<and> \<not> recompute_kv_load_failures cfg
        then fail_loads L cfg failed (remove_stopped L acc s2) (ua_outputs acc)
        else Inr (remove_stopped L acc s2, ua_outputs acc)) = Inr (s4, outs4)"
    and x: "(case mo_kv_connector_output mo of
        Some ko \<Rightarrow> update_from_kv_xfer_finished L cfg ko s4 | None \<Rightarrow> Inr s4) = Inr s5"
    and s': "s' = s5\<lparr>finished_req_ids_dict := map_option (\<lambda>_. []) (finished_req_ids_dict s5)\<rparr>"
    unfolding update_from_output_def Let_def by (auto simp: exc_simps simp del: if_split)
  have p0: "same_places s ?s0"
    using drain_frame [of L "s\<lparr>processed_step_seq := processed_step_seq s + 1\<rparr>"]
    by (auto simp: same_places_def)
  moreover have "same_places ?s0 s1"
    using inv by (auto split: option.splits if_splits dest: invalid_blocks_places)
  ultimately have p: "same_places s s1" by (rule same_places_trans)
  have "sched_ok L (settled ?a s1)"
    using same_places_ok [OF p assms(4)] by (simp add: settled_def)
  then have "update_inv L (fst ` set (so_num_scheduled_tokens out)) s1 ?a"
    using assms(6) p by (auto simp: update_inv_def live_def same_places_def)
  from update_each_inv [OF u assms(2,3) this assms(5)]
  have i: "sched_ok L (settled acc s2)" and none: "ua_stopped_preempted acc = []" by (simp_all add: update_inv_def)
  have "remove_stopped L acc s2 = settled acc s2"
    using none by (cases s2) (simp add: remove_stopped_def settled_def Let_def)
  with fl i fail_loads_ok [OF _ assms(3)] have "sched_ok L s4" by (auto split: if_splits)
  with x xfer_finished_ok have ok: "sched_ok L s5" by (auto split: option.splits)
  show ?thesis unfolding s'
    by (rule same_places_ok [OF _ ok]) (simp add: same_places_def)
qed

text \<open>A step of the engine core: \<open>schedule\<close>, then the results of that step.\<close>

lemma core_step_ok:
  assumes "sizes_ok L cfg" and "schedulable L cfg s" and "stop_ok (rql L)"
    and "schedule L cfg thr s = Inr (out, s1)" and "update_from_output L cfg out mo s1 = Inr (outs, s2)"
  shows "sched_ok L s2"
proof -
  note r = schedule_result [OF assms(1,2,4), unfolded step_result_def]
  have Q: "queue_laws (que L)" using assms(1) by (simp add: sizes_ok_def)
  have ok: "sched_ok L s1" using r by blast
  show ?thesis
    by (rule update_from_output_ok [OF assms(5,3) Q ok])
      (use r sched_okD(6) [OF ok] in \<open>auto\<close>)
qed

end
