(* ===== verification/SchedInit.thy ===== *)
theory SchedInit
  imports SchedInv SchedQueues
begin

text \<open>
  \<open>Scheduler.__init__\<close>: the configuration and the first state the scheduler computes from vLLM's, with the
  assertions on the way; and the statistics it reports. The objects the constructor makes are those of
  \<open>SchedTypes\<close>, their joint state \<open>w\<close> is what their constructors leave.
\<close>

section \<open>What the constructor reads\<close>

record speculative_config =
  sp_tokens_per_batch_size :: "(int \<times> int) list"
  sp_use_eagle :: bool
  sp_uses_draft_model :: bool
  sp_use_dflash :: bool
  sp_use_dspark :: bool

text \<open>The policy for failed loads, the role, and whether the connector made for it supports hybrid allocation.\<close>

record kv_transfer_config =
  kt_load_failure_policy :: string
  kt_is_kv_consumer :: bool
  kt_connector_supports_hma :: bool

record mm_budget =
  mb_encoder_compute_budget :: int
  mb_encoder_cache_size :: int
  mb_max_toks_per_item :: "int list"

text \<open>
  The fields of the nested configuration objects by the section they are in: scheduler, model, cache, parallel,
  LoRA and KV cache configuration. The multimodal budget is \<open>None\<close> for a text-only model.
\<close>

record vllm_config =
  sc_max_num_seqs :: int
  sc_max_num_scheduled_tokens :: "int option"
  sc_max_num_batched_tokens :: int
  sc_policy :: string
  sc_long_prefill_token_threshold :: int
  sc_max_num_partial_prefills :: int
  sc_enable_chunked_prefill :: bool
  sc_disable_chunked_mm_input :: bool
  sc_async_scheduling :: bool
  sc_reserve_full_isl :: bool
  mc_max_model_len :: int
  mc_is_diffusion :: bool
  mc_is_encoder_decoder :: bool
  mc_enable_return_routed_experts :: bool
  cc_num_gpu_blocks :: "int option"
  cc_block_size :: int
  cc_mamba_cache_mode :: string
  pc_decode_context_parallel_size :: int
  pc_prefill_context_parallel_size :: int
  pc_pipeline_parallel_size :: int
  lc_max_loras :: "int option"
  kc_has_mamba_layers :: bool
  kc_needs_kv_cache_zeroing :: bool
  kc_num_groups :: nat
  kc_hybrid_coordinator :: bool
  vc_kv_transfer_config :: "kv_transfer_config option"
  vc_has_ec_transfer_config :: bool
  vc_max_concurrent_batches :: int
  vc_speculative_config :: "speculative_config option"
  vc_num_speculative_tokens :: int
  vc_use_v2_model_runner :: bool
  vc_mm_budget :: "mm_budget option"

section \<open>The configuration of the scheduler\<close>

definition token_limit :: "vllm_config \<Rightarrow> int" where
  "token_limit vc =
     (case sc_max_num_scheduled_tokens vc of Some n \<Rightarrow> n | None \<Rightarrow> sc_max_num_batched_tokens vc)"

definition scheduling_policy_of :: "string \<Rightarrow> scheduling_policy res" where
  "scheduling_policy_of p =
     (if p = ''fcfs'' then Inr FCFS else if p = ''priority'' then Inr PRIORITY else Inl ValueError)"

text \<open>The later tests override the earlier ones.\<close>

definition lookahead_tokens :: "vllm_config \<Rightarrow> int" where
  "lookahead_tokens vc =
     (case vc_speculative_config vc of
        None \<Rightarrow> 0
      | Some sp \<Rightarrow>
          (let n = 0;
               n = (if sp_use_eagle sp then vc_num_speculative_tokens vc else n);
               n = (if sp_uses_draft_model sp then vc_num_speculative_tokens vc else n);
               n = (if sp_use_dflash sp then vc_num_speculative_tokens vc + 1 else n)
           in if sp_use_dspark sp then vc_num_speculative_tokens vc else n))"

text \<open>\<open>build_dynamic_sd_schedule_lookup\<close> is vLLM's.\<close>

definition sd_lookup :: "((int \<times> int) list \<Rightarrow> int \<Rightarrow> int \<Rightarrow> int list) \<Rightarrow> vllm_config \<Rightarrow> int list option" where
  "sd_lookup build vc =
     (case vc_speculative_config vc of
        None \<Rightarrow> None
      | Some sp \<Rightarrow>
          if sp_tokens_per_batch_size sp = [] then None
          else Some (build (sp_tokens_per_batch_size sp) (sc_max_num_seqs vc) (vc_num_speculative_tokens vc)))"

text \<open>Whether freed blocks wait for the steps in flight, and whether failed loads are computed again.\<close>

definition defers_block_free :: "vllm_config \<Rightarrow> bool" where
  "defers_block_free vc =
     (case vc_kv_transfer_config vc of
        None \<Rightarrow> False
      | Some kt \<Rightarrow> vc_max_concurrent_batches vc > 1 \<and> kt_is_kv_consumer kt)"

definition recomputes_failures :: "vllm_config \<Rightarrow> bool" where
  "recomputes_failures vc =
     (case vc_kv_transfer_config vc of None \<Rightarrow> True | Some kt \<Rightarrow> kt_load_failure_policy kt = ''recompute'')"

definition config_of :: "((int \<times> int) list \<Rightarrow> int \<Rightarrow> int \<Rightarrow> int list) \<Rightarrow> vllm_config \<Rightarrow> int \<Rightarrow> bool \<Rightarrow> scheduling_policy \<Rightarrow> config" where
  "config_of build vc block log pol = \<lparr>
     max_num_running_reqs = sc_max_num_seqs vc, max_num_scheduled_tokens = token_limit vc,
     max_model_len = mc_max_model_len vc,
     num_sampled_tokens_per_step = (if \<not> mc_is_diffusion vc then 1 else 0),
     long_prefill_token_threshold = sc_long_prefill_token_threshold vc,
     max_num_partial_prefills = sc_max_num_partial_prefills vc,
     enable_chunked_prefill = sc_enable_chunked_prefill vc,
     disable_chunked_mm_input = sc_disable_chunked_mm_input vc,
     num_spec_tokens = vc_num_speculative_tokens vc, num_lookahead_tokens = lookahead_tokens vc,
     dynamic_sd_lookup = sd_lookup build vc,
     use_eagle = (case vc_speculative_config vc of None \<Rightarrow> False | Some sp \<Rightarrow> sp_use_eagle sp),
     has_mamba_layers = kc_has_mamba_layers vc,
     need_mamba_block_aligned_split = (kc_has_mamba_layers vc \<and> cc_mamba_cache_mode vc = ''align''),
     cache_block_size = cc_block_size vc, block_size = block, policy = pol, max_loras = lc_max_loras vc,
     has_connector = (vc_kv_transfer_config vc \<noteq> None), hybrid_coordinator = kc_hybrid_coordinator vc,
     connector_supports_hma =
       (case vc_kv_transfer_config vc of None \<Rightarrow> False | Some kt \<Rightarrow> kt_connector_supports_hma kt),
     num_kv_cache_groups = kc_num_groups vc, has_ec_connector = vc_has_ec_transfer_config vc,
     is_encoder_decoder = mc_is_encoder_decoder vc,
     max_num_encoder_input_tokens =
       (case vc_mm_budget vc of None \<Rightarrow> 0 | Some b \<Rightarrow> mb_encoder_compute_budget b),
     defer_block_free = defers_block_free vc, recompute_kv_load_failures = recomputes_failures vc,
     scheduler_reserve_full_isl = sc_reserve_full_isl vc, use_v2_model_runner = vc_use_v2_model_runner vc,
     use_pp = (pc_pipeline_parallel_size vc > 1), async_scheduling = sc_async_scheduling vc,
     needs_kv_cache_zeroing = kc_needs_kv_cache_zeroing vc, log_stats = log\<rparr>"

section \<open>The first state\<close>

text \<open>\<open>st\<close> are the request objects; none of them is known to the scheduler yet.\<close>

definition first_state :: "'q queue_lib \<Rightarrow> bool \<Rightarrow> (rid \<Rightarrow> request) \<Rightarrow> 'w \<Rightarrow> ('w, 'q) sched" where
  "first_state Q include_finished_set st w = \<lparr>
     requests = [], store = st, waiting = q_empty Q, skipped_waiting = q_empty Q, running = [],
     finished_req_ids = {}, finished_req_ids_dict = (if include_finished_set then Some [] else None),
     reset_preempted_req_ids = {}, num_waiting_for_streaming_input = 0, finished_recving_kv_req_ids = {},
     failed_recving_kv_req_ids = {}, inflight_prefills = {}, prev_step_scheduled_req_ids = {},
     current_step = 0, prefill_capacity_bound = False, sched_step_seq = 0, processed_step_seq = 0,
     deferred_frees = [], pause_state = UNPAUSED, world = w\<rparr>"

definition scheduler_init ::
  "('w, 'b, 'q) vllm \<Rightarrow> ((int \<times> int) list \<Rightarrow> int \<Rightarrow> int \<Rightarrow> int list) \<Rightarrow> vllm_config \<Rightarrow> int \<Rightarrow> bool \<Rightarrow> bool \<Rightarrow>
   (rid \<Rightarrow> request) \<Rightarrow> 'w \<Rightarrow> (config \<times> ('w, 'q) sched) res" where
  "scheduler_init L build vc block include_finished_set log st w =
     bindE (assertE (vc_kv_transfer_config vc = None \<or> \<not> mc_is_encoder_decoder vc)) (\<lambda>_.
     bindE (assertE (case cc_num_gpu_blocks vc of None \<Rightarrow> False | Some n \<Rightarrow> n > 0)) (\<lambda>_.
     bindE (scheduling_policy_of (sc_policy vc)) (\<lambda>pol.
     bindE (assertE (\<not> mc_is_encoder_decoder vc \<or>
              (case vc_mm_budget vc of None \<Rightarrow> False | Some b \<Rightarrow> length (mb_max_toks_per_item b) \<le> 1))) (\<lambda>_.
     bindE (assertE (\<not> mc_enable_return_routed_experts vc \<or>
              pc_decode_context_parallel_size vc = 1 \<and> pc_prefill_context_parallel_size vc = 1)) (\<lambda>_.
     Inr (config_of build vc block log pol, first_state (que L) include_finished_set st w))))))"

lemma scheduler_init_result:
  assumes "scheduler_init L build vc block fin log st w = Inr (cfg, s)"
  shows "\<exists>pol. cfg = config_of build vc block log pol" and "s = first_state (que L) fin st w"
  using assms by (auto simp: scheduler_init_def exc_simps)

text \<open>A constructed scheduler is consistent and knows no request.\<close>

lemma first_state_ok: "queue_laws (que L) \<Longrightarrow> sched_ok L (first_state (que L) fin st w)"
  by (simp add: sched_ok_with_def queued_mset_def first_state_def queue_lawsD)

lemma first_state_idle:
  assumes "queue_laws (que L)"
  shows "get_num_unfinished_requests L (first_state (que L) fin st w) = 0"
    and "\<not> has_finished_requests L cfg (first_state (que L) fin st w)"
  using queue_lawsD(1) [OF assms]
  by (simp_all add: first_state_def get_num_unfinished_requests_def has_finished_requests_def q_count_def)

text \<open>Blocks are freed late only for a connector that loads them, and speculation looks ahead at most one token further.\<close>

lemma config_of_facts:
  "defer_block_free (config_of build vc block log pol) \<Longrightarrow> has_connector (config_of build vc block log pol)"
  "\<not> recompute_kv_load_failures (config_of build vc block log pol) \<Longrightarrow> has_connector (config_of build vc block log pol)"
  "0 \<le> vc_num_speculative_tokens vc \<Longrightarrow>
     num_lookahead_tokens (config_of build vc block log pol) \<in> {0, num_spec_tokens (config_of build vc block log pol),
       num_spec_tokens (config_of build vc block log pol) + 1}"
  by (auto simp: config_of_def defers_block_free_def recomputes_failures_def lookahead_tokens_def Let_def
      split: option.splits)

section \<open>Statistics\<close>

text \<open>The collectors are vLLM's: prefix-cache counters, the usage of the cache, eviction events and spec-decoding counters.\<close>

record ('w, 'p, 'e, 'x) stats_lib =
  st_prefix_cache :: "'w \<Rightarrow> 'p option \<times> 'w"
  st_new_prefix_cache :: 'p
  st_drain_events :: "('w \<Rightarrow> 'e list \<times> 'w) option"
  st_usage :: "'w \<Rightarrow> int"
  st_new_spec :: "int \<Rightarrow> 'x"
  st_observe_draft :: "int \<Rightarrow> int \<Rightarrow> 'x \<Rightarrow> 'x"

record ('p, 'e, 'x) scheduler_stats =
  num_running_reqs :: nat
  num_waiting_reqs :: nat
  num_skipped_waiting_reqs :: nat
  kv_cache_usage :: int
  prefix_cache_stats :: 'p
  connector_prefix_cache_stats :: "'p option"
  kv_cache_eviction_events :: "'e list"
  spec_decoding_stats :: "'x option"
  kv_connector_stats :: "int option"
  cudagraph_stats :: "int option"
  perf_stats :: "int option"

text \<open>\<open>conn_stats\<close> is the attribute that collects the connector's prefix-cache counters; it is handed out and replaced.\<close>

definition make_stats ::
  "('w, 'b, 'q) vllm \<Rightarrow> ('w, 'p, 'e, 'x) stats_lib \<Rightarrow> config \<Rightarrow> 'x option \<Rightarrow> int option \<Rightarrow> int option \<Rightarrow> int option \<Rightarrow>
   'p option \<Rightarrow> ('w, 'q) sched \<Rightarrow> (('p, 'e, 'x) scheduler_stats option \<times> 'p option \<times> ('w, 'q) sched) res" where
  "make_stats L T cfg spec kv_stats graph perf conn_stats s =
     (if \<not> log_stats cfg then Inr (None, conn_stats, s)
      else case st_prefix_cache T (world s) of
        (None, _) \<Rightarrow> Inl AssertionError
      | (Some pcs, w1) \<Rightarrow>
          (case (case st_drain_events T of None \<Rightarrow> ([], w1) | Some drain \<Rightarrow> drain w1) of
             (events, w2) \<Rightarrow>
               Inr (Some \<lparr>num_running_reqs = length (running s),
                          num_waiting_reqs = length (q_list (que L) (waiting s)),
                          num_skipped_waiting_reqs = length (q_list (que L) (skipped_waiting s)),
                          kv_cache_usage = st_usage T w2, prefix_cache_stats = pcs,
                          connector_prefix_cache_stats = conn_stats, kv_cache_eviction_events = events,
                          spec_decoding_stats = spec, kv_connector_stats = kv_stats,
                          cudagraph_stats = graph, perf_stats = perf\<rparr>,
                    map_option (\<lambda>_. st_new_prefix_cache T) conn_stats, s\<lparr>world := w2\<rparr>)))"

definition make_spec_decoding_stats ::
  "('w, 'p, 'e, 'x) stats_lib \<Rightarrow> config \<Rightarrow> 'x option \<Rightarrow> int \<Rightarrow> int \<Rightarrow> (rid \<times> int) list \<Rightarrow> rid \<Rightarrow> 'x option" where
  "make_spec_decoding_stats T cfg stats num_draft num_accepted invalid r =
     (if \<not> log_stats cfg \<or> num_draft = 0 then None
      else (let x = (case stats of None \<Rightarrow> st_new_spec T (num_spec_tokens cfg) | Some x \<Rightarrow> x);
                n = (case map_of invalid r of None \<Rightarrow> num_draft | Some k \<Rightarrow> num_draft - k)
            in Some (st_observe_draft T n num_accepted x)))"

text \<open>The reported counts add up to the live requests.\<close>

lemma stats_count_live_requests:
  assumes "make_stats L T cfg spec kv_stats graph perf conn_stats s = Inr (Some st, c, s')" and "sched_ok L s"
  shows "num_running_reqs st + num_waiting_reqs st + num_skipped_waiting_reqs st =
    card {r \<in> set (requests s). \<not> is_finished (status (store s r))}"
proof -
  let ?M = "mset (running s) + queued_mset L s"
  note ok = sched_okD [OF assms(2)]
  have "set_mset ?M = {r \<in> set (requests s). \<not> is_finished (status (store s r))}"
  proof
    show "set_mset ?M \<subseteq> {r \<in> set (requests s). \<not> is_finished (status (store s r))}"
      using assms(2) by (auto simp: sched_ok_with_def)
    show "{r \<in> set (requests s). \<not> is_finished (status (store s r))} \<subseteq> set_mset ?M"
      using assms(2) by (auto simp: sched_ok_with_def)
  qed
  moreover have "size ?M = card (set_mset ?M)"
  proof -
    have "count ?M r = 1" if "r \<in># ?M" for r
      using that assms(2) by (metis (no_types, lifting) One_nat_def Suc_leI add.right_neutral count_greater_zero_iff le_antisym sched_ok_with_def)
    then show ?thesis by (simp add: size_multiset_overloaded_eq)
  qed
  ultimately show ?thesis
    using assms(1) by (auto simp: make_stats_def queued_mset_def split: if_splits option.splits prod.splits)
qed

end
