(* ===== verification/Machines.thy ===== *)
theory Machines
  imports Main
begin

text \<open>
  What an invariant of the steps of a machine gives for the states it can reach, stated once for the
  scheduler and for the grammar backend.
\<close>

section \<open>Invariants of a step relation\<close>

locale state_machine =
  fixes step :: "'s \<Rightarrow> 's \<Rightarrow> bool" and inv :: "'s \<Rightarrow> bool"
  assumes step_inv: "step s t \<Longrightarrow> inv s \<Longrightarrow> inv t"
begin

lemma reachable_inv: "step\<^sup>*\<^sup>* s t \<Longrightarrow> inv s \<Longrightarrow> inv t"
  by (induction rule: rtranclp_induct) (auto intro: step_inv)

lemma path_inv: "(\<forall>i < n. step (f i) (f (Suc i))) \<Longrightarrow> inv (f 0) \<Longrightarrow> i \<le> n \<Longrightarrow> inv (f i)"
  by (induction i) (use step_inv in \<open>auto simp: Suc_le_eq\<close>)

end

text \<open>An invariant that implies what clients rely on.\<close>

locale safe_machine = state_machine +
  fixes safe :: "'s \<Rightarrow> bool"
  assumes inv_safe: "inv s \<Longrightarrow> safe s"
begin

lemma reachable_safe: "step\<^sup>*\<^sup>* s t \<Longrightarrow> inv s \<Longrightarrow> safe t"
  by (rule inv_safe) (rule reachable_inv)

end

end
