(* ===== verification/SchedMachine.thy ===== *)
theory SchedMachine
  imports SchedExample SchedUpdateFacts SchedInit Machines
begin

text \<open>
  The scheduler as a state machine: the calls the engine core makes, in any order, as a step relation, and its
  invariant as an instance of the machines of \<open>Machines\<close>.
\<close>

section \<open>The calls of the engine core\<close>

text \<open>
  What \<open>schedule\<close> expects of the running requests: none has more computed than known tokens or is at the model's
  length, and there are not more of them than allowed.
\<close>

definition demands_fit :: "config \<Rightarrow> ('w, 'q) sched \<Rightarrow> bool" where
  "demands_fit cfg s \<longleftrightarrow>
     (\<forall>r \<in> set (running s). demand_ok cfg (store s r)) \<and>
     int (length (running s)) \<le> max_num_running_reqs cfg \<and> 0 \<le> max_num_scheduled_tokens cfg"


text \<open>
  One rule per call that returns. \<open>schedule\<close> is called in a state in which the demands of the running requests
  fit; \<open>update_from_output\<close> gets the output of an earlier step, whose requests are still running when they are
  alive.
\<close>

inductive sched_step ::
  "('w, 'b, 'q) vllm \<Rightarrow> config \<Rightarrow> ('w, 'q) sched \<Rightarrow> ('w, 'q) sched \<Rightarrow> bool" for L cfg where
  add: "add_request L cfg req s = Inr s' \<Longrightarrow>
     status req \<in> {WAITING, WAITING_FOR_STRUCTURED_OUTPUT_GRAMMAR} \<Longrightarrow> sched_step L cfg s s'"
| finish: "finish_requests L cfg ids st s = Inr (answer, s') \<Longrightarrow> sched_step L cfg s s'"
| sched: "demands_fit cfg s \<Longrightarrow> schedule L cfg thr s = Inr (out, s') \<Longrightarrow> sched_step L cfg s s'"
| results: "update_from_output L cfg out mo s = Inr (outs, s') \<Longrightarrow>
     distinct (map fst (so_num_scheduled_tokens out)) \<Longrightarrow>
     \<forall>r \<in> fst ` set (so_num_scheduled_tokens out). live s r \<longrightarrow> status (store s r) = RUNNING \<Longrightarrow>
     sched_step L cfg s s'"
| drafts: "sched_step L cfg s (update_draft_token_ids L ids ds s)"
| reset: "reset_prefix_cache L cfg rr rc s = Inr (ok, s') \<Longrightarrow> sched_step L cfg s s'"
| pause: "sched_step L cfg s (set_pause_state p s)"

inductive_cases sched_stepE: "sched_step L cfg s s'"






section \<open>Properties\<close>

lemma ex_stop_ok: "stop_ok (rql ex_vllm)"
  by (simp add: stop_ok_def ex_vllm_def ex_rql_def)





text \<open>
  A step of the engine core, \<open>schedule\<close> followed by \<open>update_from_output\<close> on the output of that step,
  keeps the queue invariant, whatever the model sampled: requests that stopped are neither running nor
  queued, streaming sessions that continue or pause are queued, and all others stay where they were.
\<close>

theorem core_step_keeps_queues:
  assumes "sizes_ok L cfg" and "schedulable L cfg s" and "stop_ok (rql L)"
    and "schedule L cfg thr s = Inr (out, s1)" and "update_from_output L cfg out mo s1 = Inr (outs, s2)"
  shows "sched_ok L s2"
  using assms by (rule core_step_ok)

text \<open>The model samples the stop token 0 for \<open>a\<close> and nothing for the prefill \<open>b\<close>.\<close>

definition ex_model_output :: model_output where
  "ex_model_output = \<lparr>mo_req_id_to_index = [(''a'', 0), (''b'', 1)], mo_sampled_token_ids = [[0], []],
     mo_pooler_output = [], mo_prompt_logprobs = [], mo_kv_connector_output = None\<rparr>"

theorem core_step_keeps_queues_witness:
  "\<exists>out s1 outs s2. schedule ex_vllm ex_cfg False ex_sched = Inr (out, s1) \<and>
     update_from_output ex_vllm ex_cfg out ex_model_output s1 = Inr (outs, s2) \<and>
     running s2 = [''b''] \<and> sched_ok ex_vllm s2"
proof -
  have "res_of ex_step (\<lambda>(out, s1).
      res_of (update_from_output ex_vllm ex_cfg out ex_model_output s1) (\<lambda>(outs, s2). running s2 = [''b'']))"
    by code_simp
  then obtain out s1 outs s2 where o: "schedule ex_vllm ex_cfg False ex_sched = Inr (out, s1)"
    and u: "update_from_output ex_vllm ex_cfg out ex_model_output s1 = Inr (outs, s2)" and r: "running s2 = [''b'']"
    by (auto simp: ex_step_def elim!: res_of_obtain)
  from core_step_keeps_queues [OF ex_sizes_ok ex_schedulable ex_stop_ok o u] o u r show ?thesis by blast
qed

section \<open>Where the code falls short\<close>





end
