(* ===== verification/SchedReport.thy ===== *)
theory SchedReport
  imports SchedUpdate SchedInit
begin

text \<open>
  What \<open>update_from_output\<close> reports beside the results: the counters of speculative decoding, the routed experts of a
  request, the statistics of the KV connector, cache events, and the scheduler's statistics, which go to one client.
\<close>

section \<open>Spec-decoding counters\<close>

text \<open>The counters after one request: they change under the condition under which rejected drafts are taken back.\<close>

definition spec_stats_one ::
  "('w, 'p, 'e, 'x) stats_lib \<Rightarrow> config \<Rightarrow> scheduler_output \<Rightarrow> model_output \<Rightarrow> rid set \<Rightarrow> ('w, 'q) sched \<Rightarrow> rid \<Rightarrow>
   'x option \<Rightarrow> 'x option" where
  "spec_stats_one T cfg out mo failed s r x =
     (if r \<in> failed \<or> \<not> live s r then x
      else case (map_of (so_scheduled_spec_decode_tokens out) r, map_of (mo_req_id_to_index mo) r) of
        (Some (t # ts), Some i) \<Rightarrow>
          (let generated = (if mo_sampled_token_ids mo = [] then [] else mo_sampled_token_ids mo ! i) in
           if (generated \<noteq> [] \<or> num_sampled_tokens_per_step cfg = 0) \<and> async_tokens_to_discard (store s r) = 0
           then make_spec_decoding_stats T cfg x (int (length (t # ts)))
                  (max (int (length generated) - num_sampled_tokens_per_step cfg) 0)
                  (so_num_invalid_spec_tokens out) r
           else x)
      | _ \<Rightarrow> x)"

text \<open>The loop over the scheduled requests with the counters as a further variable.\<close>

fun update_each_stats ::
  "('w, 'b, 'q) vllm \<Rightarrow> ('w, 'p, 'e, 'x) stats_lib \<Rightarrow> config \<Rightarrow> scheduler_output \<Rightarrow> model_output \<Rightarrow> rid set \<Rightarrow>
   (rid \<times> int) list \<Rightarrow> ('w, 'q) sched \<times> update_acc \<Rightarrow> 'x option \<Rightarrow>
   ((('w, 'q) sched \<times> update_acc) \<times> 'x option) res" where
  "update_each_stats L T cfg out mo failed [] st x = Inr (st, x)"
| "update_each_stats L T cfg out mo failed (e # es) st x =
     bindE (update_one L cfg out mo failed e st) (\<lambda>st'.
       update_each_stats L T cfg out mo failed es st' (spec_stats_one T cfg out mo failed (fst st) (fst e) x))"

lemma update_each_stats_state:
  "bindE (update_each_stats L T cfg out mo failed es st x) (\<lambda>(st', _). Inr st') = update_each L cfg out mo failed es st"
  by (induction es arbitrary: st x) (auto simp: bindE_def split: sum.splits)

lemma no_stats_unless_logged:
  fixes st :: "('w, 'q) sched \<times> update_acc"
  assumes "update_each_stats L T cfg out mo failed es st None = Inr (st', x)" and "\<not> log_stats cfg"
  shows "x = None"
proof -
  have none: "spec_stats_one T cfg out mo failed s r None = None" for s :: "('w, 'q) sched" and r
    using assms(2) by (auto simp: spec_stats_one_def make_spec_decoding_stats_def Let_def split: option.splits list.splits)
  with assms(1) show ?thesis
    by (induction es arbitrary: st) (auto simp: bindE_def none split: sum.splits)
qed

text \<open>The counters of a whole step, which begins with the deferred frees and the invalid blocks.\<close>

definition step_spec_stats ::
  "('w, 'b, 'q) vllm \<Rightarrow> ('w, 'p, 'e, 'x) stats_lib \<Rightarrow> config \<Rightarrow> scheduler_output \<Rightarrow> model_output \<Rightarrow> ('w, 'q) sched \<Rightarrow>
   'x option res" where
  "step_spec_stats L T cfg out mo s =
     (let s0 = (if defer_block_free cfg \<and> 0 < so_total_num_scheduled_tokens out
                then drain_deferred_frees L (s\<lparr>processed_step_seq := processed_step_seq s + 1\<rparr>) else s)
      in
      bindE (case mo_kv_connector_output mo of
               Some ko \<Rightarrow> if ko_invalid_block_ids ko \<noteq> {}
                         then handle_invalid_blocks L cfg (ko_invalid_block_ids ko) (so_num_scheduled_tokens out) s0
                         else Inr ([], s0)
             | None \<Rightarrow> Inr ([], s0)) (\<lambda>(failed, s1).
      bindE (update_each_stats L T cfg out mo (set failed) (so_num_scheduled_tokens out)
               (s1, \<lparr>ua_outputs = [], ua_stopped_running = [], ua_stopped_preempted = []\<rparr>) None) (\<lambda>(_, x).
        Inr x)))"

text \<open>Whenever the step succeeds, so does the count: it is the same loop.\<close>

lemma step_spec_stats_total:
  assumes "update_from_output L cfg out mo s = Inr res"
  shows "\<exists>x. step_spec_stats L T cfg out mo s = Inr x"
proof -
  have step: "\<exists>x. bindE (update_each_stats L T cfg out mo failed es st None) (\<lambda>(_, x). Inr x) = Inr x"
    if "update_each L cfg out mo failed es st = Inr y" for failed es st y
    using that update_each_stats_state [of L T cfg out mo failed es st None]
    by (cases "update_each_stats L T cfg out mo failed es st None") (auto simp: bindE_def)
  show ?thesis
    using assms step unfolding update_from_output_def step_spec_stats_def
    by (auto simp: exc_simps Let_def split: option.splits if_splits)
qed

section \<open>Routed experts\<close>

text \<open>
  Where the rows of each request start in the routing data of a step, in the order of the model runner, and the
  snapshot of block ids that \<open>_update_after_schedule\<close> takes: new entries replace old ones, others stay.
\<close>

definition routing_offsets :: "rid list \<Rightarrow> (rid \<times> int) list \<Rightarrow> (rid \<times> int) list res" where
  "routing_offsets req_ids scheduled =
     bindE (foldE (\<lambda>r (offset, offsets).
              case map_of scheduled r of
                None \<Rightarrow> Inl KeyError
              | Some n \<Rightarrow> Inr (offset + n, dict_put r offset offsets)) req_ids (0, []))
       (\<lambda>(_, offsets). Inr offsets)"

definition snapshot_blocks ::
  "('w, 'b, 'q) vllm \<Rightarrow> nat \<Rightarrow> (rid \<times> int) list \<Rightarrow> 'w \<Rightarrow> (rid \<times> int list) list \<Rightarrow> (rid \<times> int list) list" where
  "snapshot_blocks L gid scheduled w re_block_ids =
     fold (\<lambda>(r, _). dict_put r (kv_get_block_ids (kv L) r w ! gid)) scheduled re_block_ids"

text \<open>
  The rows a request is given: all those of its prompt, read by \<open>get\<close> from the slots of the snapshot's blocks, with
  its first token; later those of its accepted drafts, which come first in its range, or of its last tokens. Its
  snapshot is used up. \<open>prompt_start\<close> is the request's own setting.
\<close>

definition routed_experts_of ::
  "(int list \<Rightarrow> int \<Rightarrow> int \<Rightarrow> 'r list) \<Rightarrow> 'r list option \<Rightarrow> (rid \<times> int) list \<Rightarrow> rid \<times> int \<Rightarrow> int option \<Rightarrow> int \<Rightarrow> bool \<Rightarrow>
   bool \<Rightarrow> nat \<Rightarrow> (rid \<times> int list) list \<Rightarrow> ('r list option \<times> (rid \<times> int list) list) res" where
  "routed_experts_of get routing_data offsets = (\<lambda>(r, n) prompt_start num_prompt first_output has_spec num_new re_block_ids.
     case routing_data of
       None \<Rightarrow> Inr (None, re_block_ids)
     | Some data \<Rightarrow>
         if num_new = 0 then Inr (None, re_block_ids)
         else (case map_of offsets r of
             None \<Rightarrow> Inl KeyError
           | Some req_offset \<Rightarrow>
               (let end_offset = req_offset + n;
                    block_ids = (case map_of re_block_ids r of None \<Rightarrow> [] | Some ids \<Rightarrow> ids);
                    rest = filter (\<lambda>(k, _). k \<noteq> r) re_block_ids
                in if first_output then
                     (case prompt_start of
                        Some start \<Rightarrow> bindE (assertE (start < num_prompt)) (\<lambda>_. Inr (Some (get block_ids num_prompt start), rest))
                      | None \<Rightarrow> Inr (Some (get block_ids num_prompt 0), rest))
                   else if has_spec then Inr (Some (py_slice data req_offset (req_offset + int num_new)), rest)
                   else Inr (Some (py_slice data (end_offset - int num_new) end_offset), rest))))"

text \<open>Past the prompt a request is given one row per new token, all from its own range of the step's data.\<close>

lemma routed_experts_own_rows:
  assumes "routed_experts_of get (Some data) offsets (r, n) start num_prompt False has_spec num_new snapshot
      = Inr (Some rows, rest)"
    and "map_of offsets r = Some offset" and "0 \<le> offset" "int num_new \<le> n" "offset + n \<le> int (length data)"
  shows "length rows = num_new" and "sublist rows (take (nat n) (drop (nat offset) data))"
    and "map_of rest r = None"
proof -
  obtain k where k: "k = 0 \<or> int k = n - int num_new" and rows: "rows = take num_new (drop (nat offset + k) data)"
    and n: "int k + int num_new \<le> n"
  proof -
    define k where "k = (if has_spec then 0 else nat (n - int num_new))"
    have "rows = take num_new (drop (nat offset + k) data)"
      using assms by (auto simp: routed_experts_of_def py_slice_def py_index_def k_def Let_def drop_take nat_add_distrib
          nat_diff_distrib' min_absorb1 split: if_splits)
    then show ?thesis using that [of k] assms(4) by (auto simp: k_def)
  qed
  show "length rows = num_new" using assms(3-5) n by (simp add: rows)
  have "rows = take num_new (drop k (take (nat n) (drop (nat offset) data)))"
    using n by (simp add: rows drop_take add.commute min_def)
  then show "sublist rows (take (nat n) (drop (nat offset) data))"
    by (metis sublist_drop sublist_order.order_trans sublist_take)
  show "map_of rest r = None"
    using assms(1,2) by (auto simp: routed_experts_of_def map_of_eq_None_iff Let_def split: if_splits)
qed

section \<open>Collecting\<close>

text \<open>
  vLLM's part: the events of the cache manager and of the connector, the connector's statistics on the scheduler's
  side, and how statistics are told empty and aggregated.
\<close>

record ('w, 'e) report_lib =
  rp_take_events :: "'w \<Rightarrow> 'e list option \<times> 'w"
  rp_conn_stats :: "'w \<Rightarrow> int option \<times> 'w"
  rp_conn_take_events :: "'w \<Rightarrow> 'e list option \<times> 'w"
  rp_is_empty :: "int \<Rightarrow> bool"
  rp_aggregate :: "int \<Rightarrow> int \<Rightarrow> int"

text \<open>The workers' statistics with those of the scheduler's side; empty ones of the latter do not count.\<close>

definition merge_connector_stats :: "('w, 'e) report_lib \<Rightarrow> int option \<Rightarrow> int option \<Rightarrow> int option" where
  "merge_connector_stats R worker scheduler =
     (case scheduler of
        Some b \<Rightarrow> if rp_is_empty R b then worker
                  else Some (case worker of Some a \<Rightarrow> rp_aggregate R a b | None \<Rightarrow> b)
      | None \<Rightarrow> worker)"

definition merge_events :: "'e list option \<Rightarrow> 'e list option \<Rightarrow> 'e list option" where
  "merge_events events connector_events =
     (case connector_events of
        Some (e # es) \<Rightarrow> Some ((case events of None \<Rightarrow> [] | Some xs \<Rightarrow> xs) @ e # es)
      | _ \<Rightarrow> events)"

lemma merge_events_list:
  "(case merge_events a b of None \<Rightarrow> [] | Some xs \<Rightarrow> xs)
     = (case a of None \<Rightarrow> [] | Some xs \<Rightarrow> xs) @ (case b of None \<Rightarrow> [] | Some xs \<Rightarrow> xs)"
  by (auto simp: merge_events_def split: option.splits list.splits)

section \<open>Handing out\<close>

text \<open>The statistics go to the first client with outputs, or to client 0 with an entry made for them.\<close>

definition attach_stats ::
  "'s option \<Rightarrow> (int \<times> engine_output list \<times> rid set option) list \<Rightarrow>
   (int \<times> engine_output list \<times> rid set option \<times> 's option) list" where
  "attach_stats stats outs =
     (let plain = map (\<lambda>(c, es, fin). (c, es, fin, None)) in
      case stats of
        None \<Rightarrow> plain outs
      | Some st \<Rightarrow>
          (case outs of
             [] \<Rightarrow> [(0, [], None, Some st)]
           | (c, es, fin) # rest \<Rightarrow> (c, es, fin, Some st) # plain rest))"

text \<open>
  The whole call: the results of the step, the events to publish (none for an empty list), and the connector's
  prefix-cache counters that are collected from now on.
\<close>

definition report_step ::
  "('w, 'b, 'q) vllm \<Rightarrow> ('w, 'p, 'e, 'x) stats_lib \<Rightarrow> ('w, 'e) report_lib \<Rightarrow> config \<Rightarrow> scheduler_output \<Rightarrow>
   model_output \<Rightarrow> int option \<Rightarrow> int option \<Rightarrow> int option \<Rightarrow> 'p option \<Rightarrow> ('w, 'q) sched \<Rightarrow>
   ((int \<times> engine_output list \<times> rid set option \<times> ('p, 'e, 'x) scheduler_stats option) list \<times>
    'e list \<times> 'p option \<times> ('w, 'q) sched) res" where
  "report_step L T R cfg out mo worker_stats graph perf conn_stats s =
     bindE (step_spec_stats L T cfg out mo s) (\<lambda>spec.
     bindE (update_from_output L cfg out mo s) (\<lambda>(outs, s1).
       let (sched_stats, w1) = (if has_connector cfg then rp_conn_stats R (world s1) else (None, world s1));
           (events, w2) = rp_take_events R w1;
           (conn_events, w3) = (if has_connector cfg then rp_conn_take_events R w2 else (None, w2));
           publish = (case merge_events events conn_events of None \<Rightarrow> [] | Some es \<Rightarrow> es) in
       bindE (make_stats L T cfg spec (merge_connector_stats R worker_stats sched_stats) graph perf conn_stats
                (s1\<lparr>world := w3\<rparr>)) (\<lambda>(stats, conn_stats', s2).
         Inr (attach_stats stats outs, publish, conn_stats', s2))))"

section \<open>Exactly one client gets the statistics\<close>

lemma attach_stats_outputs:
  "map (\<lambda>(c, es, fin, _). (c, es, fin)) (attach_stats stats outs)
     = (if stats \<noteq> None \<and> outs = [] then [(0, [], None)] else outs)"
  "filter (\<lambda>st. st \<noteq> None) (map (\<lambda>(_, _, _, st). st) (attach_stats stats outs))
     = (if stats = None then [] else [stats])"
  by (auto simp: attach_stats_def Let_def case_prod_beta comp_def split: option.splits list.splits)

lemma make_stats_state:
  assumes "make_stats L T cfg spec ks graph perf cs s = Inr (stats, cs', s')"
  shows "s'\<lparr>world := world s\<rparr> = s" and "stats \<noteq> None \<longleftrightarrow> log_stats cfg"
  using assms by (auto simp: make_stats_def split: if_splits prod.splits option.splits)

text \<open>
  Reporting adds nothing to the state but what vLLM's collectors do, loses no output, and reports the live requests
  of the state it leaves behind.
\<close>

lemma report_step_outputs:
  assumes "report_step L T R cfg out mo ws graph perf cs s = Inr (reports, publish, cs', s')"
  obtains outs s1 where "update_from_output L cfg out mo s = Inr (outs, s1)"
    and "s'\<lparr>world := world s1\<rparr> = s1"
    and "map (\<lambda>(c, es, fin, _). (c, es, fin)) reports = (if log_stats cfg \<and> outs = [] then [(0, [], None)] else outs)"
    and "length (filter (\<lambda>st. st \<noteq> None) (map (\<lambda>(_, _, _, st). st) reports)) = (if log_stats cfg then 1 else 0)"
proof -
  obtain outs s1 spec ks w3 stats where u: "update_from_output L cfg out mo s = Inr (outs, s1)"
    and m: "make_stats L T cfg spec ks graph perf cs (s1\<lparr>world := w3\<rparr>) = Inr (stats, cs', s')"
    and r: "reports = attach_stats stats outs"
    using assms by (fastforce simp: report_step_def exc_simps Let_def case_prod_beta)
  note st = make_stats_state [OF m]
  have "s'\<lparr>world := world s1\<rparr> = s'\<lparr>world := w3\<rparr>\<lparr>world := world s1\<rparr>" by simp
  also have "\<dots> = s1" using st(1) by simp
  finally have "s'\<lparr>world := world s1\<rparr> = s1" .
  moreover have "length (filter (\<lambda>st. st \<noteq> None) (map (\<lambda>(_, _, _, st). st) reports)) = (if log_stats cfg then 1 else 0)"
    using st(2) unfolding r attach_stats_outputs(2) by auto
  moreover have "map (\<lambda>(c, es, fin, _). (c, es, fin)) reports = (if log_stats cfg \<and> outs = [] then [(0, [], None)] else outs)"
    using st(2) unfolding r attach_stats_outputs(1) by auto
  ultimately show ?thesis using that u by blast
qed

end
