(* ===== verification/PatchText.thy ===== *)
theory PatchText
  imports Prelude
begin

text \<open>
  What the patch scripts under \<open>src/deploy/overlays/glm53\<close> share: they edit a source text by replacing
  pinned anchors, count occurrences before and after, and refuse a text that has drifted. The counting
  lemmas say how \<open>str.count\<close> behaves under \<open>str.replace(old, new, 1)\<close>, and the locale
  \<open>prepared_patch\<close> what a verified replacement gives.
\<close>

section \<open>Texts\<close>

text \<open>A Python string literal by its lines, each ended by a newline.\<close>

definition text_lines :: "string list \<Rightarrow> pystr" where
  "text_lines ls = concat (map (\<lambda>l. lit l @ [10]) ls)"

text \<open>Every step of a patch either gives the new text and what was done, or raises.\<close>

type_synonym patch_result = "(pystr \<times> string) res"

section \<open>Counting occurrences\<close>

definition occs :: "'a list \<Rightarrow> 'a list \<Rightarrow> nat set" where
  "occs t x = {p. p \<le> length x \<and> prefix t (drop p x)}"

lemma finite_occs [simp]: "finite (occs t x)"
  by (rule finite_subset [of _ "{..length x}"]) (auto simp: occs_def)

lemma occs_end: "p \<in> occs t x \<Longrightarrow> p + length t \<le> length x"
  by (auto simp: occs_def dest: prefix_length_le)

lemma occs_empty_iff: "occs t x = {} \<longleftrightarrow> \<not> sublist t x"
proof -
  have "sublist t x" if "p \<in> occs t x" for p
    using that by (metis (mono_tags, lifting) find_sub_NoneD find_sub_None_iff mem_Collect_eq occs_def)
  moreover have "occs t x \<noteq> {}" if s: "sublist t x"
  proof -
    obtain p where "find_sub t x = Some p" using s find_sub_None_iff [of t x] by fastforce
    then have "p \<in> occs t x" by (auto simp: occs_def dest!: find_sub_Some)
    then show ?thesis by blast
  qed
  ultimately show ?thesis by blast
qed

text \<open>A pattern with no proper border occurs without overlaps, so counting finds every occurrence.\<close>

lemma no_border_apart:
  assumes "no_overlap t t" and "p \<in> occs t x" and "q \<in> occs t x" and "p < q"
  shows "p + length t \<le> q"
proof (rule ccontr)
  assume "\<not> p + length t \<le> q"
  then have k: "q - p \<in> set [1..<length t]" using assms(4) by auto
  obtain ys where ys: "drop p x = t @ ys" using assms(2) by (auto simp: occs_def prefix_def)
  have "drop q x = drop (q - p) (drop p x)" using assms(4) by simp
  also have "\<dots> = drop (q - p) t @ drop (q - p - length t) ys" using ys by simp
  also have "q - p - length t = 0" using k by auto
  finally have "prefix t (drop (q - p) t @ ys)" using assms(3) by (simp add: occs_def)
  then have "prefix t (drop (q - p) t) \<or> prefix (drop (q - p) t) t"
    by (metis prefixI prefix_same_cases)
  with assms(1) k show False by (auto simp: no_overlap_def list_all_iff)
qed

lemma count_sub_card:
  assumes "t \<noteq> []" and "no_overlap t t"
  shows "count_sub t x = card (occs t x)"
proof (induction "length x" arbitrary: x rule: less_induct)
  case less
  show ?case
  proof (cases "find_sub t x")
    case None
    then have "occs t x = {}" by (simp add: occs_empty_iff find_sub_None_iff)
    with None assms(1) show ?thesis by (subst count_sub.simps) simp
  next
    case (Some p)
    let ?k = "p + length t"
    from find_sub_Some [OF Some] have p: "p \<in> occs t x" and l: "?k \<le> length x"
      and first: "\<And>q. q < p \<Longrightarrow> q \<notin> occs t x" by (auto simp: occs_def)
    have "count_sub t x = Suc (count_sub t (drop ?k x))"
      using assms(1) Some l by (subst count_sub.simps) simp
    also have "count_sub t (drop ?k x) = card (occs t (drop ?k x))"
      using l assms(1) by (intro less) (cases t, auto)
    also have "card (occs t (drop ?k x)) = card ((+) ?k ` occs t (drop ?k x))"
      by (rule card_image [symmetric]) simp
    also have "Suc \<dots> = card (insert p ((+) ?k ` occs t (drop ?k x)))"
      using assms(1) by (subst card_insert_disjoint) auto
    also have "insert p ((+) ?k ` occs t (drop ?k x)) = occs t x"
    proof
      show "insert p ((+) ?k ` occs t (drop ?k x)) \<subseteq> occs t x"
        using p l by (auto simp: occs_def add.commute)
      show "occs t x \<subseteq> insert p ((+) ?k ` occs t (drop ?k x))"
      proof
        fix q assume q: "q \<in> occs t x"
        show "q \<in> insert p ((+) ?k ` occs t (drop ?k x))"
        proof (cases "q = p")
          case False
          with first q have "p < q" by (meson linorder_less_linear)
          with no_border_apart [OF assms(2) p q] have "?k \<le> q" by simp
          then have "q = ?k + (q - ?k)" "q - ?k \<in> occs t (drop ?k x)" using q by (auto simp: occs_def)
          then show ?thesis by blast
        qed simp
      qed
    qed
    finally show ?thesis .
  qed
qed

text \<open>Occurrences in a text around a middle part that neither runs into \<open>t\<close> nor is run into.\<close>

lemma occs_append3:
  assumes "no_overlap t r" and "\<And>k. k < length r \<Longrightarrow> \<not> strict_prefix (drop k r) t"
    and "t \<noteq> []" and "r \<noteq> []"
  shows "occs t (a @ r @ b) =
    occs t a \<union> (+) (length a) ` occs t r \<union> (+) (length a + length r) ` occs t b"
    (is "?x = ?a \<union> ?r \<union> ?b")
proof
  show "?x \<subseteq> ?a \<union> ?r \<union> ?b"
  proof
    fix p assume p: "p \<in> ?x"
    then have P: "prefix t (drop p (a @ r @ b))" and L: "p + length t \<le> length a + length r + length b"
      using occs_end [OF p] by (auto simp: occs_def)
    consider "p + length t \<le> length a" | "p < length a" "length a < p + length t"
      | "length a \<le> p" "p < length a + length r" | "length a + length r \<le> p" by linarith
    then show "p \<in> ?a \<union> ?r \<union> ?b"
    proof cases
      case 1
      then have "prefix t (drop p a)"
        using P by (simp add: prefix_def) (metis append_eq_append_conv_if append_take_drop_id length_drop
          le_diff_conv2 add_leD1 nat_add_left_cancel_le le_add_diff_inverse)
      with 1 show ?thesis by (auto simp: occs_def)
    next
      case 2
      let ?k = "length a - p"
      have k: "?k \<in> set [1..<length t]" using 2 by auto
      have "prefix t (drop p a @ r @ b)" using P 2 by simp
      then obtain ys where "drop p a @ r @ b = t @ ys" by (auto simp: prefix_def)
      then have "drop ?k (drop p a @ r @ b) = drop ?k (t @ ys)" by simp
      then have "r @ b = drop ?k t @ ys" using 2 by simp
      then have "prefix r (drop ?k t) \<or> prefix (drop ?k t) r" by (metis prefixI prefix_same_cases)
      with assms(1) k show ?thesis by (auto simp: no_overlap_def list_all_iff)
    next
      case 3
      let ?j = "p - length a"
      have P': "prefix t (drop ?j r @ b)" using P 3 by simp
      show ?thesis
      proof (cases "?j + length t \<le> length r")
        case True
        then have "prefix t (drop ?j r)"
          using P' by (metis le_diff_conv2 add.commute length_drop prefixI prefix_length_prefix 3(2)
            less_diff_conv2 3(1) less_imp_le)
        then have "?j \<in> occs t r" using 3 by (auto simp: occs_def)
        then show ?thesis using 3(1) by (metis UnI1 UnI2 image_eqI le_add_diff_inverse)
      next
        case False
        then have s: "strict_prefix (drop ?j r) t"
          using P' by (metis add.commute length_drop less_diff_conv2 3(2) less_imp_le linorder_not_less prefixI
            prefix_length_less prefix_same_cases prefix_length_le strict_prefix_def le_diff_conv2 3(1) leD leI)
        moreover have "?j < length r" using 3 by arith
        ultimately show ?thesis using assms(2) by blast
      qed
    next
      case 4
      then have "p = length a + length r + (p - (length a + length r))"
        "p - (length a + length r) \<in> occs t b" using P L by (auto simp: occs_def)
      then show ?thesis by blast
    qed
  qed
  show "?a \<union> ?r \<union> ?b \<subseteq> ?x"
    by (auto simp: occs_def intro: prefix_prefix)
qed

lemma count_sub_append3:
  assumes "no_overlap t t" and "no_overlap t r" and "\<And>k. k < length r \<Longrightarrow> \<not> strict_prefix (drop k r) t"
    and "t \<noteq> []" and "r \<noteq> []"
  shows "count_sub t (a @ r @ b) = count_sub t a + count_sub t r + count_sub t b"
proof -
  let ?A = "occs t a" and ?R = "(+) (length a) ` occs t r" and ?B = "(+) (length a + length r) ` occs t b"
  have l: "p + length t \<le> length x" if "p \<in> occs t x" for p and x :: "'a list" using that by (rule occs_end)
  have t: "0 < length t" using assms(4) by simp
  have "?A \<inter> ?R = {}" using l [of _ a] t by fastforce
  moreover have "(?A \<union> ?R) \<inter> ?B = {}" using l [of _ a] l [of _ r] t by fastforce
  ultimately have "card (?A \<union> ?R \<union> ?B) = card ?A + card ?R + card ?B"
    by (simp add: card_Un_disjoint)
  then show ?thesis
    using assms by (simp add: count_sub_card occs_append3 card_image)
qed

lemma count_sub_0_iff: "t \<noteq> [] \<Longrightarrow> count_sub t x = 0 \<longleftrightarrow> \<not> sublist t x"
  by (subst count_sub.simps) (auto simp: find_sub_None_iff [symmetric] split: option.splits dest!: find_sub_Some)

lemma replace1_split:
  assumes "find_sub s x = Some p"
  obtains a b where "x = a @ s @ b" and "\<And>r. replace1 s r x = a @ r @ b" and "length a = p"
proof -
  from find_sub_Some [OF assms] obtain b where b: "drop p x = s @ b" and p: "p \<le> length x"
    by (auto simp: prefix_def)
  have "x = take p x @ s @ b" using b by (metis append_take_drop_id)
  moreover have "drop (p + length s) x = b" using b by (metis append_eq_conv_conj drop_drop add.commute)
  ultimately show thesis using p assms by (intro that [of "take p x" b]) (auto simp: replace1_def)
qed

section \<open>Replacing an anchor\<close>

text \<open>\<open>t\<close> and \<open>r\<close> do not run into each other.\<close>

definition apart :: "'a list \<Rightarrow> 'a list \<Rightarrow> bool" where
  "apart t r \<longleftrightarrow> r \<noteq> [] \<and> no_overlap t r \<and> (\<forall>k < length r. \<not> strict_prefix (drop k r) t)"

lemma count_replace1:
  assumes "sublist old x" and "t \<noteq> []" and "no_overlap t t" and "apart t old" and "apart t new"
  shows "count_sub t (replace1 old new x) + count_sub t old = count_sub t x + count_sub t new"
proof -
  obtain p where "find_sub old x = Some p" using assms(1) find_sub_None_iff [of old x] by fastforce
  then obtain a b where "x = a @ old @ b" and "replace1 old new x = a @ new @ b"
    by (rule replace1_split) blast
  then show ?thesis
    using assms(2-5) by (simp add: count_sub_append3 apart_def)
qed

lemma sublist_replace1: "sublist old x \<Longrightarrow> sublist new (replace1 old new x)"
  by (metis find_sub_None_iff not_None_eq replace1_split sublist_appendI)

lemma sublist_of_count: "count_sub t x = 1 \<Longrightarrow> t \<noteq> [] \<Longrightarrow> sublist t x"
  using count_sub_0_iff [of t x] by auto

lemma count_sub_0_mono:
  assumes "count_sub s x = 0" and "sublist s t" and "s \<noteq> []" and "t \<noteq> []"
  shows "count_sub t x = 0"
  using assms(1,2) count_sub_0_iff [OF assms(3), of x] count_sub_0_iff [OF assms(4), of x]
  by (blast intro: sublist_order.order_trans)

lemma count_sub_refl: "t \<noteq> [] \<Longrightarrow> count_sub t t = 1"
proof -
  assume t: "t \<noteq> []"
  have "find_sub t t = Some 0" by (rule find_subI) simp_all
  with t show ?thesis by (subst count_sub.simps) (simp add: count_sub.simps [of t "[]"])
qed

section \<open>Texts compared line by line\<close>

text \<open>
  The pinned texts are long, but each of their lines ends in a newline, so they can only meet line on
  line: the checks on occurrences are about lists of lines, which the kernel evaluates quickly.
\<close>

definition proper_lines :: "string list \<Rightarrow> bool" where
  "proper_lines ls \<longleftrightarrow> ls \<noteq> [] \<and> list_all (\<lambda>l. CHR 0x0A \<notin> set l) ls"

lemma lit_inject: "lit a = lit b \<longleftrightarrow> a = b"
  unfolding lit_def by (rule inj_map_eq_map) (simp add: inj_def)

lemma newline_lit: "(10::int) \<in> set (lit l) \<longleftrightarrow> CHR 0x0A \<in> set l"
proof -
  have "(10::int) = of_char (CHR 0x0A)" by simp
  then show ?thesis unfolding lit_def by (metis (no_types, lifting) image_iff list.set_map of_char_eq_iff)
qed

lemma text_lines_Nil [simp]: "text_lines [] = []"
  by (simp add: text_lines_def)

lemma text_lines_Cons: "text_lines (l # ls) = lit l @ 10 # text_lines ls"
  by (simp add: text_lines_def)

lemma first_line_eq:
  assumes "CHR 0x0A \<notin> set u" and "CHR 0x0A \<notin> set v"
  shows "prefix (lit u @ 10 # xs) (lit v @ 10 # ys) \<longleftrightarrow> u = v \<and> prefix xs ys"
  using assms
proof (induction u arbitrary: v)
  case Nil
  then show ?case by (cases v) (auto simp: lit_Cons lit_def of_char_eq_iff [of _ "CHR 0x0A", simplified])
next
  case (Cons c u)
  then show ?case
    by (cases v) (auto simp: lit_Cons of_char_eq_iff [of _ "CHR 0x0A", simplified])
qed

lemma prefix_text_lines:
  assumes "list_all (\<lambda>l. CHR 0x0A \<notin> set l) ls" and "list_all (\<lambda>l. CHR 0x0A \<notin> set l) ms"
  shows "prefix (text_lines ls) (text_lines ms) \<longleftrightarrow> prefix ls ms"
  using assms
proof (induction ls arbitrary: ms)
  case (Cons l ls)
  then show ?case by (cases ms) (auto simp: text_lines_Cons first_line_eq)
qed simp

lemma drop_lit: "drop k (lit l) = lit (drop k l)"
  by (simp add: lit_def drop_map)

text \<open>A tail of a text begins inside one of its lines.\<close>

lemma tail_text_lines:
  "k < length (text_lines ls) \<Longrightarrow>
   \<exists>i n. i < length ls \<and> n \<le> length (ls ! i) \<and> (k = 0 \<longleftrightarrow> i = 0 \<and> n = 0) \<and>
         drop k (text_lines ls) = text_lines (drop n (ls ! i) # drop (Suc i) ls)"
proof (induction ls arbitrary: k)
  case (Cons l ls)
  show ?case
  proof (cases "k \<le> length l")
    case True
    then have "drop k (text_lines (l # ls)) = text_lines (drop k l # ls)"
      by (simp add: text_lines_Cons drop_lit)
    with True show ?thesis by (intro exI [of _ 0] exI [of _ k]) simp
  next
    case False
    let ?k = "k - Suc (length l)"
    have d: "drop k (text_lines (l # ls)) = drop ?k (text_lines ls)"
      using False by (simp add: text_lines_Cons drop_Cons')
    have "?k < length (text_lines ls)" using False Cons.prems by (simp add: text_lines_Cons)
    from Cons.IH [OF this] obtain i n where "i < length ls" "n \<le> length (ls ! i)"
      "drop ?k (text_lines ls) = text_lines (drop n (ls ! i) # drop (Suc i) ls)" by blast
    with d False show ?thesis by (intro exI [of _ "Suc i"] exI [of _ n]) simp
  qed
qed simp

lemma proper_lines_drop:
  assumes "proper_lines ls" and "i < length ls"
  shows "list_all (\<lambda>l. CHR 0x0A \<notin> set l) (drop n (ls ! i) # drop (Suc i) ls)"
proof -
  have "\<forall>l \<in> set ls. CHR 0x0A \<notin> set l" using assms(1) by (simp add: proper_lines_def list_all_iff)
  moreover have "ls ! i \<in> set ls" "set (drop (Suc i) ls) \<subseteq> set ls" using assms(2) by (auto dest: in_set_dropD)
  ultimately show ?thesis by (auto simp: list_all_iff dest: in_set_dropD)
qed

text \<open>The first line of \<open>ms\<close> ends no line of \<open>ls\<close>, except that it may be the first one.\<close>

definition fresh_start :: "string list \<Rightarrow> string list \<Rightarrow> bool" where
  "fresh_start ls ms \<longleftrightarrow>
     list_all (\<lambda>l. \<not> suffix (hd ms) l) (tl ls) \<and> \<not> (suffix (hd ms) (hd ls) \<and> hd ms \<noteq> hd ls)"

lemma fresh_start_tail:
  assumes "fresh_start ls ms" and "i < length ls" and "n \<le> length (ls ! i)" and "drop n (ls ! i) = hd ms"
  shows "i = 0 \<and> n = 0"
proof -
  have s: "suffix (hd ms) (ls ! i)" using assms(4) by (metis suffix_drop)
  show ?thesis
  proof (cases i)
    case 0
    with assms s have "ls ! 0 = hd ms" by (cases ls) (auto simp: fresh_start_def)
    with assms 0 show ?thesis
      by (metis cancel_comm_monoid_add_class.diff_cancel diff_diff_cancel length_drop)
  next
    case (Suc j)
    with assms(2) have "ls ! i \<in> set (tl ls)" by (cases ls) auto
    with assms(1) s show ?thesis by (auto simp: fresh_start_def list_all_iff)
  qed
qed

lemma no_overlap_lines:
  assumes "proper_lines ls" and "proper_lines ms" and "fresh_start ls ms"
  shows "no_overlap (text_lines ls) (text_lines ms)"
  unfolding no_overlap_def list_all_iff
proof (intro ballI)
  fix k assume k: "k \<in> set [1..<length (text_lines ls)]"
  then have "k < length (text_lines ls)" by simp
  from tail_text_lines [OF this] obtain i n where i: "i < length ls" "n \<le> length (ls ! i)"
    and d: "drop k (text_lines ls) = text_lines (drop n (ls ! i) # drop (Suc i) ls)"
    and z: "k = 0 \<longleftrightarrow> i = 0 \<and> n = 0" by blast
  have ne: "drop n (ls ! i) \<noteq> hd ms" using fresh_start_tail [OF assms(3) i] z k by auto
  obtain m ms' where "ms = m # ms'" using assms(2) by (cases ms) (auto simp: proper_lines_def)
  then show "\<not> prefix (drop k (text_lines ls)) (text_lines ms) \<and> \<not> prefix (text_lines ms) (drop k (text_lines ls))"
    using proper_lines_drop [OF assms(1) i(1), of n] assms(2) ne unfolding d
    by (auto simp: prefix_text_lines proper_lines_def)
qed

lemma apart_lines:
  assumes "proper_lines ls" and "proper_lines ms" and "fresh_start ls ms"
    and "fresh_start ms ls \<and> \<not> strict_prefix ms ls \<or> length ls = 1"
  shows "apart (text_lines ls) (text_lines ms)"
proof -
  obtain l ls' where l: "ls = l # ls'" using assms(1) by (cases ls) (auto simp: proper_lines_def)
  have "\<not> strict_prefix (drop k (text_lines ms)) (text_lines ls)" if "k < length (text_lines ms)" for k
  proof
    assume s: "strict_prefix (drop k (text_lines ms)) (text_lines ls)"
    from tail_text_lines [OF that] obtain i n where i: "i < length ms" "n \<le> length (ms ! i)"
      and d: "drop k (text_lines ms) = text_lines (drop n (ms ! i) # drop (Suc i) ms)" by blast
    have p: "prefix (drop n (ms ! i) # drop (Suc i) ms) ls" "drop n (ms ! i) # drop (Suc i) ms \<noteq> ls"
      using s d proper_lines_drop [OF assms(2) i(1), of n] assms(1)
      by (auto simp: strict_prefix_def prefix_text_lines proper_lines_def)
    then have h: "drop n (ms ! i) = hd ls" and len: "length ls \<noteq> 1" using l by auto
    from len assms(4) have f: "fresh_start ms ls" "\<not> strict_prefix ms ls" by auto
    from fresh_start_tail [OF f(1) i h] have "drop n (ms ! i) # drop (Suc i) ms = ms"
      using i(1) by (simp add: Cons_nth_drop_Suc)
    with p f(2) show False by (simp add: strict_prefix_def)
  qed
  moreover have "text_lines ms \<noteq> []" using assms(2) by (cases ms) (auto simp: proper_lines_def text_lines_Cons)
  ultimately show ?thesis using no_overlap_lines [OF assms(1-3)] by (simp add: apart_def)
qed

text \<open>How often the lines \<open>ms\<close> begin at the end of a line of \<open>ls\<close>.\<close>

fun line_hits :: "string list \<Rightarrow> string list \<Rightarrow> nat" where
  "line_hits ms [] = 0"
| "line_hits ms (l # ls) = (if suffix (hd ms) l \<and> prefix (tl ms) ls then 1 else 0) + line_hits ms ls"

lemma occs_text_lines:
  assumes "CHR 0x0A \<notin> set l" and "list_all (\<lambda>l. CHR 0x0A \<notin> set l) ls" and "proper_lines ms"
  shows "occs (text_lines ms) (text_lines (l # ls)) =
    (if suffix (hd ms) l \<and> prefix (tl ms) ls then {length l - length (hd ms)} else {}) \<union>
    (+) (Suc (length l)) ` occs (text_lines ms) (text_lines ls)" (is "?L = ?A \<union> ?B")
proof -
  obtain m ms' where m: "ms = m # ms'" using assms(3) by (cases ms) (auto simp: proper_lines_def)
  have first: "p \<in> ?L \<longleftrightarrow> p \<in> ?A" if "p \<le> length l" for p
  proof -
    have d: "drop p (text_lines (l # ls)) = text_lines (drop p l # ls)"
      using that by (simp add: text_lines_Cons drop_lit)
    have "list_all (\<lambda>l. CHR 0x0A \<notin> set l) (drop p l # ls)" using assms(1,2) by (auto dest: in_set_dropD)
    then have "p \<in> ?L \<longleftrightarrow> m = drop p l \<and> prefix ms' ls"
      using that assms(3) m by (simp add: occs_def d prefix_text_lines proper_lines_def) (simp add: text_lines_Cons)
    also have "m = drop p l \<longleftrightarrow> suffix m l \<and> p = length l - length m"
      using that by (auto simp: suffix_drop suffix_def intro: exI [of _ "take p l"])
    finally show ?thesis using m by auto
  qed
  have rest: "p \<in> ?L \<longleftrightarrow> p \<in> ?B" if "length l < p" for p
  proof -
    have "Suc (length l) \<le> p" using that by simp
    then obtain q where q: "p = Suc (length l) + q" by (rule less_eqE)
    then have "drop p (text_lines (l # ls)) = drop q (text_lines ls)" by (simp add: text_lines_Cons)
    then show ?thesis using q by (auto simp: occs_def text_lines_Cons)
  qed
  show ?thesis
  proof (rule set_eqI)
    fix p
    show "p \<in> ?L \<longleftrightarrow> p \<in> ?A \<union> ?B"
    proof (cases "p \<le> length l")
      case True
      then have "p \<notin> ?B" by auto
      with first [OF True] show ?thesis by blast
    next
      case False
      then have "p \<notin> ?A" by auto
      moreover have "p \<in> ?L \<longleftrightarrow> p \<in> ?B" using False by (intro rest) simp
      ultimately show ?thesis by blast
    qed
  qed
qed

lemma count_text_lines:
  assumes "proper_lines ms" and "no_overlap (text_lines ms) (text_lines ms)"
    and "list_all (\<lambda>l. CHR 0x0A \<notin> set l) ls"
  shows "count_sub (text_lines ms) (text_lines ls) = line_hits ms ls"
proof -
  have t: "text_lines ms \<noteq> []" using assms(1) by (cases ms) (auto simp: proper_lines_def text_lines_Cons)
  have "card (occs (text_lines ms) (text_lines ls)) = line_hits ms ls"
    using assms(3)
  proof (induction ls)
    case Nil
    with t show ?case by (auto simp: occs_def)
  next
    case (Cons l ls)
    have "card ((+) (Suc (length l)) ` occs (text_lines ms) (text_lines ls)) = line_hits ms ls"
      using Cons by (subst card_image) (simp_all add: inj_on_def)
    moreover have "(if suffix (hd ms) l \<and> prefix (tl ms) ls then {length l - length (hd ms)} else {})
        \<inter> (+) (Suc (length l)) ` occs (text_lines ms) (text_lines ls) = {}" by auto
    ultimately show ?case
      using Cons.prems occs_text_lines [of l ls ms] assms(1) by (simp add: card_Un_disjoint)
  qed
  with t assms(2) show ?thesis by (simp add: count_sub_card)
qed

lemma sublist_text_lines: "sublist s l \<Longrightarrow> l \<in> set ls \<Longrightarrow> sublist (lit s) (text_lines ls)"
proof -
  assume "sublist s l" and "l \<in> set ls"
  then obtain a b us vs where "l = a @ s @ b" and "ls = us @ l # vs"
    by (auto simp: sublist_def dest: split_list)
  then have "text_lines ls = (text_lines us @ lit a) @ lit s @ (lit b @ 10 # text_lines vs)"
    by (simp add: text_lines_def lit_def)
  then show ?thesis by (metis sublist_appendI)
qed

section \<open>Prepared patches\<close>

text \<open>
  What the \<open>prepare\<close> functions promise: a text they return passes their own check, and a text that
  passes it is returned unchanged.
\<close>

locale prepared_patch =
  fixes prepare :: "pystr \<Rightarrow> patch_result" and verified :: "pystr \<Rightarrow> bool"
  assumes result_verified: "prepare s = Inr (t, act) \<Longrightarrow> verified t"
    and verified_kept: "verified s \<Longrightarrow> \<exists>act. prepare s = Inr (s, act)"
begin

lemma idempotent: "prepare s = Inr (t, act) \<Longrightarrow> \<exists>act'. prepare t = Inr (t, act')"
  by (rule verified_kept) (rule result_verified)

lemma changed_only_once: "prepare s = Inr (t, act) \<Longrightarrow> prepare t = Inr (u, act') \<Longrightarrow> u = t"
  using idempotent by fastforce

end

section \<open>Writing the result\<close>

text \<open>
  Where writing a file can fail: opening it, after some characters, and, for a file written beside the target,
  setting its mode or renaming it. Deleting the file beside the target is taken to work.
\<close>

datatype write_fault = NoFault | OpenFails | WriteFails nat | ChmodFails | RenameFails

text \<open>
  \<open>replace_file\<close> on the target and the file beside it (\<open>None\<close>: missing). The mode is read from the target, which
  must exist; the \<open>finally\<close> removes the other file on every path.
\<close>

definition replace_file ::
  "write_fault \<Rightarrow> pystr \<Rightarrow> pystr option \<times> pystr option \<Rightarrow> unit res \<times> pystr option \<times> pystr option" where
  "replace_file w source = (\<lambda>(target, tmp).
     case (case w of
             OpenFails \<Rightarrow> (Inl OSError, target, tmp)
           | WriteFails n \<Rightarrow> (Inl OSError, target, Some (take n source))
           | ChmodFails \<Rightarrow> (Inl OSError, target, Some source)
           | RenameFails \<Rightarrow> (Inl (if target = None then FileNotFoundError else OSError), target, Some source)
           | NoFault \<Rightarrow> if target = None then (Inl FileNotFoundError, target, Some source)
                        else (Inr (), Some source, None)) of
       (res, target', _) \<Rightarrow> (res, target', None))"

text \<open>Whatever fails, the target is untouched and nothing is left beside it.\<close>

lemma replace_file_cases:
  assumes "replace_file w source (target, tmp) = (res, target', tmp')"
  shows "tmp' = None" and "res = Inr () \<Longrightarrow> w = NoFault \<and> target' = Some source" and "res = Inl e \<Longrightarrow> target' = target"
  using assms by (auto simp: replace_file_def split: write_fault.splits if_splits)

lemma replace_file_works [simp]: "replace_file NoFault source (Some t, tmp) = (Inr (), Some source, None)"
  by (simp add: replace_file_def)

text \<open>The target is only rewritten when the text changes.\<close>

definition rewrite :: "write_fault \<Rightarrow> pystr \<Rightarrow> pystr \<Rightarrow> unit res \<times> pystr option" where
  "rewrite w patched source =
     (if patched \<noteq> source
      then (case replace_file w patched (Some source, None) of (res, file, _) \<Rightarrow> (res, file))
      else (Inr (), Some source))"

lemma rewrite_cases:
  assumes "rewrite w patched source = (res, file)"
  shows "res = Inr () \<Longrightarrow> file = Some patched" and "res = Inl e \<Longrightarrow> file = Some source \<and> w \<noteq> NoFault"
  using assms replace_file_cases [of w patched "Some source" None]
  by (auto simp: rewrite_def split: if_splits prod.splits)

lemma rewrite_same [simp]: "rewrite w source source = (Inr (), Some source)"
  and rewrite_works [simp]: "rewrite NoFault patched source = (Inr (), Some patched)"
  by (simp_all add: rewrite_def)

text \<open>\<open>write_text\<close> on the target itself.\<close>

definition write_text :: "write_fault \<Rightarrow> pystr \<Rightarrow> pystr option \<Rightarrow> unit res \<times> pystr option" where
  "write_text w source target =
     (case w of
        OpenFails \<Rightarrow> (Inl OSError, target)
      | WriteFails n \<Rightarrow> (Inl OSError, Some (take n source))
      | _ \<Rightarrow> (Inr (), Some source))"

section \<open>Main programs\<close>

text \<open>
  The \<open>main\<close> of a script on the target file (\<open>None\<close>: missing): the exit, and the file afterwards.
  \<open>compiles\<close> stands for Python's \<open>compile\<close>, which raises for a text that is not a program;
  \<open>write\<close> is false for a preflight.
\<close>

definition patch_main ::
  "(pystr \<Rightarrow> patch_result) \<Rightarrow> (pystr \<Rightarrow> bool) \<Rightarrow> bool \<Rightarrow> write_fault \<Rightarrow> pystr option \<Rightarrow> int res \<times> pystr option" where
  "patch_main prepare compiles write w file =
     (case file of
        None \<Rightarrow> (Inl SystemExit, None)
      | Some source \<Rightarrow>
          (case prepare source of
             Inl e \<Rightarrow> (Inl (if e = ValueError then SystemExit else e), file)
           | Inr (patched, action) \<Rightarrow>
               if \<not> compiles patched then (Inl SyntaxError, file)
               else if \<not> write then (Inr 0, file)
               else (case rewrite w patched source of
                       (Inl e, file') \<Rightarrow> (Inl e, file') | (Inr _, file') \<Rightarrow> (Inr 0, file'))))"

text \<open>
  The scripts that write the target in place, without compiling the text: nothing is written when the marker is
  there. \<open>missing\<close> is what is raised for a missing file.
\<close>

definition direct_main ::
  "pyexc \<Rightarrow> (pystr \<Rightarrow> patch_result) \<Rightarrow> write_fault \<Rightarrow> pystr option \<Rightarrow> int res \<times> pystr option" where
  "direct_main missing prepare w file =
     (case file of
        None \<Rightarrow> (Inl missing, None)
      | Some source \<Rightarrow>
          (case prepare source of
             Inl e \<Rightarrow> (Inl e, file)
           | Inr (patched, action) \<Rightarrow>
               if action = ''already present'' then (Inr 0, file)
               else (case write_text w patched file of
                       (Inl e, file') \<Rightarrow> (Inl e, file') | (Inr _, file') \<Rightarrow> (Inr 0, file'))))"

context prepared_patch
begin

lemma main_verified:
  assumes "patch_main prepare compiles True w file = (Inr c, file')"
  shows "\<exists>t. file' = Some t \<and> verified t \<and> compiles t"
  using assms
  by (auto simp: patch_main_def dest: result_verified rewrite_cases(1)
      split: option.splits sum.splits if_splits prod.splits)

lemma main_failed:
  assumes "patch_main prepare compiles write w file = (Inl e, file')"
  shows "file' = file"
  using assms
  by (auto simp: patch_main_def dest: rewrite_cases(2) split: option.splits sum.splits if_splits prod.splits)

lemma main_preflight: "snd (patch_main prepare compiles False w file) = file"
  by (simp add: patch_main_def split: option.splits sum.splits prod.splits)

lemma main_again:
  assumes "patch_main prepare compiles True w file = (Inr c, file')"
  shows "patch_main prepare compiles write w' file' = (Inr 0, file')"
  using main_verified [OF assms] verified_kept by (fastforce simp: patch_main_def)

lemma main_outcome:
  assumes "patch_main prepare compiles True w file = (res, file')"
  shows "case res of
      Inr _ \<Rightarrow> (\<exists>t. file' = Some t \<and> verified t \<and> compiles t) \<and>
                (\<forall>w'. patch_main prepare compiles True w' file' = (Inr 0, file'))
    | Inl _ \<Rightarrow> file' = file"
proof (cases res)
  case (Inr c)
  with assms main_verified [of compiles w "file" c file'] main_again [of compiles w "file" c file' True]
  show ?thesis by simp
qed (use assms main_failed [of compiles True w "file"] in simp)

end

lemma direct_main_failed:
  "direct_main missing prepare w file = (Inl e, file') \<Longrightarrow> w = NoFault \<Longrightarrow> file' = file"
  by (auto simp: direct_main_def write_text_def split: option.splits sum.splits if_splits prod.splits)

text \<open>Such a script recognises its result by a marker and says so.\<close>

locale marked_patch = prepared_patch +
  assumes marker_kept: "verified s \<Longrightarrow> prepare s = Inr (s, ''already present'')"
    and present_kept: "prepare s = Inr (t, ''already present'') \<Longrightarrow> t = s"
begin

lemma direct_verified:
  assumes "direct_main missing prepare w file = (Inr c, file')"
  shows "\<exists>t. file' = Some t \<and> verified t"
proof -
  obtain source where f: "file = Some source" using assms(1) by (cases "file") (auto simp: direct_main_def)
  obtain t act where p: "prepare source = Inr (t, act)"
    using assms(1) f by (cases "prepare source") (auto simp: direct_main_def)
  have "file' = Some t"
    using assms(1) present_kept [of source t] p
    by (auto simp: f direct_main_def write_text_def split: if_splits write_fault.splits)
  then show ?thesis using result_verified [OF p] by simp
qed

lemma direct_again:
  assumes "direct_main missing prepare w file = (Inr c, file')"
  shows "direct_main missing prepare w' file' = (Inr 0, file')"
  using direct_verified [OF assms] by (auto simp: direct_main_def marker_kept)

lemma direct_outcome:
  assumes "direct_main missing prepare w file = (res, file')"
  shows "case res of
      Inr _ \<Rightarrow> (\<exists>t. file' = Some t \<and> verified t) \<and>
                (\<forall>w'. direct_main missing prepare w' file' = (Inr 0, file'))
    | Inl _ \<Rightarrow> w = NoFault \<longrightarrow> file' = file"
proof (cases res)
  case (Inr c)
  with assms direct_verified [of missing w "file" c file'] direct_again [of missing w "file" c file']
  show ?thesis by simp
qed (use assms in \<open>auto dest: direct_main_failed\<close>)

text \<open>A write that breaks off behind the marker leaves a part of the text that the next run takes for the result.\<close>

lemma broken_write_kept:
  assumes "prepare s = Inr (t, act)" "act \<noteq> ''already present''" "verified (take n t)"
  shows "direct_main missing prepare (WriteFails n) (Some s) = (Inl OSError, Some (take n t))"
    and "direct_main missing prepare w' (Some (take n t)) = (Inr 0, Some (take n t))"
  using assms by (simp_all add: direct_main_def write_text_def marker_kept)

end

end
