(* ===== verification/PatchIndexer.thy ===== *)
theory PatchIndexer
  imports PatchText
begin

text \<open>
  \<open>patch_indexer_workspace.py\<close>: the opt-in sizing of the sparse indexer's prefill workspace, the host
  replica of the splitter that packs prefill rows into it, and the check the patch installs in the
  metadata builder. The main result is the one the script's docstring argues for: the smaller
  workspace gives the same chunks.
\<close>

section \<open>The injected sizing helpers\<close>

text \<open>\<open>hf_text_config.index_kpool\<close> as it may be found: absent or \<open>None\<close>, a number, or something \<open>int\<close> rejects.\<close>

datatype kpool_setting = NoKpool | Kpool int | BadKpool

record ix_config =
  ix_max_model_len :: int
  ix_index_kpool :: kpool_setting
  ix_max_num_seqs :: int
  ix_max_num_batched_tokens :: int
  ix_num_speculative_tokens :: "int option"

definition STOCK_MULTIPLIER :: int where
  "STOCK_MULTIPLIER = 40"

text \<open>The value of the environment variable; \<open>None\<close> is an unset one.\<close>

definition workspace_mode :: "string option \<Rightarrow> string res" where
  "workspace_mode env =
     (case env of
        None \<Rightarrow> Inr ''stock''
      | Some raw \<Rightarrow> if raw \<notin> {''stock'', ''rightsize''} then Inl ValueError else Inr raw)"

definition stock_workspace_entries :: "int \<Rightarrow> int" where
  "stock_workspace_entries max_model_len = max_model_len * 40"

definition indexer_compress_ratio :: "ix_config \<Rightarrow> int" where
  "indexer_compress_ratio cfg =
     (case ix_index_kpool cfg of
        NoKpool \<Rightarrow> 1
      | BadKpool \<Rightarrow> 1
      | Kpool raw \<Rightarrow> (let ratio = (if raw = 0 then 1 else raw) in if 1 < ratio then ratio else 1))"

definition num_spec_of :: "ix_config \<Rightarrow> int" where
  "num_spec_of cfg = (case ix_num_speculative_tokens cfg of None \<Rightarrow> 0 | Some k \<Rightarrow> k)"

text \<open>\<open>seq_lens_cpu_upper_bound\<close> may run ahead of the model length by the drafts.\<close>

definition ix_span :: "ix_config \<Rightarrow> int" where
  "ix_span cfg = ix_max_model_len cfg + max 0 (num_spec_of cfg)"

definition max_prefill_reqs :: "ix_config \<Rightarrow> int" where
  "max_prefill_reqs cfg = max 1 (min (ix_max_num_seqs cfg) (ix_max_num_batched_tokens cfg))"

definition rightsized_workspace_entries :: "ix_config \<Rightarrow> int" where
  "rightsized_workspace_entries cfg =
     (let stock = stock_workspace_entries (ix_max_model_len cfg);
          ratio = indexer_compress_ratio cfg
      in if ratio \<le> 1 then stock
         else
           (let per_req = - (- ix_span cfg div ratio)
            in min (per_req * max_prefill_reqs cfg) stock))"

section \<open>The patched functions\<close>

definition get_max_prefill_buffer_size :: "string option \<Rightarrow> ix_config \<Rightarrow> int res" where
  "get_max_prefill_buffer_size env cfg =
     (let stock = stock_workspace_entries (ix_max_model_len cfg) in
      bindE (workspace_mode env) (\<lambda>mode.
        if mode \<noteq> ''rightsize'' then Inr stock
        else
          (let entries = rightsized_workspace_entries cfg
           in if stock \<le> entries then Inr stock else Inr entries)))"

text \<open>The cross-check in the metadata builder, after the check on DCP it follows.\<close>

definition builder_check :: "string option \<Rightarrow> ix_config \<Rightarrow> int \<Rightarrow> int \<Rightarrow> int \<Rightarrow> unit res" where
  "builder_check env cfg dcp_world_size compress_ratio max_prefill_buffer_size =
     (if 1 < dcp_world_size \<and> 1 < compress_ratio then Inl NotImplementedError
      else
        bindE (workspace_mode env) (\<lambda>mode.
          if mode = ''rightsize'' then
            (if indexer_compress_ratio cfg \<noteq> compress_ratio then Inl ValueError
             else if max_prefill_buffer_size
                     < min (rightsized_workspace_entries cfg) (stock_workspace_entries (ix_max_model_len cfg))
             then Inl ValueError else Inr ())
          else Inr ()))"

section \<open>The splitter\<close>

text \<open>
  A row is a query length and a compressed sequence length. \<open>pack_rows\<close> is the inner loop: how many
  rows fit, and their totals.
\<close>

fun pack_rows :: "int \<Rightarrow> int \<Rightarrow> int \<Rightarrow> int \<Rightarrow> (int \<times> int) list \<Rightarrow> nat \<times> int \<times> int" where
  "pack_rows ws lim m n [] = (0, m, n)"
| "pack_rows ws lim m n ((q, s) # rows) =
     (if n + s \<le> ws \<and> (m + q) * (n + s) \<le> lim
      then (case pack_rows ws lim (m + q) (n + s) rows of (k, m', n') \<Rightarrow> (Suc k, m', n'))
      else (0, m, n))"

text \<open>A single row is taken even when it does not fit.\<close>

definition next_chunk :: "int \<Rightarrow> int \<Rightarrow> (int \<times> int) list \<Rightarrow> nat \<times> int \<times> int" where
  "next_chunk ws lim rows =
     (case pack_rows ws lim 0 0 rows of
        (0, _, _) \<Rightarrow> (1, fst (hd rows), snd (hd rows))
      | (Suc k, m, n) \<Rightarrow> (Suc k, m, n))"

definition max_query :: "int \<Rightarrow> int \<Rightarrow> int \<Rightarrow> int" where
  "max_query lim m n = (if 0 < n then max 1 (lim div n) else max 1 m)"

text \<open>The query ranges of a chunk: \<open>range(0, chunk_m, max_q)\<close>, cut at \<open>chunk_m\<close>.\<close>

definition sub_slices :: "int \<Rightarrow> int \<Rightarrow> (int \<times> int) list" where
  "sub_slices m mq =
     map (\<lambda>i. (int i * mq, int i * mq + min mq (m - int i * mq))) [0..<nat ((m + mq - 1) div mq)]"

type_synonym chunk = "(int \<times> int) \<times> (int \<times> int)"

function split_from :: "int \<Rightarrow> int \<Rightarrow> nat \<Rightarrow> (int \<times> int) list \<Rightarrow> chunk list" where
  "split_from ws lim start rows =
     (if rows = [] then []
      else (case next_chunk ws lim rows of
              (k, m, n) \<Rightarrow>
                map (Pair (int start, int (start + k))) (sub_slices m (max_query lim m n))
                @ split_from ws lim (start + k) (drop k rows)))"
  by pat_completeness auto
termination
  by (relation "measure (\<lambda>(ws, lim, start, rows). length rows)")
    (auto simp: next_chunk_def split: nat.splits prod.splits)

declare split_from.simps [simp del]

definition split_prefill_chunks :: "int list \<Rightarrow> int list \<Rightarrow> int \<Rightarrow> int \<Rightarrow> chunk list res" where
  "split_prefill_chunks compressed_seq_lens query_lens workspace_size max_logits_bytes =
     (if length query_lens < length compressed_seq_lens then Inl IndexError
      else Inr (split_from workspace_size (max_logits_bytes div 4) 0 (zip query_lens compressed_seq_lens)))"

section \<open>A larger workspace changes nothing\<close>

lemma pack_rows_wide:
  assumes "n + sum_list (map snd rows) \<le> ws" and "n + sum_list (map snd rows) \<le> ws'"
    and "\<forall>r \<in> set rows. 0 \<le> snd r"
  shows "pack_rows ws lim m n rows = pack_rows ws' lim m n rows"
  using assms
proof (induction ws lim m n rows rule: pack_rows.induct)
  case (2 ws lim m n q s rows)
  have "0 \<le> sum_list (map snd rows)" using 2(4) by (intro sum_list_nonneg) auto
  then have "n + s \<le> ws" "n + s \<le> ws'" using 2(2,3) by auto
  with 2 show ?case by simp
qed simp

lemma split_from_wide:
  assumes "sum_list (map snd rows) \<le> ws" and "sum_list (map snd rows) \<le> ws'"
    and "\<forall>r \<in> set rows. 0 \<le> snd r"
  shows "split_from ws lim start rows = split_from ws' lim start rows"
  using assms
proof (induction ws lim start rows rule: split_from.induct)
  case (1 ws lim start rows)
  show ?case
  proof (cases "rows = []")
    case False
    have c: "next_chunk ws lim rows = next_chunk ws' lim rows"
      using pack_rows_wide [of 0 rows ws ws'] 1(2-4) by (simp add: next_chunk_def)
    obtain k m n where k: "next_chunk ws lim rows = (k, m, n)" by (cases "next_chunk ws lim rows") auto
    have "rows = take k rows @ drop k rows" by simp
    then have "sum_list (map snd rows) = sum_list (map snd (take k rows)) + sum_list (map snd (drop k rows))"
      by (metis map_append sum_list_append)
    moreover have "0 \<le> sum_list (map snd (take k rows))"
      using 1(4) by (intro sum_list_nonneg) (auto dest: in_set_takeD)
    ultimately have "sum_list (map snd (drop k rows)) \<le> ws" "sum_list (map snd (drop k rows)) \<le> ws'"
      using 1(2,3) by auto
    moreover have "\<forall>r \<in> set (drop k rows). 0 \<le> snd r" using 1(4) by (auto dest: in_set_dropD)
    ultimately have "split_from ws lim (start + k) (drop k rows) = split_from ws' lim (start + k) (drop k rows)"
      by (intro 1(1) [OF False k [symmetric] refl])
    with False k c show ?thesis by (simp add: split_from.simps [of _ _ _ rows])
  qed (simp add: split_from.simps)
qed

lemma cdiv_ge: "0 < r \<Longrightarrow> 0 \<le> s \<Longrightarrow> s \<le> (t::int) \<Longrightarrow> s div r \<le> - (- t div r)"
proof -
  assume r: "0 < r" "0 \<le> s" "s \<le> t"
  have "s div r \<le> t div r" using r by (simp add: zdiv_mono1)
  also have "t div r \<le> - (- t div r)" using r(1) by (simp add: zdiv_zminus1_eq_if)
  finally show ?thesis .
qed

text \<open>A batch the scheduler can form: at most this many rows, each within the model length and the drafts.\<close>

definition legal_batch :: "ix_config \<Rightarrow> int list \<Rightarrow> int list \<Rightarrow> bool" where
  "legal_batch cfg seq_lens query_lens \<longleftrightarrow>
     length query_lens = length seq_lens \<and>
     int (length seq_lens) \<le> max_prefill_reqs cfg \<and>
     (\<forall>s \<in> set seq_lens. 0 \<le> s \<and> s \<le> ix_span cfg)"

lemma sum_list_le_length: "(\<And>x. x \<in> set xs \<Longrightarrow> x \<le> b) \<Longrightarrow> sum_list xs \<le> int (length xs) * (b::int)"
  by (induction xs) (auto simp: algebra_simps intro: add_mono)

lemma legal_total:
  assumes "legal_batch cfg seq_lens query_lens" and "r = indexer_compress_ratio cfg" and "seq_lens \<noteq> []"
  shows "sum_list (map (\<lambda>s. s div r) seq_lens)
    \<le> - (- ix_span cfg div r) * max_prefill_reqs cfg"
proof -
  let ?c = "- (- ix_span cfg div r)"
  have r: "0 < r" using assms(2) by (simp add: indexer_compress_ratio_def Let_def split: kpool_setting.split)
  have s: "x \<le> ?c" if "x \<in> set (map (\<lambda>s. s div r) seq_lens)" for x
    using that assms(1) r by (auto simp: legal_batch_def intro: cdiv_ge)
  have "sum_list (map (\<lambda>s. s div r) seq_lens) \<le> int (length seq_lens) * ?c"
    using sum_list_le_length [of "map (\<lambda>s. s div r) seq_lens" ?c] s by simp
  also have "\<dots> \<le> max_prefill_reqs cfg * ?c"
  proof -
    obtain x where x: "x \<in> set seq_lens" using assms(3) by (cases seq_lens) auto
    then have "0 \<le> x div r" using assms(1) r by (simp add: legal_batch_def pos_imp_zdiv_nonneg_iff)
    with s [of "x div r"] x have "0 \<le> ?c" by auto
    then show ?thesis using assms(1) by (intro mult_right_mono) (simp_all add: legal_batch_def)
  qed
  finally show ?thesis by (simp add: mult.commute)
qed

text \<open>
  C23. In \<open>rightsize\<close> mode, once the builder has accepted the ratio, the splitter makes the same chunks
  as with the stock workspace, for every batch the scheduler can form and whatever the logits limit; in
  every mode the workspace is at most the stock one.
\<close>

theorem rightsized_chunks_are_stock_chunks:
  assumes "get_max_prefill_buffer_size env cfg = Inr entries"
    and "builder_check env cfg dcp_world_size compress_ratio entries = Inr ()"
    and "legal_batch cfg seq_lens query_lens"
    and "compressed = map (\<lambda>s. s div compress_ratio) seq_lens"
    and "stock = stock_workspace_entries (ix_max_model_len cfg)"
  shows "entries \<le> stock \<and>
    split_prefill_chunks compressed query_lens entries max_logits_bytes =
      split_prefill_chunks compressed query_lens stock max_logits_bytes"
proof (cases "entries = stock \<or> seq_lens = []")
  case True
  have "entries \<le> stock"
    using assms(1,5) by (auto simp: get_max_prefill_buffer_size_def Let_def exc_simps split: if_splits)
  with True assms(4) show ?thesis by (auto simp: split_prefill_chunks_def split_from.simps [of _ _ _ "[]"])
next
  case False
  let ?r = "indexer_compress_ratio cfg"
  let ?total = "- (- ix_span cfg div ?r) * max_prefill_reqs cfg"
  from False have ne: "seq_lens \<noteq> []" by simp
  from False assms(1,5) have e: "entries = ?total" "entries < stock" and mode: "workspace_mode env = Inr ''rightsize''"
    by (auto simp: get_max_prefill_buffer_size_def rightsized_workspace_entries_def Let_def exc_simps
        split: if_splits)
  have r: "compress_ratio = ?r"
    using assms(2) mode by (auto simp: builder_check_def exc_simps split: if_splits)
  have l: "length query_lens = length compressed" using assms(3,4) by (simp add: legal_batch_def)
  have z: "map snd (zip query_lens compressed) = compressed" using l by simp
  have t: "sum_list (map snd (zip query_lens compressed)) \<le> entries"
    using legal_total [OF assms(3) refl ne] unfolding z unfolding assms(4) e(1) r .
  have "0 < ?r" by (simp add: indexer_compress_ratio_def Let_def split: kpool_setting.split)
  then have "\<forall>r \<in> set (zip query_lens compressed). 0 \<le> snd r"
    using assms(3,4) r by (auto simp: legal_batch_def pos_imp_zdiv_nonneg_iff dest!: set_zip_rightD)
  with t e(2) have "split_from entries (max_logits_bytes div 4) 0 (zip query_lens compressed)
      = split_from stock (max_logits_bytes div 4) 0 (zip query_lens compressed)"
    by (intro split_from_wide) auto
  with e(2) show ?thesis by (simp add: split_prefill_chunks_def)
qed

definition ex_indexer :: ix_config where
  "ex_indexer = \<lparr>ix_max_model_len = 1000, ix_index_kpool = Kpool 4, ix_max_num_seqs = 16,
     ix_max_num_batched_tokens = 64, ix_num_speculative_tokens = Some 7\<rparr>"

theorem rightsized_chunks_are_stock_chunks_witness:
  "get_max_prefill_buffer_size (Some ''rightsize'') ex_indexer = Inr 4032 \<and>
   stock_workspace_entries 1000 = 40000 \<and>
   split_prefill_chunks [251, 250, 2] [8, 8, 20] 4032 16000 =
     split_prefill_chunks [251, 250, 2] [8, 8, 20] 40000 16000"
proof -
  have "get_max_prefill_buffer_size (Some ''rightsize'') ex_indexer = Inr 4032" by code_simp
  moreover have "builder_check (Some ''rightsize'') ex_indexer 1 4 4032 = Inr ()" by code_simp
  moreover have "legal_batch ex_indexer [1007, 1000, 11] [8, 8, 20]" by code_simp
  ultimately show ?thesis
    using rightsized_chunks_are_stock_chunks
      [of "Some ''rightsize''" ex_indexer 4032 1 4 "[1007, 1000, 11]" "[8, 8, 20]" "[251, 250, 2]" 40000 16000]
    by (simp add: ex_indexer_def stock_workspace_entries_def)
qed

section \<open>The chunks tile the batch\<close>

lemma upto_split: "i \<le> j \<Longrightarrow> j \<le> k \<Longrightarrow> [i..j - 1] @ [j..k - 1] = [i..k - (1::int)]"
proof -
  assume "i \<le> j" and "j \<le> k"
  then consider "i = j" | "j = k" | "i \<le> j - 1" "j - 1 \<le> k - 1" by linarith
  then show ?thesis
  proof cases
    case 3
    from upto_split2 [OF this] show ?thesis by simp
  qed simp_all
qed

lemma sub_slices_tile:
  assumes "0 < mq" and "0 \<le> m"
  shows "concat (map (\<lambda>(a, b). [base + a..base + b - 1]) (sub_slices m mq)) = [base..base + m - 1]"
proof -
  let ?K = "nat ((m + mq - 1) div mq)"
  let ?f = "\<lambda>i. (int i * mq, int i * mq + min mq (m - int i * mq))"
  have "j \<le> ?K \<Longrightarrow> concat (map (\<lambda>(a, b). [base + a..base + b - 1]) (map ?f [0..<j])) = [base..base + min m (int j * mq) - 1]" for j
  proof (induction j)
    case 0
    then show ?case using assms by simp
  next
    case (Suc j)
    have "int j < (m + mq - 1) div mq" using Suc.prems by linarith
    then have "(int j + 1) * mq \<le> (m + mq - 1) div mq * mq" using assms(1) by (intro mult_right_mono) auto
    also have "\<dots> \<le> m + mq - 1"
      using assms(1) pos_mod_sign [of mq "m + mq - 1"] div_mult_mod_eq [of "m + mq - 1" mq] by linarith
    finally have "(int j + 1) * mq \<le> m + mq - 1" .
    then have j: "int j * mq < m" by (simp add: algebra_simps)
    have "[base..base + int j * mq - 1] @ [base + int j * mq..base + (int j * mq + min mq (m - int j * mq)) - 1]
        = [base..base + min m (int (Suc j) * mq) - 1]"
      using upto_split [of base "base + int j * mq" "base + min m (int (Suc j) * mq)"] j assms(1)
      by (simp add: algebra_simps min_add_distrib_right min.commute)
    with Suc j show ?case by simp
  qed
  from this [of ?K] have "concat (map (\<lambda>(a, b). [base + a..base + b - 1]) (sub_slices m mq))
      = [base..base + min m (int ?K * mq) - 1]" by (simp add: sub_slices_def)
  moreover have "m \<le> int ?K * mq"
  proof -
    have "0 \<le> (m + mq - 1) div mq" using assms by (simp add: pos_imp_zdiv_nonneg_iff)
    moreover have "m \<le> (m + mq - 1) div mq * mq"
      using assms(1) pos_mod_bound [of mq "m + mq - 1"] div_mult_mod_eq [of "m + mq - 1" mq] by linarith
    ultimately show ?thesis by simp
  qed
  ultimately show ?thesis by simp
qed

lemma pack_rows_facts:
  assumes "pack_rows ws lim m n rows = (k, m', n')"
  shows "k \<le> length rows \<and> m' = m + sum_list (map fst (take k rows)) \<and> n' = n + sum_list (map snd (take k rows)) \<and>
    (k = 0 \<or> n' \<le> ws \<and> m' * n' \<le> lim)"
  using assms
proof (induction ws lim m n rows arbitrary: k m' n' rule: pack_rows.induct)
  case (2 ws lim m n q s rows)
  show ?case
  proof (cases "n + s \<le> ws \<and> (m + q) * (n + s) \<le> lim")
    case True
    obtain j where j: "pack_rows ws lim (m + q) (n + s) rows = (j, m', n')" "k = Suc j"
      using 2(2) True by (auto split: prod.splits)
    from 2(1) [OF True j(1)] True j(2) show ?thesis
      by (cases j) (auto simp: algebra_simps)
  next
    case False
    with 2(2) show ?thesis by auto
  qed
qed simp

lemma next_chunk_facts:
  assumes "next_chunk ws lim rows = (k, m, n)" and "rows \<noteq> []"
  shows "1 \<le> k \<and> k \<le> length rows \<and> m = sum_list (map fst (take k rows)) \<and> n = sum_list (map snd (take k rows)) \<and>
    (k = 1 \<or> n \<le> ws \<and> m * n \<le> lim)"
proof -
  obtain k0 m0 n0 where p: "pack_rows ws lim 0 0 rows = (k0, m0, n0)" by (cases "pack_rows ws lim 0 0 rows") auto
  show ?thesis
  proof (cases k0)
    case 0
    with p assms show ?thesis by (cases rows) (auto simp: next_chunk_def)
  next
    case (Suc j)
    with p assms(1) have e: "k = k0" "m = m0" "n = n0" by (auto simp: next_chunk_def)
    have "1 \<le> k0" "k0 \<noteq> 0" using Suc by simp_all
    with pack_rows_facts [OF p] show ?thesis unfolding e by auto
  qed
qed

text \<open>The query tokens of a chunk, counted from the start of the batch.\<close>

definition query_start :: "int list \<Rightarrow> int \<Rightarrow> int" where
  "query_start qs a = sum_list (take (nat a) qs)"

definition chunk_tokens :: "int list \<Rightarrow> chunk \<Rightarrow> int list" where
  "chunk_tokens qs = (\<lambda>((a, b), (s, e)). [query_start qs a + s..query_start qs a + e - 1])"

text \<open>Bounds of a chunk: rows that exist, and logits within the limit unless it is a single query token.\<close>

definition chunk_within :: "int \<Rightarrow> int \<Rightarrow> int list \<Rightarrow> chunk \<Rightarrow> bool" where
  "chunk_within ws lim ss = (\<lambda>((a, b), (s, e)).
     (let n = sum_list (take (nat (b - a)) (drop (nat a) ss)) in
      0 \<le> a \<and> a < b \<and> b \<le> int (length ss) \<and> 0 \<le> s \<and> s < e \<and>
      (b = a + 1 \<or> n \<le> ws) \<and> (e = s + 1 \<or> (e - s) * n \<le> lim)))"

lemma sub_slices_bounds:
  assumes "(s, e) \<in> set (sub_slices m mq)" and "0 < mq"
  shows "0 \<le> s \<and> s < e \<and> e - s \<le> mq"
proof -
  obtain i where i: "i < nat ((m + mq - 1) div mq)" "s = int i * mq" "e = s + min mq (m - int i * mq)"
    using assms(1) by (auto simp: sub_slices_def)
  then have "int i + 1 \<le> (m + mq - 1) div mq" by linarith
  then have "(int i + 1) * mq \<le> (m + mq - 1) div mq * mq" using assms(2) by (intro mult_right_mono) auto
  also have "\<dots> \<le> m + mq - 1"
    using assms(2) pos_mod_sign [of mq "m + mq - 1"] div_mult_mod_eq [of "m + mq - 1" mq] by linarith
  finally have "int i * mq < m" by (simp add: algebra_simps)
  with i assms(2) show ?thesis by auto
qed

lemma max_query_within:
  assumes "e - s \<le> max_query lim m n" and "s < e" and "0 \<le> n" and "0 \<le> lim"
  shows "e = s + 1 \<or> (e - s) * n \<le> lim"
proof (cases "0 < n \<and> 1 < lim div n")
  case True
  then have "(e - s) * n \<le> lim div n * n" using assms(1) by (intro mult_right_mono) (auto simp: max_query_def)
  also have "\<dots> \<le> lim" using True pos_mod_sign [of n lim] div_mult_mod_eq [of lim n] by linarith
  finally show ?thesis ..
next
  case False
  with assms show ?thesis by (cases "n = 0") (auto simp: max_query_def)
qed

lemma split_from_tiles:
  assumes "rows = drop start (zip qs ss)" and "length qs = length ss" and "start \<le> length qs"
    and "\<forall>q \<in> set qs. 0 \<le> q" and "\<forall>s \<in> set ss. 0 \<le> s" and "0 \<le> lim"
  shows "concat (map (chunk_tokens qs) (split_from ws lim start rows))
      = [query_start qs (int start)..query_start qs (int (length qs)) - 1] \<and>
    list_all (chunk_within ws lim ss) (split_from ws lim start rows)"
  using assms
proof (induction ws lim start rows rule: split_from.induct)
  case (1 ws lim start rows)
  have zq: "map fst (zip qs ss) = qs" and zs: "map snd (zip qs ss) = ss" using 1(3) by simp_all
  show ?case
  proof (cases "rows = []")
    case True
    with 1(2-4) have "start = length qs" by simp
    with True show ?thesis by (simp add: split_from.simps)
  next
    case False
    obtain k m n where k: "next_chunk ws lim rows = (k, m, n)" by (cases "next_chunk ws lim rows") auto
    note f = next_chunk_facts [OF k False]
    have m: "m = sum_list (take k (drop start qs))" and n: "n = sum_list (take k (drop start ss))"
      using f 1(2) by (simp_all add: take_map [symmetric] drop_map [symmetric] zq zs)
    have l: "start + k \<le> length qs" using f 1(2,3) False by auto
    have m0: "0 \<le> m" unfolding m using 1(5)
      by (intro sum_list_nonneg) (auto dest!: in_set_takeD in_set_dropD)
    have n0: "0 \<le> n" unfolding n using 1(6)
      by (intro sum_list_nonneg) (auto dest!: in_set_takeD in_set_dropD)
    have mq: "0 < max_query lim m n" by (auto simp: max_query_def)
    have q: "query_start qs (int (start + k)) = query_start qs (int start) + m"
      by (simp add: query_start_def m nat_int_add take_add)
    have "drop k rows = drop (start + k) (zip qs ss)" using 1(2) by (simp add: add.commute)
    note ih = 1(1) [OF False k [symmetric] refl this 1(3) l 1(5-7)]
    let ?first = "map (Pair (int start, int (start + k))) (sub_slices m (max_query lim m n))"
    have s: "split_from ws lim start rows = ?first @ split_from ws lim (start + k) (drop k rows)"
      using False k by (simp add: split_from.simps [of ws lim start rows])
    have "concat (map (chunk_tokens qs) ?first) = [query_start qs (int start)..query_start qs (int start) + m - 1]"
      using sub_slices_tile [OF mq m0, of "query_start qs (int start)"] by (simp add: chunk_tokens_def comp_def)
    moreover have "query_start qs (int (start + k)) \<le> query_start qs (int (length qs))"
    proof -
      have "sum_list (take (start + k) qs @ drop (start + k) qs)
          = sum_list (take (start + k) qs) + sum_list (drop (start + k) qs)" by (rule sum_list_append)
      moreover have "0 \<le> sum_list (drop (start + k) qs)"
        using 1(5) by (intro sum_list_nonneg) (auto dest: in_set_dropD)
      ultimately show ?thesis by (simp only: query_start_def nat_int append_take_drop_id take_all_iff) simp
    qed
    ultimately have tile: "concat (map (chunk_tokens qs) (split_from ws lim start rows))
        = [query_start qs (int start)..query_start qs (int (length qs)) - 1]"
      using upto_split [of "query_start qs (int start)" "query_start qs (int (start + k))"] ih m0 s q by simp
    have "list_all (chunk_within ws lim ss) ?first"
      using f l 1(3) n sub_slices_bounds [OF _ mq] max_query_within [OF _ _ n0 1(7), of _ _ m]
      by (fastforce simp: list_all_iff chunk_within_def Let_def)
    with ih tile s show ?thesis by simp
  qed
qed

text \<open>
  C24. The splitter covers a batch: the chunks hold every query token exactly once, in order. Each chunk is a
  run of rows that fits the workspace unless it is one row, and its logits (query tokens times keys) stay
  within the limit unless it is one query token.
\<close>

theorem chunks_tile_the_batch:
  assumes "split_prefill_chunks compressed query_lens ws max_logits_bytes = Inr chunks"
    and "length query_lens = length compressed" and "0 \<le> max_logits_bytes"
    and "\<forall>q \<in> set query_lens. 0 \<le> q" and "\<forall>s \<in> set compressed. 0 \<le> s"
  shows "concat (map (chunk_tokens query_lens) chunks) = [0..sum_list query_lens - 1] \<and>
    list_all (chunk_within ws (max_logits_bytes div 4) compressed) chunks"
proof -
  have c: "chunks = split_from ws (max_logits_bytes div 4) 0 (zip query_lens compressed)"
    using assms(1,2) by (simp add: split_prefill_chunks_def)
  have "0 \<le> max_logits_bytes div 4" using assms(3) by simp
  from split_from_tiles [OF _ assms(2) _ assms(4,5) this, of "zip query_lens compressed" 0 ws]
  show ?thesis unfolding c by (simp add: query_start_def)
qed

theorem chunks_tile_the_batch_witness:
  "concat (map (chunk_tokens [3, 2, 4]) [((0, 2), (0, 5)), ((2, 3), (0, 1)), ((2, 3), (1, 2)), ((2, 3), (2, 3)), ((2, 3), (3, 4))])
     = [0..8]"
proof -
  have "split_prefill_chunks [4, 4, 90] [3, 2, 4] 10 200 =
    Inr [((0, 2), (0, 5)), ((2, 3), (0, 1)), ((2, 3), (1, 2)), ((2, 3), (2, 3)), ((2, 3), (3, 4))]"
    by code_simp
  from chunks_tile_the_batch [OF this] show ?thesis by simp
qed

end
