(* ===== verification/PatchGrammar.thy ===== *)
theory PatchGrammar
  imports Prelude Machines
begin

text \<open>
  What \<open>patch_xgrammar_termination.py\<close> installs: \<open>accept_tokens\<close>, \<open>validate_tokens\<close> and \<open>reset\<close> of the
  XGrammar backend, the step of the structured-output manager that advances the grammar of a request,
  and, for comparison, the versions it replaces. The matcher itself is XGrammar's and a parameter.
\<close>

section \<open>The matcher and the grammar object\<close>

record 'm matcher_lib =
  m_accept_token :: "int \<Rightarrow> 'm \<Rightarrow> bool \<times> 'm"
  m_is_terminated :: "'m \<Rightarrow> bool"
  m_rollback :: "nat \<Rightarrow> 'm \<Rightarrow> 'm"
  m_reset :: "'m \<Rightarrow> 'm"

record 'm grammar =
  g_matcher :: 'm
  g_num_processed_tokens :: int
  g_terminated :: bool

text \<open>Accepting several tokens in a row.\<close>

fun m_accepts :: "'m matcher_lib \<Rightarrow> int list \<Rightarrow> 'm \<Rightarrow> 'm option" where
  "m_accepts M [] m = Some m"
| "m_accepts M (t # ts) m =
     (case m_accept_token M t m of (True, m') \<Rightarrow> m_accepts M ts m' | (False, _) \<Rightarrow> None)"

text \<open>
  What XGrammar documents: a rejected token leaves the matcher as it was, \<open>rollback(n)\<close> undoes the last
  \<open>n\<close> accepted tokens, and a reset matcher is not terminated.
\<close>

definition matcher_laws :: "'m matcher_lib \<Rightarrow> bool" where
  "matcher_laws M \<longleftrightarrow>
     (\<forall>t m m'. m_accept_token M t m = (False, m') \<longrightarrow> m' = m) \<and>
     (\<forall>ts m m'. m_accepts M ts m = Some m' \<longrightarrow> m_rollback M (length ts) m' = m) \<and>
     (\<forall>m. \<not> m_is_terminated M (m_reset M m))"

section \<open>The installed methods\<close>

fun accept_each :: "'m matcher_lib \<Rightarrow> int list \<Rightarrow> 'm grammar \<Rightarrow> bool \<times> 'm grammar" where
  "accept_each M [] g = (True, g)"
| "accept_each M (t # ts) g =
     (case m_accept_token M t (g_matcher g) of
        (False, m) \<Rightarrow> (False, g\<lparr>g_matcher := m\<rparr>)
      | (True, m) \<Rightarrow>
          (let g1 = \<lparr>g_matcher = m, g_num_processed_tokens = g_num_processed_tokens g + 1,
                     g_terminated = m_is_terminated M m\<rparr>
           in if g_terminated g1 then (True, g1) else accept_each M ts g1))"

definition accept_tokens :: "'m matcher_lib \<Rightarrow> int list \<Rightarrow> 'm grammar \<Rightarrow> bool \<times> 'm grammar" where
  "accept_tokens M ts g = (if g_terminated g then (True, g) else accept_each M ts g)"

fun validate_each :: "'m matcher_lib \<Rightarrow> int list \<Rightarrow> 'm \<Rightarrow> int list \<times> 'm" where
  "validate_each M [] m = ([], m)"
| "validate_each M (t # ts) m =
     (case m_accept_token M t m of
        (False, m') \<Rightarrow> ([], m')
      | (True, m') \<Rightarrow>
          if m_is_terminated M m' then ([t], m')
          else (case validate_each M ts m' of (acc, m'') \<Rightarrow> (t # acc, m'')))"

definition validate_tokens :: "'m matcher_lib \<Rightarrow> int list \<Rightarrow> 'm grammar \<Rightarrow> int list \<times> 'm grammar" where
  "validate_tokens M ts g =
     (if g_terminated g then ([], g)
      else (case validate_each M ts (g_matcher g) of
              (acc, m) \<Rightarrow> (acc, g\<lparr>g_matcher := (if acc \<noteq> [] then m_rollback M (length acc) m else m)\<rparr>)))"

definition reset :: "'m matcher_lib \<Rightarrow> 'm grammar \<Rightarrow> 'm grammar" where
  "reset M g = \<lparr>g_matcher = m_reset M (g_matcher g), g_num_processed_tokens = 0, g_terminated = False\<rparr>"

text \<open>
  The manager's step for one token: \<open>is_terminated\<close> is the grammar's method of that name, which is not
  part of the patch, and the number counts the state advancements.
\<close>

definition advance_token ::
  "'m matcher_lib \<Rightarrow> ('m grammar \<Rightarrow> bool) \<Rightarrow> bool \<Rightarrow> bool \<Rightarrow> int \<Rightarrow> 'm grammar \<times> nat \<Rightarrow> ('m grammar \<times> nat) res" where
  "advance_token M is_terminated advance_grammar post_reasoning_end token = (\<lambda>(g, advancements).
     if advance_grammar \<and> \<not> is_terminated g then
       (let (accepted, g1) =
              (if post_reasoning_end
               then (case validate_tokens M [token] g of
                       (valid, g') \<Rightarrow> if valid \<noteq> [] then accept_tokens M [token] g' else (False, g'))
               else accept_tokens M [token] g)
        in if accepted then Inr (g1, Suc advancements)
           else if \<not> post_reasoning_end then Inl AssertionError
           else Inr (g1, advancements))
     else Inr (g, advancements))"

section \<open>The replaced methods\<close>

fun accept_each_old :: "'m matcher_lib \<Rightarrow> int list \<Rightarrow> 'm grammar \<Rightarrow> bool \<times> 'm grammar" where
  "accept_each_old M [] g = (True, g\<lparr>g_terminated := m_is_terminated M (g_matcher g)\<rparr>)"
| "accept_each_old M (t # ts) g =
     (case m_accept_token M t (g_matcher g) of
        (False, m) \<Rightarrow> (False, g\<lparr>g_matcher := m\<rparr>)
      | (True, m) \<Rightarrow>
          accept_each_old M ts (g\<lparr>g_matcher := m, g_num_processed_tokens := g_num_processed_tokens g + 1\<rparr>))"

definition accept_tokens_old :: "'m matcher_lib \<Rightarrow> int list \<Rightarrow> 'm grammar \<Rightarrow> bool \<times> 'm grammar" where
  "accept_tokens_old M ts g = (if g_terminated g then (False, g) else accept_each_old M ts g)"

section \<open>The cached flag\<close>

definition in_sync :: "'m matcher_lib \<Rightarrow> 'm grammar \<Rightarrow> bool" where
  "in_sync M g \<longleftrightarrow> g_terminated g = m_is_terminated M (g_matcher g)"

lemma matcher_lawsD:
  assumes "matcher_laws M"
  shows "m_accept_token M t m = (False, m') \<Longrightarrow> m' = m"
    and "m_accepts M ts m = Some m' \<Longrightarrow> m_rollback M (length ts) m' = m"
    and "\<not> m_is_terminated M (m_reset M m)"
  using assms by (auto simp: matcher_laws_def)

lemma accept_each_sync:
  assumes "matcher_laws M" and "in_sync M g"
  shows "in_sync M (snd (accept_each M ts g))"
  using assms(2)
proof (induction ts arbitrary: g)
  case (Cons t ts)
  obtain ok m where a: "m_accept_token M t (g_matcher g) = (ok, m)" by fastforce
  show ?case
  proof (cases ok)
    case True
    with a Cons.IH show ?thesis by (simp add: Let_def in_sync_def)
  next
    case False
    with a matcher_lawsD(1) [OF assms(1), of t "g_matcher g" m] have "m = g_matcher g" by simp
    with False a Cons.prems show ?thesis by (simp add: in_sync_def)
  qed
qed simp

lemma validate_each_accepts:
  "validate_each M ts m = (acc, m') \<Longrightarrow> matcher_laws M \<Longrightarrow>
     prefix acc ts \<and> m_accepts M acc m = Some m' \<and>
     (acc \<noteq> ts \<longrightarrow> acc \<noteq> [] \<and> m_is_terminated M m' \<or> fst (m_accept_token M (ts ! length acc) m') = False)"
proof (induction ts arbitrary: m acc m')
  case (Cons t ts)
  obtain ok m1 where a: "m_accept_token M t m = (ok, m1)" by fastforce
  show ?case
  proof (cases "ok \<and> \<not> m_is_terminated M m1")
    case True
    obtain acc1 m2 where v: "validate_each M ts m1 = (acc1, m2)" by fastforce
    with a True Cons.prems have "acc = t # acc1" "m' = m2" by auto
    with Cons.IH [OF v Cons.prems(2)] a True show ?thesis by auto
  next
    case False
    then consider "ok" "m_is_terminated M m1" | "\<not> ok" "m1 = m"
      using a matcher_lawsD(1) [OF Cons.prems(2), of t m m1] by (cases ok) simp_all
    then show ?thesis using a Cons.prems(1) by cases auto
  qed
qed auto

lemma validate_tokens_pure:
  assumes "matcher_laws M" and "validate_tokens M ts g = (acc, g')"
  shows "g' = g"
proof (cases "g_terminated g")
  case False
  obtain m where v: "validate_each M ts (g_matcher g) = (acc, m)"
    and g': "g' = g\<lparr>g_matcher := (if acc \<noteq> [] then m_rollback M (length acc) m else m)\<rparr>"
    using assms(2) False by (auto simp: validate_tokens_def split: prod.splits)
  from validate_each_accepts [OF v assms(1)] have "m_accepts M acc (g_matcher g) = Some m" by blast
  with matcher_lawsD(2) [OF assms(1) this] g' show ?thesis by (cases acc) auto
qed (use assms(2) in \<open>simp add: validate_tokens_def\<close>)

lemma accept_tokens_sync: "matcher_laws M \<Longrightarrow> in_sync M g \<Longrightarrow> in_sync M (snd (accept_tokens M ts g))"
  by (simp add: accept_tokens_def accept_each_sync)

text \<open>The calls on a grammar object.\<close>

inductive grammar_step :: "'m matcher_lib \<Rightarrow> 'm grammar \<Rightarrow> 'm grammar \<Rightarrow> bool" for M where
  accepted: "accept_tokens M ts g = (ok, g') \<Longrightarrow> grammar_step M g g'"
| validated: "validate_tokens M ts g = (acc, g') \<Longrightarrow> grammar_step M g g'"
| cleared: "grammar_step M g (reset M g)"
| advanced: "advance_token M is_terminated adv post t (g, n) = Inr (g', n') \<Longrightarrow> grammar_step M g g'"

inductive_cases grammar_stepE: "grammar_step M g g'"

lemma advance_token_sync:
  assumes "matcher_laws M" and "in_sync M g" and "advance_token M is_terminated adv post t (g, n) = Inr (g', n')"
  shows "in_sync M g'"
proof -
  have a: "in_sync M g1" if "accept_tokens M ts g = (ok, g1)" for ts ok g1
    using accept_tokens_sync [OF assms(1,2), of ts] that by simp
  obtain valid g1 where v: "validate_tokens M [t] g = (valid, g1)" by fastforce
  with validate_tokens_pure [OF assms(1)] have v: "validate_tokens M [t] g = (valid, g)" by blast
  obtain ok g2 where o: "accept_tokens M [t] g = (ok, g2)" by fastforce
  have "g' = g \<or> g' = g2"
    using assms(3) by (auto simp: advance_token_def Let_def v o split: if_splits)
  with a [OF o] assms(2) show ?thesis by blast
qed

interpretation grammar: state_machine "grammar_step M" "\<lambda>g. matcher_laws M \<and> in_sync M g" for M
proof
  show "matcher_laws M \<and> in_sync M t" if "grammar_step M s t" "matcher_laws M \<and> in_sync M s" for s t
    using that(1)
  proof (rule grammar_stepE)
    show "matcher_laws M \<and> in_sync M t" if "accept_tokens M ts s = (ok, t)" for ts ok
      using that \<open>matcher_laws M \<and> in_sync M s\<close> accept_tokens_sync [of M s ts] by (metis snd_conv)
    show "matcher_laws M \<and> in_sync M t" if "validate_tokens M ts s = (acc, t)" for ts acc
      using that \<open>matcher_laws M \<and> in_sync M s\<close> validate_tokens_pure by blast
    show "matcher_laws M \<and> in_sync M t" if "t = reset M s"
      using that \<open>matcher_laws M \<and> in_sync M s\<close> matcher_lawsD(3) [of M "g_matcher s"] by (simp add: reset_def in_sync_def)
    show "matcher_laws M \<and> in_sync M t" if "advance_token M is_terminated adv post tok (s, n) = Inr (t, n')"
      for is_terminated adv post tok n n'
      using that \<open>matcher_laws M \<and> in_sync M s\<close> advance_token_sync by blast
  qed
qed

section \<open>Properties\<close>

text \<open>A matcher for sequences of ones and twos that a zero ends; its state is the reversed history.\<close>

definition ex_matcher :: "int list matcher_lib" where
  "ex_matcher = \<lparr>
     m_accept_token = (\<lambda>t h. if t \<in> {0, 1, 2} \<and> \<not> (h \<noteq> [] \<and> hd h = 0) then (True, t # h) else (False, h)),
     m_is_terminated = (\<lambda>h. h \<noteq> [] \<and> hd h = 0),
     m_rollback = drop, m_reset = (\<lambda>h. [])\<rparr>"

definition ex_grammar :: "int list grammar" where
  "ex_grammar = \<lparr>g_matcher = [], g_num_processed_tokens = 0, g_terminated = False\<rparr>"

lemma ex_matcher_laws: "matcher_laws ex_matcher"
proof -
  have "\<exists>xs. m' = xs @ m \<and> length xs = length ts" if "m_accepts ex_matcher ts m = Some m'" for ts m m'
    using that
  proof (induction ts arbitrary: m)
    case (Cons t ts)
    then have "m_accepts ex_matcher ts (t # m) = Some m'" by (auto simp: ex_matcher_def split: if_splits)
    from Cons.IH [OF this] obtain xs where "m' = xs @ t # m" "length xs = length ts" by blast
    then show ?case by (intro exI [of _ "xs @ [t]"]) simp
  qed simp
  then have "m_rollback ex_matcher (length ts) m' = m" if "m_accepts ex_matcher ts m = Some m'" for ts m m'
    using that by (fastforce simp: ex_matcher_def)
  then show ?thesis by (auto simp: matcher_laws_def) (auto simp: ex_matcher_def split: if_splits)
qed

text \<open>
  C26. After the backport the cached termination flag agrees with the matcher in every state a grammar object
  reaches by accepting, validating, advancing and resetting, from a state where they agree.
\<close>

theorem termination_flag_in_sync:
  assumes "matcher_laws M" and "in_sync M g" and "(grammar_step M)\<^sup>*\<^sup>* g g'"
  shows "g_terminated g' = m_is_terminated M (g_matcher g')"
  using grammar.reachable_inv [OF assms(3)] assms(1,2) by (simp add: in_sync_def)

theorem termination_flag_in_sync_witness:
  "\<exists>g. (grammar_step ex_matcher)\<^sup>*\<^sup>* ex_grammar g \<and> g_matcher g = [0, 1] \<and> g_terminated g"
proof -
  let ?g = "\<lparr>g_matcher = [0, 1], g_num_processed_tokens = 2, g_terminated = True\<rparr> :: int list grammar"
  have "accept_tokens ex_matcher [1, 0, 2] ex_grammar = (True, ?g)" by code_simp
  then have r: "(grammar_step ex_matcher)\<^sup>*\<^sup>* ex_grammar ?g" by (intro r_into_rtranclp grammar_step.accepted)
  have "in_sync ex_matcher ex_grammar" by code_simp
  from termination_flag_in_sync [OF ex_matcher_laws this r] r show ?thesis
    by (intro exI [of _ ?g]) (simp add: ex_matcher_def)
qed

text \<open>
  The replaced \<open>accept_tokens\<close> lets the flag go stale: the token after the end is rejected, and the flag
  still says that the grammar goes on.
\<close>

lemma replaced_flag_goes_stale:
  "accept_tokens_old ex_matcher [1, 0, 2] ex_grammar =
     (False, \<lparr>g_matcher = [0, 1], g_num_processed_tokens = 2, g_terminated = False\<rparr>)"
  by code_simp

text \<open>Accepting the tokens that validation let pass leaves the matcher where validation was.\<close>

lemma accept_validated:
  assumes "matcher_laws M" and "validate_each M us (g_matcher h) = (acc, m')"
  shows "\<exists>g2. accept_each M acc h = (True, g2) \<and> g_matcher g2 = m' \<and>
      g_num_processed_tokens g2 = g_num_processed_tokens h + int (length acc) \<and>
      (acc \<noteq> [] \<longrightarrow> g_terminated g2 = m_is_terminated M m')"
  using assms(2) matcher_lawsD(1) [OF assms(1)]
proof (induction us arbitrary: h acc)
  case (Cons t us)
  obtain ok m1 where a: "m_accept_token M t (g_matcher h) = (ok, m1)" by fastforce
  show ?case
  proof (cases ok)
    case ok: True
    let ?h = "\<lparr>g_matcher = m1, g_num_processed_tokens = g_num_processed_tokens h + 1,
               g_terminated = m_is_terminated M m1\<rparr>"
    show ?thesis
    proof (cases "m_is_terminated M m1")
      case True
      with ok a Cons.prems(1) show ?thesis by auto
    next
      case False
      obtain acc1 where v: "validate_each M us m1 = (acc1, m')" "acc = t # acc1"
        using Cons.prems(1) a ok False by (auto split: prod.splits)
      from Cons.IH [of ?h acc1] v(1) Cons.prems(2) obtain g2 where
        "accept_each M acc1 ?h = (True, g2)" "g_matcher g2 = m'"
        "g_num_processed_tokens g2 = g_num_processed_tokens ?h + int (length acc1)"
        "acc1 \<noteq> [] \<longrightarrow> g_terminated g2 = m_is_terminated M m'" by auto
      moreover have "acc1 = [] \<Longrightarrow> m' = m1"
        using validate_each_accepts [OF v(1) assms(1)] by auto
      ultimately show ?thesis using v(2) a ok False by (cases acc1) auto
    qed
  next
    case False
    with Cons.prems(1) a Cons.prems(2) show ?thesis by auto
  qed
qed auto

text \<open>
  C27. \<open>validate_tokens\<close> leaves the grammar as it was and returns the longest prefix that \<open>accept_tokens\<close>
  takes: accepting that prefix succeeds and counts each of its tokens, and it ends early only when the
  grammar is terminated, then or already before, or rejects the next token.
\<close>

theorem validated_tokens_are_accepted:
  assumes "matcher_laws M" and "validate_tokens M ts g = (acc, g')"
  shows "g' = g \<and> prefix acc ts \<and>
    (\<exists>g2. accept_tokens M acc g = (True, g2) \<and>
          g_num_processed_tokens g2 = g_num_processed_tokens g + int (length acc) \<and>
          (acc \<noteq> ts \<longrightarrow> g_terminated g2 \<or> fst (m_accept_token M (ts ! length acc) (g_matcher g2)) = False))"
proof (cases "g_terminated g")
  case True
  with assms(2) have "acc = []" "g' = g" by (auto simp: validate_tokens_def)
  with True show ?thesis by (simp add: accept_tokens_def)
next
  case False
  obtain m where v: "validate_each M ts (g_matcher g) = (acc, m)"
    using assms(2) False by (auto simp: validate_tokens_def split: prod.splits)
  from accept_validated [OF assms(1) v] obtain g2 where g2: "accept_each M acc g = (True, g2)" "g_matcher g2 = m"
    "g_num_processed_tokens g2 = g_num_processed_tokens g + int (length acc)"
    "acc \<noteq> [] \<longrightarrow> g_terminated g2 = m_is_terminated M m" by blast
  moreover note validate_each_accepts [OF v assms(1)] validate_tokens_pure [OF assms]
  ultimately show ?thesis using False by (auto simp: accept_tokens_def)
qed

theorem validated_tokens_are_accepted_witness:
  "validate_tokens ex_matcher [1, 0, 2] ex_grammar = ([1, 0], ex_grammar)"
proof -
  obtain acc g' where v: "validate_tokens ex_matcher [1, 0, 2] ex_grammar = (acc, g')" by fastforce
  moreover have "fst (validate_tokens ex_matcher [1, 0, 2] ex_grammar) = [1, 0]" by code_simp
  ultimately show ?thesis using validated_tokens_are_accepted [OF ex_matcher_laws v] by simp
qed

end
