(* ===== verification/PatchVideo.thy ===== *)
theory PatchVideo
  imports Prelude
begin

text \<open>
  \<open>patch_glm_video_placeholders.py\<close>: aligning the timestamps of a video to the encoder's temporal grid, and
  the placeholder tokens built from them.
\<close>

section \<open>Aligning timestamps\<close>

text \<open>
  \<open>round(a / b)\<close> for integers, to the nearest with ties to even. Python divides in double precision,
  which gives the same integer as long as the product in \<open>_align_timestamps\<close> stays below \<open>2^50\<close>.
\<close>

definition round_div :: "int \<Rightarrow> int \<Rightarrow> int" where
  "round_div a b =
     (let q = a div b; r = a mod b in
      if 2 * r < b then q else if b < 2 * r then q + 1 else if even q then q else q + 1)"

definition align_timestamps :: "'a::zero list \<Rightarrow> int \<Rightarrow> 'a list" where
  "align_timestamps timestamps t_groups0 =
     (let t_groups = (if t_groups0 < 1 then 1 else t_groups0); n = int (length timestamps) in
      if timestamps = [] then replicate (nat t_groups) 0
      else if n = t_groups then timestamps
      else if t_groups = 1 then [timestamps ! 0]
      else if n < t_groups then timestamps @ replicate (nat (t_groups - n)) (last timestamps)
      else map (\<lambda>i. timestamps ! nat (round_div (int i * (n - 1)) (t_groups - 1))) [0..<nat t_groups])"

lemma round_div_near:
  assumes "0 < b"
  shows "2 * a - b \<le> 2 * (round_div a b * b) \<and> 2 * (round_div a b * b) \<le> 2 * a + b"
proof -
  obtain q r where q: "q = a div b" and r: "r = a mod b" by blast
  have a: "a = q * b + r" and "0 \<le> r" "r < b"
    using q r assms by simp_all
  moreover have "round_div a b = (if 2 * r < b then q else if b < 2 * r then q + 1 else if even q then q else q + 1)"
    by (simp add: round_div_def q r Let_def)
  moreover have "(q + 1) * b = q * b + b" by (simp add: algebra_simps)
  ultimately show ?thesis by (simp split: if_splits)
qed

lemma round_div_mono:
  assumes "0 < b" and "a \<le> a'"
  shows "round_div a b \<le> round_div a' b"
proof (rule ccontr)
  assume "\<not> round_div a b \<le> round_div a' b"
  then have "(round_div a' b + 1) * b \<le> round_div a b * b" using assms(1) by (intro mult_right_mono) auto
  then have "round_div a' b * b + b \<le> round_div a b * b" by (simp add: algebra_simps)
  with round_div_near [OF assms(1), of a] round_div_near [OF assms(1), of a'] assms(2) have "a = a'" by linarith
  with \<open>\<not> round_div a b \<le> round_div a' b\<close> show False by simp
qed

lemma round_div_exact: "0 < b \<Longrightarrow> round_div (k * b) b = k"
  by (simp add: round_div_def)

lemma align_indices:
  assumes "1 < t" and "t < n" and "i < nat t" and "j \<le> i"
  shows "0 \<le> round_div (int j * (n - 1)) (t - 1)"
    and "round_div (int j * (n - 1)) (t - 1) \<le> round_div (int i * (n - 1)) (t - 1)"
    and "round_div (int i * (n - 1)) (t - 1) \<le> n - 1"
proof -
  have t: "0 < t - 1" using assms(1) by simp
  have m: "int k * (n - 1) \<le> int l * (n - 1)" if "k \<le> l" for k l
    using that assms(1,2) by (intro mult_right_mono) auto
  show "0 \<le> round_div (int j * (n - 1)) (t - 1)"
    using round_div_mono [OF t m [of 0 j]] round_div_exact [OF t, of 0] by simp
  show "round_div (int j * (n - 1)) (t - 1) \<le> round_div (int i * (n - 1)) (t - 1)"
    using m [OF assms(4)] by (rule round_div_mono [OF t])
  have "int i * (n - 1) \<le> (n - 1) * (t - 1)"
    using assms(1-3) by (simp add: mult.commute)
  from round_div_mono [OF t this] show "round_div (int i * (n - 1)) (t - 1) \<le> n - 1"
    by (simp add: round_div_exact [OF t])
qed

section \<open>The placeholder\<close>

text \<open>
  The token ids of the tokenizer and the HF configuration; \<open>vt_encode\<close> is the tokenizer's encoding of a
  formatted timestamp.
\<close>

record 'a video_tokens =
  vt_video_start :: int
  vt_video_end :: int
  vt_image_start :: int
  vt_image_end :: int
  vt_embed :: int
  vt_encode :: "'a \<Rightarrow> int list"

definition frame_placeholder :: "'a video_tokens \<Rightarrow> nat \<Rightarrow> 'a \<Rightarrow> int list" where
  "frame_placeholder V n_per ts =
     vt_image_start V # replicate n_per (vt_embed V) @ vt_image_end V # vt_encode V ts"

text \<open>\<open>grid_thw\<close> is (t, h, w), \<open>merge_length\<close> the square of the merge size.\<close>

definition construct_video_placeholder ::
  "'a::zero video_tokens \<Rightarrow> 'a list \<Rightarrow> int \<Rightarrow> int \<Rightarrow> int \<Rightarrow> int \<Rightarrow> int list" where
  "construct_video_placeholder V timestamps t_groups height width merge_length =
     (let n_per = nat (height * width div merge_length)
      in vt_video_start V
         # concat (map (frame_placeholder V n_per) (align_timestamps timestamps t_groups))
         @ [vt_video_end V])"

section \<open>Properties\<close>

lemma length_align: "length (align_timestamps timestamps t) = nat (max 1 t)"
  by (auto simp: align_timestamps_def Let_def max_def)

text \<open>The indices of the timestamps that are taken: in order, from the first one to the last.\<close>

definition align_index :: "'a list \<Rightarrow> int \<Rightarrow> 'a list \<Rightarrow> (nat \<Rightarrow> nat) \<Rightarrow> bool" where
  "align_index timestamps t aligned idx \<longleftrightarrow>
     aligned = map (\<lambda>i. timestamps ! idx i) [0..<length aligned] \<and>
     (\<forall>i j. j \<le> i \<and> i < length aligned \<longrightarrow> idx j \<le> idx i \<and> idx i < length timestamps) \<and> idx 0 = 0 \<and>
     (2 \<le> t \<longrightarrow> idx (length aligned - 1) = length timestamps - 1)"

lemma align_padded:
  assumes "timestamps \<noteq> []" and "int (length timestamps) < t" and "1 < t"
  shows "align_index timestamps t (align_timestamps timestamps t) (\<lambda>i. min i (length timestamps - 1))"
proof -
  let ?n = "length timestamps"
  have n: "0 < ?n" using assms(1) by simp
  let ?a = "timestamps @ replicate (nat t - ?n) (last timestamps)"
  have a: "align_timestamps timestamps t = ?a"
    using assms by (simp add: align_timestamps_def Let_def nat_diff_distrib)
  have "?a ! i = timestamps ! min i (?n - 1)" if "i < length ?a" for i
  proof (cases "i < ?n")
    case False
    with that have "?a ! i = last timestamps" by (simp add: nth_append)
    moreover have "min i (?n - 1) = ?n - 1" using False by simp
    ultimately show ?thesis using assms(1) by (simp add: last_conv_nth)
  qed (simp add: nth_append)
  then have "?a = map (\<lambda>i. timestamps ! min i (?n - 1)) [0..<length ?a]" by (intro nth_equalityI) auto
  moreover have "min i (?n - 1) < ?n" for i using n by arith
  ultimately show ?thesis unfolding a align_index_def using n assms(2) by auto
qed

lemma align_spread:
  assumes "timestamps \<noteq> []" and "t < int (length timestamps)" and "1 < t"
  shows "align_index timestamps t (align_timestamps timestamps t)
    (\<lambda>i. nat (round_div (int i * (int (length timestamps) - 1)) (t - 1)))"
proof -
  let ?n = "length timestamps"
  let ?f = "\<lambda>i. nat (round_div (int i * (int ?n - 1)) (t - 1))"
  have n: "0 < ?n" using assms(1) by simp
  have a: "align_timestamps timestamps t = map (\<lambda>i. timestamps ! ?f i) [0..<nat t]"
    using assms by (simp add: align_timestamps_def Let_def)
  have "\<forall>i j. j \<le> i \<and> i < nat t \<longrightarrow> ?f j \<le> ?f i \<and> ?f i < ?n"
  proof (intro allI impI)
    fix i j assume that: "j \<le> i \<and> i < nat t"
    from that have "i < nat t" "j \<le> i" by simp_all
    note b = align_indices [OF assms(3,2) this]
    show "?f j \<le> ?f i \<and> ?f i < ?n" using nat_mono [OF b(2)] b(3) n by linarith
  qed
  moreover have "?f 0 = 0" using round_div_exact [of "t - 1" 0] assms(3) by simp
  moreover have "?f (nat t - 1) = ?n - 1"
    using round_div_exact [of "t - 1" "int ?n - 1"] assms(3) by (simp add: of_nat_diff mult.commute)
  ultimately show ?thesis unfolding align_index_def a length_map length_upt minus_nat.diff_0 by blast
qed

lemma align_index_ex:
  assumes "timestamps \<noteq> []"
  shows "\<exists>idx. align_index timestamps t (align_timestamps timestamps t) idx"
proof -
  have n: "0 < length timestamps" using assms by simp
  consider "int (length timestamps) = max 1 t" | "int (length timestamps) \<noteq> max 1 t" "t \<le> 1"
    | "int (length timestamps) < t" "1 < t" | "t < int (length timestamps)" "1 < t"
    by linarith
  then show ?thesis
  proof cases
    case 1
    then have "align_timestamps timestamps t = timestamps"
      using assms by (auto simp: align_timestamps_def Let_def max_def)
    then show ?thesis using n by (intro exI [of _ id]) (simp add: align_index_def map_nth)
  next
    case 2
    then have "align_timestamps timestamps t = [timestamps ! 0]"
      using assms by (auto simp: align_timestamps_def Let_def)
    then show ?thesis using n 2(2) by (intro exI [of _ "\<lambda>_. 0"]) (simp add: align_index_def)
  qed (use align_padded align_spread assms in blast)+
qed

text \<open>
  C31. Aligning gives exactly one timestamp per temporal group, each of them one of the video's own; it keeps the
  first one, and the last one when there are at least two groups, and it keeps them in order.
\<close>

theorem aligned_timestamps:
  assumes "timestamps \<noteq> []" and "aligned = align_timestamps timestamps t"
  shows "length aligned = nat (max 1 t) \<and> set aligned \<subseteq> set timestamps \<and> hd aligned = hd timestamps \<and>
    (2 \<le> t \<longrightarrow> last aligned = last timestamps) \<and>
    (\<exists>idx. aligned = map (\<lambda>i. timestamps ! idx i) [0..<length aligned] \<and>
           (\<forall>i j. j \<le> i \<and> i < length aligned \<longrightarrow> idx j \<le> idx i \<and> idx i < length timestamps))"
proof -
  let ?n = "length timestamps"
  have n: "0 < ?n" using assms(1) by simp
  obtain idx where i: "aligned = map (\<lambda>i. timestamps ! idx i) [0..<length aligned]"
    and b: "\<And>i j. j \<le> i \<and> i < length aligned \<Longrightarrow> idx j \<le> idx i \<and> idx i < ?n"
    and ends: "idx 0 = 0" "2 \<le> t \<longrightarrow> idx (length aligned - 1) = ?n - 1"
    using align_index_ex [OF assms(1), of t] unfolding align_index_def assms(2) by blast
  have l: "length aligned = nat (max 1 t)" using assms(2) by (simp add: length_align)
  then have ne: "0 < length aligned" by simp
  have at: "aligned ! k = timestamps ! idx k" if "k < length aligned" for k
    using that by (subst i) simp
  have "set aligned \<subseteq> set timestamps"
    using b at by (auto simp: in_set_conv_nth) (metis le_refl nth_mem)
  moreover have "hd aligned = hd timestamps"
    using at [OF ne] ends(1) n ne by (simp add: hd_conv_nth)
  moreover have "2 \<le> t \<longrightarrow> last aligned = last timestamps"
    using at [of "length aligned - 1"] ends(2) n ne by (auto simp: last_conv_nth)
  ultimately show ?thesis using l i b by blast
qed

theorem aligned_timestamps_witness:
  "align_timestamps [10, 20, 30, 40, 50, 60 :: int] 3 = [10, 30, 60] \<and>
   length (align_timestamps [10, 20, 30, 40, 50, 60 :: int] 3) = 3"
proof -
  have "align_timestamps [10, 20, 30, 40, 50, 60 :: int] 3 = [10, 30, 60]" by code_simp
  with aligned_timestamps [of "[10, 20, 30, 40, 50, 60 :: int]" "[10, 30, 60]" 3] show ?thesis by simp
qed

lemma count_replicate: "count_list (replicate n x) y = (if x = y then n else 0)"
  by (induction n) auto

text \<open>
  The prompt has exactly as many embedding placeholders as the encoder yields tokens for the grid, which is
  \<open>t * (h * w // merge^2)\<close>, provided the embedding token is none of the frame tokens.
\<close>

theorem placeholders_match_the_grid:
  assumes "1 \<le> t" and "vt_embed V \<notin> {vt_video_start V, vt_video_end V, vt_image_start V, vt_image_end V}"
    and "\<And>ts. vt_embed V \<notin> set (vt_encode V ts)" and "0 \<le> h * w" and "0 < merge_length"
  shows "int (count_list (construct_video_placeholder V timestamps t h w merge_length) (vt_embed V))
    = t * (h * w div merge_length)"
proof -
  let ?n = "nat (h * w div merge_length)"
  have "count_list (frame_placeholder V ?n ts) (vt_embed V) = ?n" for ts
    using assms(2,3) by (auto simp: frame_placeholder_def count_list_0_iff count_replicate)
  then have "count_list (concat (map (frame_placeholder V ?n) tss)) (vt_embed V) = length tss * ?n" for tss
    by (induction tss) simp_all
  with assms(1,2) have "count_list (construct_video_placeholder V timestamps t h w merge_length) (vt_embed V)
      = nat t * ?n"
    by (simp add: construct_video_placeholder_def Let_def length_align)
  moreover have "0 \<le> h * w div merge_length" using assms(4,5) by (simp add: pos_imp_zdiv_nonneg_iff)
  ultimately show ?thesis using assms(1) by simp
qed

definition ex_video :: "int video_tokens" where
  "ex_video = \<lparr>vt_video_start = 1, vt_video_end = 2, vt_image_start = 3, vt_image_end = 4, vt_embed = 5,
     vt_encode = (\<lambda>ts. [10 + ts * ts])\<rparr>"

theorem placeholders_match_the_grid_witness:
  "construct_video_placeholder ex_video [0, 1, 2] 1 4 4 4 = [1, 3, 5, 5, 5, 5, 4, 10, 2] \<and>
   count_list (construct_video_placeholder ex_video [0, 1, 2] 1 4 4 4) 5 = 4"
proof -
  have "vt_embed ex_video \<notin> set (vt_encode ex_video ts)" for ts
    using zero_le_square [of ts] by (simp add: ex_video_def del: zero_le_square)
  from placeholders_match_the_grid [OF _ _ this, of 1 4 4 4 "[0, 1, 2]"]
  have "count_list (construct_video_placeholder ex_video [0, 1, 2] 1 4 4 4) 5 = 4"
    by (simp add: ex_video_def)
  moreover have "construct_video_placeholder ex_video [0, 1, 2] 1 4 4 4 = [1, 3, 5, 5, 5, 5, 4, 10, 2]"
    by code_simp
  ultimately show ?thesis by simp
qed

end
