(* ===== verification/PatchKpool.thy ===== *)
theory PatchKpool
  imports PatchText
begin

text \<open>
  \<open>patch_kpool_tail_slotmap.py\<close>: the patch that clamps the block index of the slot mapping to the
  request's row, the CPU replica of the mapping it ships, and its preparation of the source text.
\<close>

section \<open>The pinned texts\<close>

definition KPOOL_MARK_LINES :: "string list" where
  \<open>KPOOL_MARK_LINES = [
     ''    # [glm53-kpool-tail-slotmap] Never index past the request's'']\<close>

definition KPOOL_MARK :: pystr where
  "KPOOL_MARK = text_lines KPOOL_MARK_LINES"

definition KPOOL_ANCHOR_LINES :: "string list" where
  \<open>KPOOL_ANCHOR_LINES = [
     ''        block_indices = ('',
     ''            virtual_block_indices * BLOCKS_PER_KV_BLOCK'',
     ''            + local_block_offsets // block_size'',
     ''        )'',
     ''        block_numbers = tl.load('',
     ''            block_table_ptr + row_offset + block_indices,'',
     ''            mask=mask & is_local,'',
     ''            other=0,'',
     ''        ).to(tl.int64)'']\<close>

definition KPOOL_ANCHOR :: pystr where
  "KPOOL_ANCHOR = text_lines KPOOL_ANCHOR_LINES"

definition KPOOL_PATCHED_LINES :: "string list" where
  \<open>KPOOL_PATCHED_LINES = [
     ''        block_indices = ('',
     ''            virtual_block_indices * BLOCKS_PER_KV_BLOCK'',
     ''            + local_block_offsets // block_size'',
     ''        )'',
     ''        # [glm53-kpool-tail-slotmap] Never index past the request's'',
     ''        # block-table row. KpoolTailSpec is a one-block circular scratch'',
     ''        # whose row is a single entry; without this clamp every token at'',
     ''        # pos >= block_size reads adjacent memory and the kpool kernels'',
     ''        # write through garbage. Clamping pins that group to entry 0:'',
     ''        # block_table[req, 0] * block_size + pos % block_size.'',
     ''        # For every other group this is identity.'',
     ''        block_indices = tl.minimum(block_indices, block_table_stride - 1)'',
     ''        block_numbers = tl.load('',
     ''            block_table_ptr + row_offset + block_indices,'',
     ''            mask=mask & is_local,'',
     ''            other=0,'',
     ''        ).to(tl.int64)'']\<close>

definition KPOOL_PATCHED :: pystr where
  "KPOOL_PATCHED = text_lines KPOOL_PATCHED_LINES"

definition KPOOL_CLAMP :: pystr where
  \<open>KPOOL_CLAMP = lit ''tl.minimum(block_indices, block_table_stride - 1)''\<close>

section \<open>Preparing the source\<close>

definition kpool_verified_state :: "pystr \<Rightarrow> bool" where
  "kpool_verified_state tx \<longleftrightarrow>
     count_sub KPOOL_ANCHOR tx = 0 \<and> count_sub KPOOL_PATCHED tx = 1 \<and> count_sub KPOOL_MARK tx = 1 \<and>
     py_in KPOOL_CLAMP tx"

definition kpool_prepare :: "pystr \<Rightarrow> patch_result" where
  "kpool_prepare source =
     (let marker_count = count_sub KPOOL_MARK source in
      if marker_count \<noteq> 0 then
        (if marker_count \<noteq> 1 \<or> \<not> kpool_verified_state source then Inl ValueError
         else Inr (source, ''already present''))
      else if kpool_verified_state source then Inr (source, ''already patched'')
      else if count_sub KPOOL_ANCHOR source \<noteq> 1 then Inl ValueError
      else if py_in KPOOL_CLAMP source then Inl ValueError
      else
        (let patched = replace1 KPOOL_ANCHOR KPOOL_PATCHED source
         in if \<not> kpool_verified_state patched then Inl ValueError else Inr (patched, ''patched'')))"

interpretation kpool: prepared_patch kpool_prepare kpool_verified_state
proof
  show "kpool_verified_state t" if "kpool_prepare s = Inr (t, act)" for s t act
    using that by (auto simp: kpool_prepare_def Let_def split: if_splits)
  show "\<exists>act. kpool_prepare s = Inr (s, act)" if "kpool_verified_state s" for s
    using that by (auto simp: kpool_prepare_def Let_def kpool_verified_state_def)
qed

text \<open>What the texts give: the anchor goes, the replacement and the marker come once.\<close>

lemmas kpool_texts = KPOOL_MARK_def KPOOL_ANCHOR_def KPOOL_PATCHED_def

lemma kpool_proper: "proper_lines KPOOL_MARK_LINES" "proper_lines KPOOL_ANCHOR_LINES" "proper_lines KPOOL_PATCHED_LINES"
  by code_simp+

lemma kpool_apart:
  "apart KPOOL_ANCHOR KPOOL_ANCHOR" "apart KPOOL_ANCHOR KPOOL_PATCHED"
  "apart KPOOL_PATCHED KPOOL_ANCHOR" "apart KPOOL_PATCHED KPOOL_PATCHED"
  "apart KPOOL_MARK KPOOL_ANCHOR" "apart KPOOL_MARK KPOOL_PATCHED"
  unfolding kpool_texts by (rule apart_lines kpool_proper | code_simp)+

lemma kpool_self: "no_overlap KPOOL_ANCHOR KPOOL_ANCHOR" "no_overlap KPOOL_PATCHED KPOOL_PATCHED"
  "no_overlap KPOOL_MARK KPOOL_MARK"
  unfolding kpool_texts by (rule no_overlap_lines kpool_proper | code_simp)+

lemma kpool_counts:
  "count_sub KPOOL_ANCHOR KPOOL_ANCHOR = 1" "count_sub KPOOL_ANCHOR KPOOL_PATCHED = 0"
  "count_sub KPOOL_PATCHED KPOOL_ANCHOR = 0" "count_sub KPOOL_PATCHED KPOOL_PATCHED = 1"
  "count_sub KPOOL_MARK KPOOL_ANCHOR = 0" "count_sub KPOOL_MARK KPOOL_PATCHED = 1"
proof -
  have n: "list_all (\<lambda>l. CHR 0x0A \<notin> set l) KPOOL_ANCHOR_LINES" "list_all (\<lambda>l. CHR 0x0A \<notin> set l) KPOOL_PATCHED_LINES"
    using kpool_proper by (simp_all add: proper_lines_def)
  note c = count_text_lines [OF _ _ n(1)] count_text_lines [OF _ _ n(2)]
  note h = kpool_proper kpool_self [unfolded kpool_texts]
  have "line_hits KPOOL_ANCHOR_LINES KPOOL_ANCHOR_LINES = 1" "line_hits KPOOL_ANCHOR_LINES KPOOL_PATCHED_LINES = 0"
    "line_hits KPOOL_PATCHED_LINES KPOOL_ANCHOR_LINES = 0" "line_hits KPOOL_PATCHED_LINES KPOOL_PATCHED_LINES = 1"
    "line_hits KPOOL_MARK_LINES KPOOL_ANCHOR_LINES = 0" "line_hits KPOOL_MARK_LINES KPOOL_PATCHED_LINES = 1"
    by code_simp+
  then show "count_sub KPOOL_ANCHOR KPOOL_ANCHOR = 1" "count_sub KPOOL_ANCHOR KPOOL_PATCHED = 0"
    "count_sub KPOOL_PATCHED KPOOL_ANCHOR = 0" "count_sub KPOOL_PATCHED KPOOL_PATCHED = 1"
    "count_sub KPOOL_MARK KPOOL_ANCHOR = 0" "count_sub KPOOL_MARK KPOOL_PATCHED = 1"
    unfolding kpool_texts using c h by metis+
qed

lemma kpool_nonempty: "KPOOL_ANCHOR \<noteq> []" "KPOOL_PATCHED \<noteq> []" "KPOOL_MARK \<noteq> []"
  using kpool_apart(2,3) kpool_counts(6) by (auto simp: apart_def KPOOL_MARK_def KPOOL_MARK_LINES_def text_lines_Cons)

lemma kpool_clamp_in: "sublist KPOOL_CLAMP KPOOL_PATCHED"
proof -
  let ?c = "''tl.minimum(block_indices, block_table_stride - 1)''"
  have l: "KPOOL_PATCHED_LINES ! 11 \<in> set KPOOL_PATCHED_LINES"
    by (rule nth_mem) (simp add: KPOOL_PATCHED_LINES_def)
  have "KPOOL_PATCHED_LINES ! 11 = ''        block_indices = '' @ ?c @ []" by (simp add: KPOOL_PATCHED_LINES_def)
  then have "sublist ?c (KPOOL_PATCHED_LINES ! 11)" by (simp only: sublist_appendI)
  from sublist_text_lines [OF this l] show ?thesis by (simp only: KPOOL_PATCHED_def KPOOL_CLAMP_def)
qed

lemma kpool_patch_ok:
  assumes "count_sub KPOOL_MARK source = 0" and "count_sub KPOOL_ANCHOR source = 1"
  shows "kpool_prepare source =
    (if py_in KPOOL_CLAMP source then Inl ValueError
     else Inr (replace1 KPOOL_ANCHOR KPOOL_PATCHED source, ''patched''))"
proof -
  let ?t = "replace1 KPOOL_ANCHOR KPOOL_PATCHED source"
  have a: "sublist KPOOL_ANCHOR source" using assms(2) kpool_nonempty(1) by (rule sublist_of_count)
  have "sublist KPOOL_MARK KPOOL_PATCHED"
    using kpool_counts(6) kpool_nonempty(3) by (rule sublist_of_count)
  from count_sub_0_mono [OF assms(1) this kpool_nonempty(3,2)] have p: "count_sub KPOOL_PATCHED source = 0" .
  have "count_sub KPOOL_ANCHOR ?t = 0" "count_sub KPOOL_PATCHED ?t = 1" "count_sub KPOOL_MARK ?t = 1"
    using count_replace1 [OF a kpool_nonempty(1) kpool_self(1) kpool_apart(1,2)]
      count_replace1 [OF a kpool_nonempty(2) kpool_self(2) kpool_apart(3,4)]
      count_replace1 [OF a kpool_nonempty(3) kpool_self(3) kpool_apart(5,6)]
    by (simp_all add: kpool_counts assms p)
  moreover have "py_in KPOOL_CLAMP ?t"
    using kpool_clamp_in sublist_replace1 [OF a] by (auto simp: find_sub_None_iff intro: sublist_order.order_trans)
  ultimately have "kpool_verified_state ?t" by (simp add: kpool_verified_state_def)
  with assms show ?thesis by (auto simp: kpool_prepare_def kpool_verified_state_def Let_def)
qed

section \<open>The slot mapping\<close>

text \<open>How many positions the unpatched kernel would index past the row.\<close>

definition count_overruns :: "int list \<Rightarrow> int \<Rightarrow> int \<Rightarrow> int res" where
  "count_overruns positions block_size stride =
     (if block_size < 1 \<or> stride < 1 then Inl ValueError
      else Inr (int (length (filter (\<lambda>pos. stride \<le> pos div block_size) positions))))"

definition slot_id :: "int list \<Rightarrow> int \<Rightarrow> bool \<Rightarrow> int \<Rightarrow> int res" where
  "slot_id row block_size clamp pos =
     (if block_size = 0 then Inl ZeroDivisionError
      else
        (let stride = int (length row); idx = pos div block_size in
         if \<not> clamp \<and> (idx < 0 \<or> stride \<le> idx) then Inl IndexError
         else bindE (py_nth row (if clamp then min idx (stride - 1) else idx))
                (\<lambda>block. Inr (block * block_size + pos mod block_size))))"

definition circular_slot_ids :: "int list \<Rightarrow> int list \<Rightarrow> int \<Rightarrow> bool \<Rightarrow> int list res" where
  "circular_slot_ids positions row block_size clamp =
     (if row = [] then Inl ValueError else mapE (slot_id row block_size clamp) positions)"

section \<open>Properties\<close>

lemma mapE_error: "x \<in> set xs \<Longrightarrow> f x = Inl e \<Longrightarrow> \<nexists>ys. mapE f xs = Inr ys"
  by (induction xs) (auto simp: exc_simps)

lemma slot_id_clamped:
  assumes "0 < bs" and "0 \<le> pos" and "row \<noteq> []"
  shows "slot_id row bs True pos =
    Inr (row ! nat (min (pos div bs) (int (length row) - 1)) * bs + pos mod bs)"
proof -
  have "0 \<le> pos div bs" using assms(1,2) by (simp add: pos_imp_zdiv_nonneg_iff)
  moreover have "0 < int (length row)" using assms(3) by simp
  ultimately show ?thesis using assms(1) by (simp add: slot_id_def py_nth_def Let_def)
qed

lemma slot_id_unclamped:
  assumes "0 < bs" and "0 \<le> pos" and "row \<noteq> []"
  shows "slot_id row bs False pos =
    (if int (length row) \<le> pos div bs then Inl IndexError else slot_id row bs True pos)"
proof -
  have "0 \<le> pos div bs" using assms(1,2) by (simp add: pos_imp_zdiv_nonneg_iff)
  with slot_id_clamped [OF assms] assms(1) show ?thesis by (simp add: slot_id_def py_nth_def Let_def)
qed

text \<open>
  C25. With the clamp the slot mapping is total and never leaves the request's row: position \<open>pos\<close> goes to
  the block of entry \<open>min (pos // block_size) (stride - 1)\<close>, at offset \<open>pos % block_size\<close>. Without the clamp it
  returns exactly when there is no overrun to count, and then the clamp changes nothing; a row of one entry
  is a circular buffer.
\<close>

theorem kpool_clamp_stays_in_row:
  assumes "0 < bs" and "row \<noteq> []" and "\<forall>pos \<in> set positions. 0 \<le> pos"
  shows "circular_slot_ids positions row bs True =
      Inr (map (\<lambda>pos. row ! nat (min (pos div bs) (int (length row) - 1)) * bs + pos mod bs) positions) \<and>
    circular_slot_ids positions row bs False =
      (if count_overruns positions bs (int (length row)) = Inr 0
       then circular_slot_ids positions row bs True else Inl IndexError) \<and>
    (length row = 1 \<longrightarrow>
       circular_slot_ids positions row bs True = Inr (map (\<lambda>pos. row ! 0 * bs + pos mod bs) positions))"
proof (intro conjI impI)
  show c: "circular_slot_ids positions row bs True =
      Inr (map (\<lambda>pos. row ! nat (min (pos div bs) (int (length row) - 1)) * bs + pos mod bs) positions)"
    using assms by (simp add: circular_slot_ids_def mapE_total slot_id_clamped)
  have r: "\<not> int (length row) < 1" using assms(2) by (cases row) auto
  have "mapE (slot_id row bs False) ps =
      (if \<forall>pos \<in> set ps. pos div bs < int (length row) then mapE (slot_id row bs True) ps else Inl IndexError)"
    if "\<forall>pos \<in> set ps. 0 \<le> pos" for ps
    using that assms(1,2) by (induction ps) (auto simp: slot_id_unclamped slot_id_clamped)
  from this [OF assms(3)] show "circular_slot_ids positions row bs False =
      (if count_overruns positions bs (int (length row)) = Inr 0
       then circular_slot_ids positions row bs True else Inl IndexError)"
    using assms(1,2) r by (auto simp: circular_slot_ids_def count_overruns_def filter_empty_conv)
  show "circular_slot_ids positions row bs True = Inr (map (\<lambda>pos. row ! 0 * bs + pos mod bs) positions)"
    if "length row = 1"
  proof -
    have "nat (min (pos div bs) 0) = 0" for pos by simp
    with c that show ?thesis by simp
  qed
qed

theorem kpool_clamp_stays_in_row_witness:
  "circular_slot_ids [0, 63, 64, 200] [7] 64 True = Inr [448, 511, 448, 456] \<and>
   circular_slot_ids [0, 63, 64, 200] [7] 64 False = Inl IndexError"
  using kpool_clamp_stays_in_row [of 64 "[7]" "[0, 63, 64, 200]"] by (simp add: count_overruns_def)

text \<open>
  The patch is fail-closed and idempotent. A source without the marker is patched exactly when it has the
  pinned anchor once and does not clamp yet, by replacing the anchor; what it returns passes the check,
  and preparing that again returns it unchanged.
\<close>

theorem kpool_patch_fail_closed:
  "(count_sub KPOOL_MARK source = 0 \<and> count_sub KPOOL_ANCHOR source \<noteq> 1 \<longrightarrow>
      kpool_prepare source = Inl ValueError) \<and>
   (count_sub KPOOL_MARK source = 0 \<and> count_sub KPOOL_ANCHOR source = 1 \<longrightarrow>
      kpool_prepare source =
        (if py_in KPOOL_CLAMP source then Inl ValueError
         else Inr (replace1 KPOOL_ANCHOR KPOOL_PATCHED source, ''patched''))) \<and>
   (\<forall>patched act. kpool_prepare source = Inr (patched, act) \<longrightarrow>
      kpool_verified_state patched \<and> kpool_prepare patched = Inr (patched, ''already present''))"
proof (intro conjI impI allI)
  show "kpool_prepare source = Inl ValueError" if "count_sub KPOOL_MARK source = 0 \<and> count_sub KPOOL_ANCHOR source \<noteq> 1"
    using that by (simp add: kpool_prepare_def kpool_verified_state_def Let_def)
  show "kpool_prepare source = (if py_in KPOOL_CLAMP source then Inl ValueError
         else Inr (replace1 KPOOL_ANCHOR KPOOL_PATCHED source, ''patched''))"
    if "count_sub KPOOL_MARK source = 0 \<and> count_sub KPOOL_ANCHOR source = 1"
    using that by (simp add: kpool_patch_ok)
  show v: "kpool_verified_state patched" if "kpool_prepare source = Inr (patched, act)" for patched act
    using that by (rule kpool.result_verified)
  show "kpool_prepare patched = Inr (patched, ''already present'')"
    if "kpool_prepare source = Inr (patched, act)" for patched act
    using v [OF that] by (simp add: kpool_prepare_def kpool_verified_state_def Let_def)
qed

lemma replace1_self: "replace1 s r s = r"
proof -
  have "find_sub s s = Some 0" by (rule find_subI) simp_all
  then show ?thesis by (simp add: replace1_def)
qed

theorem kpool_patch_fail_closed_witness:
  "kpool_prepare KPOOL_ANCHOR = Inr (KPOOL_PATCHED, ''patched'') \<and>
   kpool_prepare KPOOL_PATCHED = Inr (KPOOL_PATCHED, ''already present'')"
proof -
  have "find_sub KPOOL_CLAMP KPOOL_ANCHOR = None" by code_simp
  with kpool_patch_fail_closed [of KPOOL_ANCHOR] show ?thesis by (simp add: kpool_counts replace1_self)
qed

end
