(* ===== verification/PatchSites.thy ===== *)
theory PatchSites
  imports PatchText
begin

text \<open>
  The preparation of the indexer workspace patch (three sites in one file) and of the XGrammar backport
  (two files), with their pinned texts, and what running the scripts leaves on disk.
\<close>

section \<open>\<open>patch_indexer_workspace.py\<close>\<close>

definition HELPERS_LINES :: "string list" where
  \<open>HELPERS_LINES = [
     '''',
     '''',
     ''# [glm53-indexer-workspace] Opt-in right-sizing of the prefill gather'',
     ''# workspace. See overlay/patch_indexer_workspace.py and'',
     ''# docs/DESIGN-indexer-workspace.md in the recipe. Default is stock.'',
     ''_GLM53_WORKSPACE_ENV = "GLM53_INDEXER_WORKSPACE"'',
     '''',
     '''',
     ''def _glm53_workspace_mode() -> str:'',
     ''    """Exactly "stock" or "rightsize"; an UNSET var means "stock".'',
     '''',
     ''    Same contract as the launcher: start.sh runs'',
     ''    ``_glm53_validate_enum GLM53_INDEXER_WORKSPACE "${GLM53_INDEXER_WORKSPACE-stock}"'',
     ''    stock rightsize``, which substitutes the default only when the var is'',
     ''    unset and then compares the value literally. So no normalisation here'',
     ''    either -- no strip, no lower, and "" is a value, not an absence.'',
     ''    "RIGHTSIZE", " rightsize " and "" are operator errors on both sides of the'',
     ''    container boundary, and must not silently select a serving mode.'',
     ''    """'',
     ''    raw = os.environ.get(_GLM53_WORKSPACE_ENV)'',
     ''    if raw is None:'',
     ''        return "stock"'',
     ''    if raw not in ("stock", "rightsize"):'',
     ''        raise ValueError('',
     ''            f"{_GLM53_WORKSPACE_ENV} must be exactly one of: stock rightsize "'',
     ''            f"(got: {raw!r})"'',
     ''        )'',
     ''    return raw'',
     '''',
     '''',
     ''def _glm53_stock_workspace_entries(max_model_len: int) -> int:'',
     ''    return max_model_len * 40'',
     '''',
     '''',
     ''def _glm53_indexer_compress_ratio(vllm_config) -> int:'',
     ''    """Indexer pool width from config only. 1 == no compression == no-op."""'',
     ''    hf = getattr(vllm_config.model_config, "hf_text_config", None)'',
     ''    raw = getattr(hf, "index_kpool", None) if hf is not None else None'',
     ''    try:'',
     ''        ratio = int(raw or 1)'',
     ''    except (TypeError, ValueError):'',
     ''        return 1'',
     ''    return ratio if ratio > 1 else 1'',
     '''',
     '''',
     ''def _glm53_rightsized_workspace_entries(vllm_config) -> int:'',
     ''    """Legal maximum compressed N a single prefill step can require.'',
     '''',
     ''    Never larger than the stock value: this is a narrowing only.'',
     ''    """'',
     ''    max_model_len = int(vllm_config.model_config.max_model_len)'',
     ''    stock = _glm53_stock_workspace_entries(max_model_len)'',
     ''    ratio = _glm53_indexer_compress_ratio(vllm_config)'',
     ''    if ratio <= 1:'',
     ''        return stock'',
     ''    sched = vllm_config.scheduler_config'',
     ''    spec_cfg = getattr(vllm_config, "speculative_config", None)'',
     ''    num_spec = int(getattr(spec_cfg, "num_speculative_tokens", 0) or 0)'',
     ''    # Every prefill row costs at least one query token, so a step can carry at'',
     ''    # most this many prefill requests.'',
     ''    max_prefill_reqs = max('',
     ''        1, min(int(sched.max_num_seqs), int(sched.max_num_batched_tokens))'',
     ''    )'',
     ''    # seq_lens_cpu_upper_bound may run ahead of max_model_len by the draft'',
     ''    # length on async-spec extend rows; cdiv because the consumer floors.'',
     ''    span = max_model_len + max(0, num_spec)'',
     ''    per_req = -(-span // ratio)'',
     ''    return min(per_req * max_prefill_reqs, stock)'']\<close>

definition HELPERS_SRC :: pystr where
  "HELPERS_SRC = text_lines HELPERS_LINES"

definition INDEXER_MARK_IMPORT :: pystr where
  \<open>INDEXER_MARK_IMPORT = text_lines [
     ''import os  # [glm53-indexer-workspace] workspace mode env'']\<close>

definition INDEXER_ANCHOR_IMPORT :: pystr where
  \<open>INDEXER_ANCHOR_IMPORT = text_lines [
     ''# SPDX-FileCopyrightText: Copyright contributors to the vLLM project'',
     ''from dataclasses import dataclass'']\<close>

definition INDEXER_PATCHED_IMPORT :: pystr where
  \<open>INDEXER_PATCHED_IMPORT = text_lines [
     ''# SPDX-FileCopyrightText: Copyright contributors to the vLLM project'',
     ''import os  # [glm53-indexer-workspace] workspace mode env'',
     ''from dataclasses import dataclass'']\<close>

definition INDEXER_MARK_SIZE :: pystr where
  \<open>INDEXER_MARK_SIZE = text_lines [
     ''    # [glm53-indexer-workspace] The workspace is sized in TOKENS but indexed in'']\<close>

definition INDEXER_ANCHOR_SIZE :: pystr where
  \<open>INDEXER_ANCHOR_SIZE = text_lines [
     ''def get_max_prefill_buffer_size(vllm_config: VllmConfig):'',
     ''    max_model_len = vllm_config.model_config.max_model_len'',
     ''    # NOTE(Chen): 40 is a magic number for controlling the prefill buffer size.'',
     ''    # Each entry is 128 fp8 bytes and 4 scale bytes for a total of 132 bytes.'',
     ''    # The flashmla_sparse backend uses a workspace size of 5 * max_model_len.'',
     ''    # The memory usage of the workspace there is 576 * 2 bytes; so we size this as'',
     ''    # (576 * 2 // 132) * 5 = 40 to maximize this workspace size while still fitting'',
     ''    # within the flashmla_sparse workspace.'',
     ''    # For DeepSeek-V3.2, the max_model_len is 163840.'',
     ''    #   40 * 163840 * 132 = 865075200 bytes = 825 MB'',
     ''    return max_model_len * 40'']\<close>

text \<open>\<open>HELPERS_SRC.lstrip(newline)\<close> drops the two empty lines at its beginning.\<close>

definition INDEXER_PATCHED_SIZE :: pystr where
  \<open>INDEXER_PATCHED_SIZE = text_lines (drop 2 HELPERS_LINES @ [
     '''',
     '''',
     ''def get_max_prefill_buffer_size(vllm_config: VllmConfig):'',
     ''    max_model_len = vllm_config.model_config.max_model_len'',
     ''    # NOTE(Chen): 40 is a magic number for controlling the prefill buffer size.'',
     ''    # Each entry is 128 fp8 bytes and 4 scale bytes for a total of 132 bytes.'',
     ''    # The flashmla_sparse backend uses a workspace size of 5 * max_model_len.'',
     ''    # The memory usage of the workspace there is 576 * 2 bytes; so we size this as'',
     ''    # (576 * 2 // 132) * 5 = 40 to maximize this workspace size while still fitting'',
     ''    # within the flashmla_sparse workspace.'',
     ''    # For DeepSeek-V3.2, the max_model_len is 163840.'',
     ''    #   40 * 163840 * 132 = 865075200 bytes = 825 MB'',
     ''    # [glm53-indexer-workspace] The workspace is sized in TOKENS but indexed in'',
     ''    # POOLS: split_indexer_prefill_chunks above is fed seq_lens // compress_ratio'',
     ''    # by the metadata builder, and models/deepseek_v4/attention.py already'',
     ''    # divides this return value by compress_ratio at its call site --'',
     ''    # models/glm5next/nvidia/attention.py does not. At max_model_len=1e6 the'',
     ''    # stock value is 40,000,000 entries; a 2026-09-01 VLLM_DEBUG_WORKSPACE boot'',
     ''    # measured the resulting lock at 5036.40 MB, inside the memory profile and'',
     ''    # therefore straight out of the KV pool.'',
     ''    #'',
     ''    # "rightsize" returns the LEGAL MAXIMUM a single step can need, so the'',
     ''    # workspace constraint in the splitter binds exactly where it already did'',
     ''    # and the chunk list is unchanged. It never exceeds the stock value.'',
     ''    # Default is stock: an unset env var is byte-for-byte the expression below.'',
     ''    _glm53_stock = _glm53_stock_workspace_entries(max_model_len)'',
     ''    if _glm53_workspace_mode() != "rightsize":'',
     ''        return _glm53_stock'',
     ''    _glm53_entries = _glm53_rightsized_workspace_entries(vllm_config)'',
     ''    if _glm53_entries >= _glm53_stock:'',
     ''        # The legal maximum is already above stock: stock is under-sized here'',
     ''        # to begin with. Return it unchanged rather than growing the profile.'',
     ''        logger.warning('',
     ''            "[glm53-indexer-workspace] legal max %d entries >= stock %d; "'',
     ''            "keeping stock sizing",'',
     ''            _glm53_entries,'',
     ''            _glm53_stock,'',
     ''        )'',
     ''        return _glm53_stock'',
     ''    logger.info('',
     ''        "[glm53-indexer-workspace] rightsize: compress_ratio=%d "'',
     ''        "max_num_seqs=%d max_num_batched_tokens=%d -> %d entries "'',
     ''        "(stock %d, ~%.1f MiB reclaimed at 132 B/entry)",'',
     ''        _glm53_indexer_compress_ratio(vllm_config),'',
     ''        vllm_config.scheduler_config.max_num_seqs,'',
     ''        vllm_config.scheduler_config.max_num_batched_tokens,'',
     ''        _glm53_entries,'',
     ''        _glm53_stock,'',
     ''        (_glm53_stock - _glm53_entries) * 132 / (1024 * 1024),'',
     ''    )'',
     ''    return _glm53_entries''])\<close>

definition INDEXER_MARK_GUARD :: pystr where
  \<open>INDEXER_MARK_GUARD = text_lines [
     ''        # [glm53-indexer-workspace] The sizing above ran against'']\<close>

definition INDEXER_ANCHOR_GUARD :: pystr where
  \<open>INDEXER_ANCHOR_GUARD = text_lines [
     ''        # KV compression. Default to 1 for no compression.'',
     ''        self.compress_ratio = 1'',
     ''        # Get compress_ratio for DeepseekV4 support'',
     ''        if isinstance(self.kv_cache_spec, MLAAttentionSpec):'',
     ''            self.compress_ratio = self.kv_cache_spec.compress_ratio'',
     ''        if self.dcp_world_size > 1 and self.compress_ratio > 1:'',
     ''            raise NotImplementedError('',
     ''                "DCP is not supported with sparse indexer KV compression "'',
     ''                f"(compress_ratio={self.compress_ratio})."'',
     ''            )'']\<close>

definition INDEXER_PATCHED_GUARD :: pystr where
  \<open>INDEXER_PATCHED_GUARD = text_lines [
     ''        # KV compression. Default to 1 for no compression.'',
     ''        self.compress_ratio = 1'',
     ''        # Get compress_ratio for DeepseekV4 support'',
     ''        if isinstance(self.kv_cache_spec, MLAAttentionSpec):'',
     ''            self.compress_ratio = self.kv_cache_spec.compress_ratio'',
     ''        if self.dcp_world_size > 1 and self.compress_ratio > 1:'',
     ''            raise NotImplementedError('',
     ''                "DCP is not supported with sparse indexer KV compression "'',
     ''                f"(compress_ratio={self.compress_ratio})."'',
     ''            )'',
     ''        # [glm53-indexer-workspace] The sizing above ran against'',
     ''        # hf_text_config.index_kpool, because get_max_prefill_buffer_size only'',
     ''        # receives vllm_config. THIS is the authoritative ratio: the runtime'',
     ''        # divides seq_lens by self.compress_ratio before handing them to the'',
     ''        # splitter. They are the same number by construction'',
     ''        # (models/glm5next/nvidia/attention.py replaces the indexer spec with'',
     ''        # compress_ratio=index_kpool), but construction is not a check. Fail at'',
     ''        # init, on every TP rank, rather than at the first oversized step.'',
     ''        #'',
     ''        # The comparison is UNCONDITIONAL in rightsize mode, in both'',
     ''        # directions. Guarding it on self.compress_ratio > 1 would skip the one'',
     ''        # case that actually under-sizes: index_kpool=4 with'',
     ''        # kv_cache_spec.compress_ratio=1 sizes the workspace for ~4M compressed'',
     ''        # entries while the runtime hands the splitter up to ~16M token'',
     ''        # entries. The mirror case (index_kpool absent/1 with compress_ratio>1)'',
     ''        # sizes at stock and so cannot under-run, but it still means the two'',
     ''        # config sources disagree about the model being served, which is not a'',
     ''        # state to serve rightsize from.'',
     ''        if _glm53_workspace_mode() == "rightsize":'',
     ''            _glm53_cfg_ratio = _glm53_indexer_compress_ratio(self.vllm_config)'',
     ''            if _glm53_cfg_ratio != self.compress_ratio:'',
     ''                raise ValueError('',
     ''                    "[glm53-indexer-workspace] compress-ratio disagreement: "'',
     ''                    f"hf_text_config.index_kpool={_glm53_cfg_ratio} but "'',
     ''                    f"kv_cache_spec.compress_ratio={self.compress_ratio}. "'',
     ''                    "Refusing to serve on a workspace sized from the wrong "'',
     ''                    f"ratio; unset {_GLM53_WORKSPACE_ENV} to use stock sizing."'',
     ''                )'',
     ''            _glm53_need = _glm53_rightsized_workspace_entries(self.vllm_config)'',
     ''            _glm53_stock = _glm53_stock_workspace_entries('',
     ''                self.vllm_config.model_config.max_model_len'',
     ''            )'',
     ''            if self.max_prefill_buffer_size < min(_glm53_need, _glm53_stock):'',
     ''                raise ValueError('',
     ''                    "[glm53-indexer-workspace] workspace "'',
     ''                    f"{self.max_prefill_buffer_size} entries is below the legal "'',
     ''                    f"per-step maximum {_glm53_need} (compress_ratio="'',
     ''                    f"{self.compress_ratio}, max_num_seqs="'',
     ''                    f"{self.vllm_config.scheduler_config.max_num_seqs})."'',
     ''                )'',
     ''            logger.info('',
     ''                "[glm53-indexer-workspace] builder: compress_ratio=%d "'',
     ''                "workspace=%d entries (legal max %d, stock %d)",'',
     ''                self.compress_ratio,'',
     ''                self.max_prefill_buffer_size,'',
     ''                _glm53_need,'',
     ''                _glm53_stock,'',
     ''            )'']\<close>

text \<open>A site: its name, marker, anchor and replacement.\<close>

record site =
  site_name :: string
  site_mark :: pystr
  site_anchor :: pystr
  site_patched :: pystr

definition SITES :: "site list" where
  "SITES =
     [\<lparr>site_name = ''os import'', site_mark = INDEXER_MARK_IMPORT, site_anchor = INDEXER_ANCHOR_IMPORT,
       site_patched = INDEXER_PATCHED_IMPORT\<rparr>,
      \<lparr>site_name = ''workspace sizing'', site_mark = INDEXER_MARK_SIZE, site_anchor = INDEXER_ANCHOR_SIZE,
       site_patched = INDEXER_PATCHED_SIZE\<rparr>,
      \<lparr>site_name = ''builder cross-check'', site_mark = INDEXER_MARK_GUARD, site_anchor = INDEXER_ANCHOR_GUARD,
       site_patched = INDEXER_PATCHED_GUARD\<rparr>]"

definition indexer_verified_state :: "pystr \<Rightarrow> bool" where
  "indexer_verified_state tx \<longleftrightarrow>
     list_all (\<lambda>s. count_sub (site_mark s) tx = 1 \<and> count_sub (site_patched s) tx = 1 \<and>
                   count_sub (site_anchor s) tx = count_sub (site_anchor s) (site_patched s)) SITES"

text \<open>The loop over the sites: each anchor must be there exactly once when its turn comes.\<close>

fun replace_sites :: "site list \<Rightarrow> pystr \<Rightarrow> pystr res" where
  "replace_sites [] out = Inr out"
| "replace_sites (s # ss) out =
     (if count_sub (site_anchor s) out \<noteq> 1 then Inl ValueError
      else replace_sites ss (replace1 (site_anchor s) (site_patched s) out))"

definition indexer_prepare :: "pystr \<Rightarrow> patch_result" where
  "indexer_prepare source =
     (let marks = sum_list (map (\<lambda>s. count_sub (site_mark s) source) SITES) in
      if marks \<noteq> 0 then
        (if marks \<noteq> length SITES \<or> \<not> indexer_verified_state source then Inl ValueError
         else Inr (source, ''already present''))
      else
        bindE (replace_sites SITES source) (\<lambda>out.
          if \<not> indexer_verified_state out then Inl ValueError else Inr (out, ''patched'')))"

interpretation indexer: prepared_patch indexer_prepare indexer_verified_state
proof
  show "indexer_verified_state t" if "indexer_prepare s = Inr (t, act)" for s t act
    using that by (auto simp: indexer_prepare_def Let_def exc_simps split: if_splits)
  show "\<exists>act. indexer_prepare s = Inr (s, act)" if "indexer_verified_state s" for s
    using that by (simp add: indexer_prepare_def indexer_verified_state_def SITES_def)
qed

definition indexer_main ::
  "string list \<Rightarrow> (pystr \<Rightarrow> bool) \<Rightarrow> write_fault \<Rightarrow> pystr option \<Rightarrow> int res \<times> pystr option" where
  "indexer_main args compiles w file =
     patch_main indexer_prepare compiles (''--preflight'' \<notin> set args) w file"

lemma indexer_main_plain [simp]: "indexer_main [] compiles = patch_main indexer_prepare compiles True"
  by (intro ext) (simp add: indexer_main_def)

lemma indexer_main_preflight: "''--preflight'' \<in> set args \<Longrightarrow> snd (indexer_main args compiles w file) = file"
  by (simp add: indexer_main_def indexer.main_preflight)

section \<open>\<open>patch_xgrammar_termination.py\<close>\<close>

definition XG_BACKEND_MARK :: pystr where
  \<open>XG_BACKEND_MARK = text_lines [
     ''    # [glm53-xgrammar-termination] Source-exact vLLM 12f64b39 backport.'']\<close>

definition XG_MANAGER_MARK :: pystr where
  \<open>XG_MANAGER_MARK = text_lines [
     ''                    # [glm53-xgrammar-reasoning] Source-exact vLLM c6e19b3 backport.'']\<close>

definition ACCEPT_OLD :: pystr where
  \<open>ACCEPT_OLD = text_lines [
     ''    def accept_tokens(self, request_id: str, tokens: list[int]) -> bool:'',
     ''        """Accepts a list of tokens and advances the FSM.'',
     '''',
     ''        Returns True if the FSM was advanced successfully.'',
     ''        Returns False if the FSM failed to advance.'',
     ''        """'',
     ''        if self._is_terminated:'',
     ''            return False'',
     ''        for token in tokens:'',
     ''            if not self.matcher.accept_token(token):'',
     ''                logger.error('',
     ''                    "Failed to advance FSM for request %s "'',
     ''                    "for tokens %s. Please file an issue.",'',
     ''                    request_id,'',
     ''                    token,'',
     ''                )'',
     ''                return False'',
     ''            self.num_processed_tokens += 1'',
     ''        self._is_terminated = self.matcher.is_terminated()'',
     ''        return True'']\<close>

definition ACCEPT_UPSTREAM :: pystr where
  \<open>ACCEPT_UPSTREAM = text_lines [
     ''    def accept_tokens(self, request_id: str, tokens: list[int]) -> bool:'',
     ''        """Accepts a list of tokens and advances the FSM.'',
     '''',
     ''        Returns True if all grammar-constrained tokens were accepted.'',
     ''        Tokens after termination are ignored. Returns False if the FSM'',
     ''        failed to advance.'',
     ''        """'',
     ''        if self._is_terminated:'',
     ''            return True'',
     ''        for token in tokens:'',
     ''            if not self.matcher.accept_token(token):'',
     ''                logger.error('',
     ''                    "Failed to advance FSM for request %s "'',
     ''                    "for tokens %s. Please file an issue.",'',
     ''                    request_id,'',
     ''                    token,'',
     ''                )'',
     ''                return False'',
     ''            self.num_processed_tokens += 1'',
     ''            self._is_terminated = self.matcher.is_terminated()'',
     ''            if self._is_terminated:'',
     ''                break'',
     ''        return True'']\<close>

definition VALIDATE_OLD :: pystr where
  \<open>VALIDATE_OLD = text_lines [
     ''    def validate_tokens(self, tokens: list[int]) -> list[int]:'',
     ''        """Checks if the list of tokens are accepted by the FSM in sequence.'',
     ''        Will not advance the FSM.'',
     '''',
     ''        Returns the prefix list of tokens that are accepted by the FSM.'',
     ''        """'',
     ''        accepted_tokens = []'',
     ''        for token in tokens:'',
     ''            if self.matcher.accept_token(token):'',
     ''                accepted_tokens.append(token)'',
     ''            else:'',
     ''                break'',
     ''        if len(accepted_tokens) > 0:'',
     ''            # Rollback the FSM to the initial state'',
     ''            self.matcher.rollback(len(accepted_tokens))'',
     ''        return accepted_tokens'']\<close>

definition VALIDATE_UPSTREAM :: pystr where
  \<open>VALIDATE_UPSTREAM = text_lines [
     ''    def validate_tokens(self, tokens: list[int]) -> list[int]:'',
     ''        """Checks if the list of tokens are accepted by the FSM in sequence.'',
     ''        Will not advance the FSM.'',
     '''',
     ''        Returns the prefix list of tokens that are accepted by the FSM.'',
     ''        """'',
     ''        if self._is_terminated:'',
     ''            return []'',
     '''',
     ''        accepted_tokens = []'',
     ''        for token in tokens:'',
     ''            if self.matcher.accept_token(token):'',
     ''                accepted_tokens.append(token)'',
     ''                if self.matcher.is_terminated():'',
     ''                    break'',
     ''            else:'',
     ''                break'',
     ''        if len(accepted_tokens) > 0:'',
     ''            # Rollback the FSM to the initial state'',
     ''            self.matcher.rollback(len(accepted_tokens))'',
     ''        return accepted_tokens'']\<close>

definition RESET_OLD :: pystr where
  \<open>RESET_OLD = text_lines [
     ''    def reset(self):'',
     ''        self.num_processed_tokens = 0'',
     ''        self.matcher.reset()'']\<close>

definition RESET_UPSTREAM :: pystr where
  \<open>RESET_UPSTREAM = text_lines [
     ''    def reset(self):'',
     ''        self.matcher.reset()'',
     ''        self.num_processed_tokens = 0'',
     ''        self._is_terminated = False'']\<close>

definition MANAGER_OLD :: pystr where
  \<open>MANAGER_OLD = text_lines [
     ''                    if advance_grammar and not grammar.is_terminated():'',
     ''                        accepted = grammar.accept_tokens(req_id, [token])'',
     ''                        if accepted:'',
     ''                            state_advancements += 1'',
     ''                        elif not post_reasoning_end_in_window:'',
     ''                            raise AssertionError('',
     ''                                (token, req_id, scheduled_spec_decode_tokens)'',
     ''                            )'']\<close>

definition MANAGER_UPSTREAM :: pystr where
  \<open>MANAGER_UPSTREAM = text_lines [
     ''                    if advance_grammar and not grammar.is_terminated():'',
     ''                        if post_reasoning_end_in_window:'',
     ''                            accepted = bool(grammar.validate_tokens([token]))'',
     ''                            if accepted:'',
     ''                                accepted = grammar.accept_tokens(req_id, [token])'',
     ''                        else:'',
     ''                            accepted = grammar.accept_tokens(req_id, [token])'',
     ''                        if accepted:'',
     ''                            state_advancements += 1'',
     ''                        elif not post_reasoning_end_in_window:'',
     ''                            raise AssertionError('',
     ''                                (token, req_id, scheduled_spec_decode_tokens)'',
     ''                            )'']\<close>


definition backend_counts :: "pystr \<Rightarrow> nat list \<times> nat list" where
  "backend_counts tx =
     (map (\<lambda>x. count_sub x tx) [ACCEPT_OLD, VALIDATE_OLD, RESET_OLD],
      map (\<lambda>x. count_sub x tx) [ACCEPT_UPSTREAM, VALIDATE_UPSTREAM, RESET_UPSTREAM])"

definition verified_backend_state :: "pystr \<Rightarrow> bool" where
  "verified_backend_state tx \<longleftrightarrow> backend_counts tx = ([0, 0, 0], [1, 1, 1])"

definition verified_manager_state :: "pystr \<Rightarrow> bool" where
  "verified_manager_state tx \<longleftrightarrow> count_sub MANAGER_OLD tx = 0 \<and> count_sub MANAGER_UPSTREAM tx = 1"

definition prepare_backend :: "pystr \<Rightarrow> patch_result" where
  "prepare_backend source =
     (let marker_count = count_sub XG_BACKEND_MARK source in
      if marker_count \<noteq> 0 then
        (if marker_count \<noteq> 1 \<or> \<not> verified_backend_state source then Inl ValueError
         else Inr (source, ''already present''))
      else if verified_backend_state source then Inr (source, ''already upstream'')
      else if backend_counts source \<noteq> ([1, 1, 1], [0, 0, 0]) then Inl ValueError
      else
        (let patched = replace1 RESET_OLD RESET_UPSTREAM
               (replace1 VALIDATE_OLD VALIDATE_UPSTREAM
                 (replace1 ACCEPT_OLD (XG_BACKEND_MARK @ ACCEPT_UPSTREAM) source))
         in if \<not> verified_backend_state patched \<or> count_sub XG_BACKEND_MARK patched \<noteq> 1 then Inl ValueError
            else Inr (patched, ''patched'')))"

definition prepare_manager :: "pystr \<Rightarrow> patch_result" where
  "prepare_manager source =
     (let marker_count = count_sub XG_MANAGER_MARK source in
      if marker_count \<noteq> 0 then
        (if marker_count \<noteq> 1 \<or> \<not> verified_manager_state source then Inl ValueError
         else Inr (source, ''already present''))
      else if verified_manager_state source then Inr (source, ''already upstream'')
      else if count_sub MANAGER_OLD source \<noteq> 1 \<or> count_sub MANAGER_UPSTREAM source \<noteq> 0 then Inl ValueError
      else
        (let patched = replace1 MANAGER_OLD (XG_MANAGER_MARK @ MANAGER_UPSTREAM) source
         in if \<not> verified_manager_state patched \<or> count_sub XG_MANAGER_MARK patched \<noteq> 1 then Inl ValueError
            else Inr (patched, ''patched'')))"

text \<open>A verified file has the marker at most once: it was patched, or it is upstream's.\<close>

definition backend_done :: "pystr \<Rightarrow> bool" where
  "backend_done tx \<longleftrightarrow> verified_backend_state tx \<and> count_sub XG_BACKEND_MARK tx \<le> 1"

definition manager_done :: "pystr \<Rightarrow> bool" where
  "manager_done tx \<longleftrightarrow> verified_manager_state tx \<and> count_sub XG_MANAGER_MARK tx \<le> 1"

interpretation backend: prepared_patch prepare_backend backend_done
  by unfold_locales (auto simp: prepare_backend_def backend_done_def Let_def split: if_splits)

interpretation manager: prepared_patch prepare_manager manager_done
  by unfold_locales (auto simp: prepare_manager_def manager_done_def Let_def split: if_splits)

text \<open>
  \<open>main\<close> on the two files (\<open>None\<close>: missing): both are prepared and compiled before either is written.
\<close>

definition xgrammar_main ::
  "(pystr \<Rightarrow> bool) \<Rightarrow> write_fault \<Rightarrow> write_fault \<Rightarrow> pystr option \<times> pystr option \<Rightarrow>
   int res \<times> pystr option \<times> pystr option" where
  "xgrammar_main compiles wb wm files =
     (case files of
        (Some backend_source, Some manager_source) \<Rightarrow>
          (case bindE (prepare_backend backend_source) (\<lambda>(b, _).
                bindE (prepare_manager manager_source) (\<lambda>(m, _). Inr (b, m))) of
             Inl e \<Rightarrow> (Inl (if e = ValueError then SystemExit else e), files)
           | Inr (b, m) \<Rightarrow>
               if \<not> compiles b \<or> \<not> compiles m then (Inl SyntaxError, files)
               else
                 (case rewrite wb b backend_source of
                    (Inl e, backend) \<Rightarrow> (Inl e, backend, Some manager_source)
                  | (Inr _, backend) \<Rightarrow>
                      (case rewrite wm m manager_source of
                         (Inl e, manager) \<Rightarrow> (Inl e, backend, manager)
                       | (Inr _, manager) \<Rightarrow> (Inr 0, backend, manager))))
      | _ \<Rightarrow> (Inl SystemExit, files))"

end
