(* ===== verification/PatchSpin.thy ===== *)
theory PatchSpin
  imports PatchText
begin

text \<open>
  \<open>patch_spinwait.py\<close>: reading \<open>GLM53_SPINWAIT_MS\<close>, writing milliseconds as a literal of seconds, and
  preparing the source.
\<close>

section \<open>The setting\<close>

definition MAX_MS :: int where
  "MAX_MS = 1000"

definition is_ascii_digit :: "char \<Rightarrow> bool" where
  "is_ascii_digit c \<longleftrightarrow> 48 \<le> (of_char c :: int) \<and> (of_char c :: int) \<le> 57"

definition decimal_value :: "string \<Rightarrow> int" where
  "decimal_value ds = foldl (\<lambda>v c. 10 * v + (of_char c - 48)) 0 ds"

text \<open>
  \<open>int(raw, 10)\<close> raises \<open>ValueError\<close> beyond 4300 digits, Python's limit for the conversion.
\<close>

definition parse_spinwait_ms :: "string option \<Rightarrow> int option res" where
  "parse_spinwait_ms env =
     (case env of
        None \<Rightarrow> Inr None
      | Some raw \<Rightarrow>
          if raw = ''stock'' then Inr None
          else if raw = [] \<or> \<not> list_all is_ascii_digit raw \<or> 4300 < length raw then Inl ValueError
          else
            (let value = decimal_value raw
             in if \<not> (1 \<le> value \<and> value \<le> MAX_MS) then Inl ValueError else Inr (Some value)))"

section \<open>The literal\<close>

definition digit :: "int \<Rightarrow> char" where
  "digit d = char_of (48 + d)"

text \<open>\<open>f"{milliseconds:03d}"\<close> for at most three digits.\<close>

definition three_digits :: "int \<Rightarrow> string" where
  "three_digits n = [digit (n div 100), digit (n div 10 mod 10), digit (n mod 10)]"

definition rstrip_zeros :: "string \<Rightarrow> string" where
  "rstrip_zeros s = rev (dropWhile (\<lambda>c. c = CHR ''0'') (rev s))"

definition seconds_literal :: "int \<Rightarrow> string" where
  "seconds_literal milliseconds =
     (if milliseconds = 1000 then ''1'' else rstrip_zeros (''0.'' @ three_digits milliseconds))"

definition spin_prefix :: string where
  "spin_prefix = ''        busy_loop_s: float = ''"

definition STOCK_LINE :: pystr where
  "STOCK_LINE = text_lines [spin_prefix @ ''1,'']"

definition configured_line :: "int \<Rightarrow> pystr" where
  "configured_line milliseconds = text_lines [spin_prefix @ seconds_literal milliseconds @ '','']"

section \<open>Preparing the source\<close>

definition spin_prepare :: "int option \<Rightarrow> pystr \<Rightarrow> patch_result" where
  "spin_prepare milliseconds source =
     (let stock_count = count_sub STOCK_LINE source in
      case milliseconds of
        None \<Rightarrow> if stock_count \<noteq> 1 then Inl ValueError else Inr (source, ''stock'')
      | Some ms \<Rightarrow>
          (let replacement = configured_line ms in
           if replacement = STOCK_LINE then
             (if stock_count \<noteq> 1 then Inl ValueError else Inr (source, ''already stock-equivalent (1000 ms)''))
           else
             (let replacement_count = count_sub replacement source in
              if stock_count = 1 \<and> replacement_count = 0
              then Inr (replace1 STOCK_LINE replacement source, ''patched'')
              else if stock_count = 0 \<and> replacement_count = 1 then Inr (source, ''already present'')
              else Inl ValueError)))"

section \<open>The literal is the setting\<close>

text \<open>The value in thousandths of a decimal literal with at most three digits after the point.\<close>

definition thousandths :: "string \<Rightarrow> int option" where
  "thousandths s =
     (case s of
        [d] \<Rightarrow> Some (decimal_value [d] * 1000)
      | d # p # ds \<Rightarrow>
          if p = CHR ''.'' \<and> length ds \<le> 3
          then Some (decimal_value [d] * 1000 + decimal_value ds * 10 ^ (3 - length ds)) else None
      | [] \<Rightarrow> None)"

lemma of_char_digit: "0 \<le> d \<Longrightarrow> d < 10 \<Longrightarrow> (of_char (digit d) :: int) = 48 + d"
  by (simp add: digit_def)

lemma digit_zero: "0 \<le> d \<Longrightarrow> d < 10 \<Longrightarrow> digit d = CHR ''0'' \<longleftrightarrow> d = 0"
  using of_char_digit [of d] of_char_eq_iff [of "digit d" "CHR ''0''", where 'a = int] by auto

lemma rstrip_three:
  assumes "0 \<le> a" "a < 10" "0 \<le> b" "b < 10" "0 \<le> c" "c < 10"
  shows "rstrip_zeros (''0.'' @ [digit a, digit b, digit c]) =
    ''0.'' @ (if c \<noteq> 0 then [digit a, digit b, digit c] else if b \<noteq> 0 then [digit a, digit b]
             else if a \<noteq> 0 then [digit a] else [])"
  using assms by (simp add: rstrip_zeros_def digit_zero)

lemma three_digits_sum:
  "0 \<le> n \<Longrightarrow> n div 100 * 100 + n div 10 mod 10 * 10 + n mod 10 = (n::int)"
proof -
  have "n div 100 = n div 10 div 10" by (simp add: zdiv_zmult2_eq [symmetric])
  then show ?thesis using div_mult_mod_eq [of n 10] div_mult_mod_eq [of "n div 10" 10] by linarith
qed

lemma seconds_literal_thousandths:
  assumes "1 \<le> ms" and "ms \<le> 1000"
  shows "thousandths (seconds_literal ms) = Some ms"
proof (cases "ms = 1000")
  case True
  then show ?thesis by (simp add: seconds_literal_def thousandths_def decimal_value_def)
next
  case False
  let ?a = "ms div 100" and ?b = "ms div 10 mod 10" and ?c = "ms mod 10"
  have d: "0 \<le> ?a" "?a < 10" "0 \<le> ?b" "?b < 10" "0 \<le> ?c" "?c < 10" using assms False by auto
  note s = three_digits_sum [of ms]
  have "thousandths (''0.'' @ (if ?c \<noteq> 0 then [digit ?a, digit ?b, digit ?c] else if ?b \<noteq> 0 then [digit ?a, digit ?b]
             else if ?a \<noteq> 0 then [digit ?a] else [])) = Some ms"
    using s assms(1)
    by (simp add: thousandths_def decimal_value_def of_char_digit d)
  with False rstrip_three [OF d] show ?thesis by (simp add: seconds_literal_def three_digits_def)
qed

section \<open>Preparing twice\<close>

lemma set_rstrip: "set (rstrip_zeros s) \<subseteq> set s"
  by (auto simp: rstrip_zeros_def dest: set_dropWhileD)

lemma spin_lines_proper:
  "CHR 0x0A \<notin> set (spin_prefix @ seconds_literal ms @ '','')" "CHR ''b'' \<notin> set (seconds_literal ms @ '','')"
  if "1 \<le> ms" "ms \<le> 1000"
proof -
  have n: "c \<noteq> CHR 0x0A \<and> c \<noteq> CHR ''b''" if "c \<in> set (seconds_literal ms)" for c
  proof (cases "ms = 1000")
    case False
    have d: "digit k \<noteq> CHR 0x0A \<and> digit k \<noteq> CHR ''b''" if "0 \<le> k" "k < 10" for k
      using of_char_digit [OF that] that by auto
    have a: "0 \<le> ms div 100" "ms div 100 < 10" using \<open>1 \<le> ms\<close> \<open>ms \<le> 1000\<close> False by auto
    have "c \<in> {CHR ''0'', CHR ''.'', digit (ms div 100), digit (ms div 10 mod 10), digit (ms mod 10)}"
      using \<open>c \<in> set (seconds_literal ms)\<close> False set_rstrip [of "''0.'' @ three_digits ms"]
      by (auto simp: seconds_literal_def three_digits_def)
    with d [OF a] d [of "ms div 10 mod 10"] d [of "ms mod 10"] show ?thesis by auto
  qed (use \<open>c \<in> set (seconds_literal ms)\<close> in \<open>auto simp: seconds_literal_def\<close>)
  show "CHR 0x0A \<notin> set (spin_prefix @ seconds_literal ms @ '','')" using n by (auto simp: spin_prefix_def)
  show "CHR ''b'' \<notin> set (seconds_literal ms @ '','')" using n by auto
qed

text \<open>Two lines of this shape end alike only when they are equal.\<close>

lemma spin_suffix:
  assumes "CHR ''b'' \<notin> set v" and "CHR ''b'' \<notin> set w" and "suffix (spin_prefix @ v) (spin_prefix @ w)"
  shows "v = w"
proof -
  obtain u where u: "spin_prefix @ w = u @ spin_prefix @ v" using assms(3) by (auto simp: suffix_def)
  let ?n = "\<lambda>s. length (filter (\<lambda>c. c = CHR ''b'') s)"
  have "?n (spin_prefix @ w) = 1" "?n (u @ spin_prefix @ v) = ?n u + 1"
    using assms(1,2) by (auto simp: spin_prefix_def filter_empty_conv)
  with u have "?n u = 0" by simp
  then have b: "CHR ''b'' \<notin> set u" by (auto simp: filter_empty_conv)
  let ?t = "takeWhile (\<lambda>c. c \<noteq> CHR ''b'')"
  have "?t (u @ spin_prefix @ v) = u @ ?t (spin_prefix @ v)" using b by (subst takeWhile_append2) auto
  moreover have "length (?t (spin_prefix @ s)) = 8" for s by (simp add: spin_prefix_def)
  ultimately have "length u = 0" using u by (metis add_cancel_left_left length_append)
  with u show ?thesis by simp
qed

lemma spin_fresh:
  assumes "CHR ''b'' \<notin> set v" and "CHR ''b'' \<notin> set w"
  shows "fresh_start [spin_prefix @ v] [spin_prefix @ w]"
  using spin_suffix [OF assms(2,1)] by (auto simp: fresh_start_def)

lemma stock_line_eq: "STOCK_LINE = configured_line 1000"
  by (simp add: STOCK_LINE_def configured_line_def seconds_literal_def)

lemma configured_lines_apart:
  assumes "1 \<le> ms" "ms \<le> 1000" "1 \<le> ms'" "ms' \<le> 1000"
  shows "apart (configured_line ms) (configured_line ms')" "no_overlap (configured_line ms) (configured_line ms')"
    and "configured_line ms = configured_line ms' \<longleftrightarrow> seconds_literal ms = seconds_literal ms'"
    and "count_sub (configured_line ms) (configured_line ms')
       = (if seconds_literal ms = seconds_literal ms' then 1 else 0)"
proof -
  have p: "proper_lines [spin_prefix @ seconds_literal k @ '','']" if "1 \<le> k" "k \<le> 1000" for k
    using spin_lines_proper(1) [OF that] by (simp add: proper_lines_def)
  have f: "fresh_start [spin_prefix @ seconds_literal k @ '',''] [spin_prefix @ seconds_literal l @ '','']"
    if "1 \<le> k" "k \<le> 1000" "1 \<le> l" "l \<le> 1000" for k l
    by (intro spin_fresh spin_lines_proper(2) that)
  show "apart (configured_line ms) (configured_line ms')"
    unfolding configured_line_def by (rule apart_lines) (use p f assms in auto)
  show n: "no_overlap (configured_line ms) (configured_line ms')"
    unfolding configured_line_def by (rule no_overlap_lines) (use p f assms in auto)
  show e: "configured_line ms = configured_line ms' \<longleftrightarrow> seconds_literal ms = seconds_literal ms'"
    by (simp add: configured_line_def text_lines_Cons lit_inject)
  have "no_overlap (configured_line ms) (configured_line ms)"
    unfolding configured_line_def by (rule no_overlap_lines) (use p f assms in auto)
  then have "count_sub (configured_line ms) (configured_line ms')
      = line_hits [spin_prefix @ seconds_literal ms @ '',''] [spin_prefix @ seconds_literal ms' @ '','']"
    unfolding configured_line_def using p [OF assms(1,2)] p [OF assms(3,4)]
    by (intro count_text_lines) (simp_all add: proper_lines_def)
  also have "\<dots> = (if seconds_literal ms = seconds_literal ms' then 1 else 0)"
    using spin_suffix [of "seconds_literal ms @ '',''" "seconds_literal ms' @ '',''"]
      spin_lines_proper(2) [OF assms(1,2)] spin_lines_proper(2) [OF assms(3,4)] by auto
  finally show "count_sub (configured_line ms) (configured_line ms')
       = (if seconds_literal ms = seconds_literal ms' then 1 else 0)" .
qed

lemma spin_patch_ok:
  assumes "1 \<le> ms" "ms \<le> 1000" "configured_line ms \<noteq> STOCK_LINE" and "count_sub STOCK_LINE source = 1"
    and "count_sub (configured_line ms) source = 0" and "t = replace1 STOCK_LINE (configured_line ms) source"
  shows "count_sub STOCK_LINE t = 0 \<and> count_sub (configured_line ms) t = 1"
proof -
  have ne: "configured_line k \<noteq> []" for k by (simp add: configured_line_def text_lines_Cons)
  have s: "sublist STOCK_LINE source" using assms(4) ne [of 1000] by (simp add: sublist_of_count stock_line_eq)
  have d: "seconds_literal ms \<noteq> seconds_literal 1000"
    using assms(3) configured_lines_apart(3) [OF assms(1,2), of 1000] by (simp add: stock_line_eq)
  have "apart STOCK_LINE STOCK_LINE" "apart STOCK_LINE (configured_line ms)"
    "apart (configured_line ms) STOCK_LINE" "apart (configured_line ms) (configured_line ms)"
    "no_overlap STOCK_LINE STOCK_LINE" "no_overlap (configured_line ms) (configured_line ms)"
    unfolding stock_line_eq using assms(1,2) by (simp_all add: configured_lines_apart(1,2))
  moreover have "count_sub STOCK_LINE STOCK_LINE = 1" "count_sub (configured_line ms) (configured_line ms) = 1"
    "count_sub STOCK_LINE (configured_line ms) = 0" "count_sub (configured_line ms) STOCK_LINE = 0"
    unfolding stock_line_eq using assms(1,2) d by (simp_all add: configured_lines_apart(4))
  ultimately show ?thesis
    using count_replace1 [OF s, of STOCK_LINE "configured_line ms"] ne [of 1000]
      count_replace1 [OF s, of "configured_line ms" "configured_line ms"] ne [of ms] assms(4-6)
    by (simp add: stock_line_eq)
qed

definition spin_verified :: "int option \<Rightarrow> pystr \<Rightarrow> bool" where
  "spin_verified milliseconds tx \<longleftrightarrow>
     (case milliseconds of
        None \<Rightarrow> count_sub STOCK_LINE tx = 1
      | Some ms \<Rightarrow>
          if configured_line ms = STOCK_LINE then count_sub STOCK_LINE tx = 1
          else count_sub STOCK_LINE tx = 0 \<and> count_sub (configured_line ms) tx = 1)"

lemma parsed_range: "parse_spinwait_ms env = Inr (Some ms) \<Longrightarrow> 1 \<le> ms \<and> ms \<le> 1000"
  by (auto simp: parse_spinwait_ms_def Let_def MAX_MS_def split: option.splits if_splits)

text \<open>The script prepares with the setting it has parsed; a setting it rejects prepares nothing.\<close>

definition spin_script :: "string option \<Rightarrow> pystr \<Rightarrow> patch_result" where
  "spin_script env source = bindE (parse_spinwait_ms env) (\<lambda>ms. spin_prepare ms source)"

interpretation spin: prepared_patch "spin_script env"
  "\<lambda>tx. \<exists>ms. parse_spinwait_ms env = Inr ms \<and> spin_verified ms tx" for env
proof
  fix s t act
  assume "spin_script env s = Inr (t, act)"
  then obtain ms where p: "parse_spinwait_ms env = Inr ms" and q: "spin_prepare ms s = Inr (t, act)"
    by (auto simp: spin_script_def exc_simps)
  have "spin_verified ms t"
  proof (cases ms)
    case None
    with q show ?thesis by (simp add: spin_prepare_def spin_verified_def split: if_splits)
  next
    case (Some k)
    with p parsed_range have "1 \<le> k" "k \<le> 1000" by blast+
    with q Some spin_patch_ok [of k s t] show ?thesis
      by (auto simp: spin_prepare_def spin_verified_def Let_def split: if_splits)
  qed
  with p show "\<exists>ms. parse_spinwait_ms env = Inr ms \<and> spin_verified ms t" by blast
next
  fix s
  assume "\<exists>ms. parse_spinwait_ms env = Inr ms \<and> spin_verified ms s"
  then show "\<exists>act. spin_script env s = Inr (s, act)"
    by (auto simp: spin_script_def spin_prepare_def spin_verified_def Let_def split: option.splits if_splits)
qed

section \<open>The program\<close>

definition spin_main ::
  "string list \<Rightarrow> string option \<Rightarrow> (pystr \<Rightarrow> bool) \<Rightarrow> write_fault \<Rightarrow> pystr option \<Rightarrow> int res \<times> pystr option" where
  "spin_main args env compiles w file =
     (if filter (\<lambda>arg. arg \<noteq> ''--preflight'') args \<noteq> [] then (Inl SystemExit, file)
      else patch_main (spin_script env) compiles (''--preflight'' \<notin> set args) w file)"

lemma spin_main_plain [simp]: "spin_main [] env compiles = patch_main (spin_script env) compiles True"
  by (intro ext) (simp add: spin_main_def)

lemma spin_main_preflight: "args \<noteq> [] \<Longrightarrow> snd (spin_main args env compiles w file) = file"
  by (cases args) (auto simp: spin_main_def spin.main_preflight)

end
