(* ===== verification/PatchMarks.thy ===== *)
theory PatchMarks
  imports PatchText
begin

text \<open>
  Scripts that recognise their own result by a marker: a sequence of anchored replacements and what
  survives one.
\<close>

section \<open>Anchored replacements\<close>

text \<open>Each edit replaces the lines of an anchor that must be there exactly once; otherwise \<open>e\<close> is raised.\<close>

fun apply_edits :: "pyexc \<Rightarrow> (string list \<times> string list) list \<Rightarrow> pystr \<Rightarrow> pystr res" where
  "apply_edits e [] source = Inr source"
| "apply_edits e ((anchor, new) # edits) source =
     (if count_sub (text_lines anchor) source \<noteq> 1 then Inl e
      else apply_edits e edits (replace1 (text_lines anchor) (text_lines new) source))"

lemma apply_edits_append:
  "apply_edits e (es @ fs) s = bindE (apply_edits e es s) (apply_edits e fs)"
  by (induction es arbitrary: s) auto

lemma replace1_absent: "\<not> sublist old x \<Longrightarrow> replace1 old new x = x"
  by (simp add: replace1_def find_sub_None_iff [THEN iffD2])

section \<open>What survives a replacement\<close>

text \<open>
  A piece of a line survives the replacement of whole lines when it is in none of them and no rest of it begins
  them.
\<close>

definition survives :: "string \<Rightarrow> string list \<Rightarrow> bool" where
  "survives s ls \<longleftrightarrow>
     s \<noteq> [] \<and> CHR 0x0A \<notin> set s \<and> ls \<noteq> [] \<and> list_all (\<lambda>l. \<not> sublist s l) ls \<and>
     list_all (\<lambda>k. \<not> prefix (drop k s) (hd ls)) [1..<length s]"

lemma prefix_lit_line: "CHR 0x0A \<notin> set s \<Longrightarrow> prefix (lit s) (lit l @ 10 # xs) \<longleftrightarrow> prefix s l"
proof (induction s arbitrary: l)
  case (Cons c s)
  have "(of_char c :: int) \<noteq> 10" using newline_lit [of "[c]"] Cons.prems by (simp add: lit_Cons)
  with Cons show ?case by (cases l) (auto simp: lit_Cons)
qed simp

lemma sublist_lit_lines:
  assumes "CHR 0x0A \<notin> set s" "s \<noteq> []"
  shows "sublist (lit s) (text_lines ls) \<longleftrightarrow> (\<exists>l \<in> set ls. sublist s l)"
proof
  show "\<exists>l \<in> set ls. sublist s l \<Longrightarrow> sublist (lit s) (text_lines ls)" using sublist_text_lines by blast
  assume "sublist (lit s) (text_lines ls)"
  then obtain a b where "text_lines ls = a @ lit s @ b" by (auto simp: sublist_def)
  moreover define k where "k = length a"
  ultimately have p: "prefix (lit s) (drop k (text_lines ls))" by simp
  have "k < length (text_lines ls)"
  proof (rule ccontr)
    assume "\<not> k < length (text_lines ls)"
    with p have "length (lit s) = 0" by simp
    with assms(2) show False by (simp only: length_lit length_0_conv)
  qed
  from tail_text_lines [OF this] obtain i n where i: "i < length ls"
    "drop k (text_lines ls) = text_lines (drop n (ls ! i) # drop (Suc i) ls)" by blast
  with p assms(1) have "prefix s (drop n (ls ! i))" by (simp add: text_lines_Cons prefix_lit_line)
  then have "sublist s (ls ! i)" by (metis prefix_imp_sublist sublist_drop sublist_order.order_trans)
  with i(1) show "\<exists>l \<in> set ls. sublist s l" by auto
qed

lemma survives_replace1:
  assumes "survives s ls" and "sublist (lit s) x"
  shows "sublist (lit s) (replace1 (text_lines ls) new x)"
proof (cases "find_sub (text_lines ls) x")
  case None
  then have "replace1 (text_lines ls) new x = x" by (simp add: replace1_def)
  with assms(2) show ?thesis by simp
next
  case (Some p)
  obtain a b where x: "x = a @ text_lines ls @ b" and r: "replace1 (text_lines ls) new x = a @ new @ b"
    by (rule replace1_split [OF Some, of thesis]) (rule that, assumption, blast)
  obtain l ls' where ls: "ls = l # ls'" using assms(1) by (cases ls) (auto simp: survives_def)
  have s: "s \<noteq> []" "CHR 0x0A \<notin> set s" "\<not> sublist (lit s) (text_lines ls)"
    using assms(1) sublist_lit_lines [of s ls] by (auto simp: survives_def list_all_iff)
  obtain u v where uv: "x = u @ lit s @ v" using assms(2) by (auto simp: sublist_def)
  consider "length u + length s \<le> length a" | "length a + length (text_lines ls) \<le> length u"
    | "length u < length a" "length a < length u + length s"
    | "length a \<le> length u" "length u < length a + length (text_lines ls)" using s(1) by fastforce
  then show ?thesis
  proof cases
    case 1
    have "a = take (length a) x" using x by simp
    also have "\<dots> = u @ lit s @ take (length a - length u - length s) v" using 1 uv by simp
    finally have "sublist (lit s) a" by (metis sublist_appendI)
    then show ?thesis by (simp add: r sublist_append)
  next
    case 2
    have "b = drop (length a + length (text_lines ls)) x" using x by simp
    also have "\<dots> = drop (length a + length (text_lines ls)) u @ lit s @ v" using 2 uv by simp
    finally have "sublist (lit s) b" by (metis sublist_appendI)
    then show ?thesis by (simp add: r sublist_append)
  next
    case 3
    define k where "k = length a - length u"
    have k: "0 < k" "k < length s" using 3 by (simp_all add: k_def)
    have "drop (length a) x = drop k (lit s) @ v" using 3 uv by (simp add: k_def)
    then have "prefix (drop k (lit s)) (text_lines ls @ b)" using x by simp
    then have "prefix (lit (drop k s)) (lit l @ 10 # (text_lines ls' @ b))" by (simp add: ls text_lines_Cons drop_lit)
    then have "prefix (drop k s) l" using s(2) by (subst (asm) prefix_lit_line) (auto dest: in_set_dropD)
    with assms(1) k show ?thesis by (auto simp: survives_def list_all_iff ls)
  next
    case 4
    define k where "k = length u - length a"
    have k: "k < length (text_lines ls)" using 4 by (simp add: k_def)
    have "drop (length u) x = lit s @ v" using uv by simp
    then have d: "drop k (text_lines ls) @ b = lit s @ v" using 4 x k by (simp add: k_def)
    from tail_text_lines [OF k] obtain i n where i: "i < length ls"
      "drop k (text_lines ls) = text_lines (drop n (ls ! i) # drop (Suc i) ls)" by blast
    have "prefix (lit s) (drop k (text_lines ls) @ b)" using d by simp
    with i(2) s(2) have "prefix s (drop n (ls ! i))" by (simp add: text_lines_Cons prefix_lit_line)
    then have "sublist s (ls ! i)" by (metis prefix_imp_sublist sublist_drop sublist_order.order_trans)
    with assms(1) i(1) show ?thesis by (auto simp: survives_def list_all_iff)
  qed
qed

lemma survives_edits:
  assumes "list_all (\<lambda>(anchor, _). survives s anchor) edits" and "sublist (lit s) x"
    and "apply_edits e edits x = Inr y"
  shows "sublist (lit s) y"
  using assms
proof (induction edits arbitrary: x)
  case (Cons ed edits)
  obtain anchor new where ed: "ed = (anchor, new)" by (cases ed)
  from Cons.prems(1) ed have "survives s anchor" by simp
  from survives_replace1 [OF this Cons.prems(2)] Cons.IH Cons.prems ed show ?case by (auto split: if_splits)
qed simp

lemma last_edit_holds:
  assumes "apply_edits e (es @ [(anchor, new)]) x = Inr y" and "sublist s (text_lines new)" and "anchor \<noteq> []"
  shows "sublist s y"
proof -
  obtain u where "count_sub (text_lines anchor) u = 1" "y = replace1 (text_lines anchor) (text_lines new) u"
    using assms(1) by (auto simp: apply_edits_append exc_simps split: if_splits)
  moreover have "text_lines anchor \<noteq> []" using assms(3) by (cases anchor) (auto simp: text_lines_Cons)
  ultimately have "sublist (text_lines new) y" by (simp add: sublist_of_count sublist_replace1)
  with assms(2) show ?thesis by (rule sublist_order.order_trans)
qed

end
