(* ===== verification/PatchFloor.thy ===== *)
theory PatchFloor
  imports PatchMarks SchedExample
begin

text \<open>
  \<open>patch_scheduler_decode_floor.py\<close>: the policy for prefills in a step that also decodes, the two places where
  it is installed in the scheduler, and the script.
\<close>

section \<open>The texts\<close>

definition FLOOR_MARK :: string where
  "FLOOR_MARK = ''# [glm53-decode-floor]''"

definition FLOOR_IMPORT_OLD :: "string list" where
  \<open>FLOOR_IMPORT_OLD = [
     ''import itertools'',
     ''import time'']\<close>

definition FLOOR_IMPORT_NEW :: "string list" where
  \<open>FLOOR_IMPORT_NEW = [
     ''import itertools'',
     ''import os'',
     ''import time'']\<close>

definition FLOOR_HELPER :: "string list" where
  \<open>FLOOR_HELPER = [
     '''',
     ''def _glm53_mixed_prefill_policy(running, current):'',
     ''    """Mixed-step prefill policy when a peer in `running` is decoding.'',
     '''',
     ''    None = no extra policy. 0 = skip this prefill this step. N>0 = cap.'',
     ''    """'',
     ''    raw = os.environ.get("GLM53_MIXED_PREFILL_CHUNK", "skip").strip().lower()'',
     ''    if raw in ("0", "off", "no"):'',
     ''        return None'',
     ''    if raw in ("skip", "-1"):'',
     ''        cap = 0'',
     ''    else:'',
     ''        try:'',
     ''            cap = int(raw)'',
     ''        except ValueError:'',
     ''            cap = 0'',
     ''        if cap <= 0:'',
     ''            return None'',
     ''    cur_id = getattr(current, "request_id", None)'',
     ''    for r in running:'',
     ''        if r is current or getattr(r, "request_id", None) == cur_id:'',
     ''            continue'',
     ''        if r.num_computed_tokens >= r.num_prompt_tokens:'',
     ''            return cap'',
     ''    return None'',
     '''',
     '''']\<close>

definition FLOOR_RUNNING_OLD :: "string list" where
  \<open>FLOOR_RUNNING_OLD = [
     ''            if 0 < self.scheduler_config.long_prefill_token_threshold < num_new_tokens:'',
     ''                num_new_tokens = self.scheduler_config.long_prefill_token_threshold'',
     ''            num_new_tokens = min('',
     ''                num_new_tokens, token_budget, input_budget - draft_slots'',
     ''            )'',
     '''',
     ''            # Make sure the input position does not exceed the max model len.'']\<close>

definition FLOOR_RUNNING_NEW :: "string list" where
  \<open>FLOOR_RUNNING_NEW = [
     ''            if 0 < self.scheduler_config.long_prefill_token_threshold < num_new_tokens:'',
     ''                num_new_tokens = self.scheduler_config.long_prefill_token_threshold'',
     ''            num_new_tokens = min('',
     ''                num_new_tokens, token_budget, input_budget - draft_slots'',
     ''            )'',
     ''            mixed_cap = _glm53_mixed_prefill_policy(self.running, request)  # [glm53-decode-floor]'',
     ''            if mixed_cap is not None and request.num_computed_tokens < request.num_prompt_tokens:'',
     ''                num_new_tokens = min(num_new_tokens, mixed_cap)'',
     '''',
     ''            # Make sure the input position does not exceed the max model len.'']\<close>

definition FLOOR_WAITING_OLD :: "string list" where
  \<open>FLOOR_WAITING_OLD = [
     ''                    threshold = self.scheduler_config.long_prefill_token_threshold'',
     ''                    if 0 < threshold < num_new_tokens:'',
     ''                        num_new_tokens = threshold'',
     '''',
     ''                    # chunked prefill has to be enabled explicitly to allow'']\<close>

definition FLOOR_WAITING_NEW :: "string list" where
  \<open>FLOOR_WAITING_NEW = [
     ''                    threshold = self.scheduler_config.long_prefill_token_threshold'',
     ''                    if 0 < threshold < num_new_tokens:'',
     ''                        num_new_tokens = threshold'',
     ''                    mixed_cap = _glm53_mixed_prefill_policy(self.running, request)  # [glm53-decode-floor]'',
     ''                    if mixed_cap is not None and num_computed_tokens < request.num_prompt_tokens:'',
     ''                        if mixed_cap <= 0:'',
     ''                            request_queue.pop_request()'',
     ''                            step_skipped_waiting.prepend_request(request)'',
     ''                            continue'',
     ''                        num_new_tokens = min(num_new_tokens, mixed_cap)'',
     '''',
     ''                    # chunked prefill has to be enabled explicitly to allow'']\<close>

section \<open>The script\<close>

text \<open>\<open>text.split(sep, 1)[0]\<close>.\<close>

definition before_first :: "pystr \<Rightarrow> pystr \<Rightarrow> pystr" where
  "before_first sep s = (case find_sub sep s of None \<Rightarrow> s | Some p \<Rightarrow> take p s)"

definition FLOOR_NEEDLE :: "string list" where
  "FLOOR_NEEDLE = [''from vllm.compilation.cuda_graph import CUDAGraphStat'']"

definition floor_prepare :: "pystr \<Rightarrow> patch_result" where
  "floor_prepare source =
     (if py_in (lit FLOOR_MARK) source then Inr (source, ''already present'')
      else
        bindE (if \<not> py_in (text_lines [''import os'']) (before_first (text_lines [''import time'']) source)
               then apply_edits SystemExit [(FLOOR_IMPORT_OLD, FLOOR_IMPORT_NEW)] source else Inr source) (\<lambda>s.
        bindE (if \<not> py_in (lit ''def _glm53_mixed_prefill_policy('') s
               then apply_edits SystemExit [(FLOOR_NEEDLE, FLOOR_HELPER @ FLOOR_NEEDLE)] s else Inr s) (\<lambda>s.
        bindE (apply_edits SystemExit
                 [(FLOOR_RUNNING_OLD, FLOOR_RUNNING_NEW), (FLOOR_WAITING_OLD, FLOOR_WAITING_NEW)] s) (\<lambda>s.
          Inr (s, ''patched'')))))"

lemma floor_mark_in: "sublist (lit FLOOR_MARK) (text_lines FLOOR_WAITING_NEW)"
proof (rule sublist_text_lines)
  show "sublist FLOOR_MARK (FLOOR_WAITING_NEW ! 3)" by code_simp
  show "FLOOR_WAITING_NEW ! 3 \<in> set FLOOR_WAITING_NEW" by (rule nth_mem) (simp add: FLOOR_WAITING_NEW_def)
qed

interpretation floor: marked_patch floor_prepare "\<lambda>t. py_in (lit FLOOR_MARK) t"
proof
  show "py_in (lit FLOOR_MARK) t" if p: "floor_prepare s = Inr (t, act)" for s t act
  proof (cases "py_in (lit FLOOR_MARK) s")
    case True
    with p show ?thesis by (simp add: floor_prepare_def)
  next
    case False
    with p obtain u where "apply_edits SystemExit
        ([(FLOOR_RUNNING_OLD, FLOOR_RUNNING_NEW)] @ [(FLOOR_WAITING_OLD, FLOOR_WAITING_NEW)]) u = Inr t"
      by (auto simp: floor_prepare_def exc_simps simp del: apply_edits.simps)
    from last_edit_holds [OF this floor_mark_in] show ?thesis
      unfolding py_in_iff by (simp add: FLOOR_WAITING_OLD_def)
  qed
  show "\<exists>act. floor_prepare s = Inr (s, act)" if "py_in (lit FLOOR_MARK) s" for s
    using that by (simp add: floor_prepare_def)
  show "floor_prepare s = Inr (s, ''already present'')" if "py_in (lit FLOOR_MARK) s" for s
    using that by (simp add: floor_prepare_def)
  show "t = s" if "floor_prepare s = Inr (t, ''already present'')" for s t
    using that by (auto simp: floor_prepare_def exc_simps simp del: apply_edits.simps split: if_splits sum.splits)
qed

section \<open>The policy\<close>

text \<open>
  \<open>str.strip\<close> and \<open>str.lower\<close> (as far as the comparisons can see it: the ASCII letters and the Kelvin sign),
  and \<open>int\<close> of a stripped string of ASCII characters: a sign, then digits with single underscores between them.
  The digits of other scripts that \<open>int\<close> takes as well are not modelled.
\<close>

definition is_py_space :: "int \<Rightarrow> bool" where
  "is_py_space c \<longleftrightarrow>
     9 \<le> c \<and> c \<le> 13 \<or> 28 \<le> c \<and> c \<le> 32 \<or> c \<in> {133, 160, 5760, 8232, 8233, 8239, 8287, 12288} \<or> 8192 \<le> c \<and> c \<le> 8202"

definition py_strip :: "pystr \<Rightarrow> pystr" where
  "py_strip s = rev (dropWhile is_py_space (rev (dropWhile is_py_space s)))"

definition py_lower :: "pystr \<Rightarrow> pystr" where
  "py_lower s = map (\<lambda>c. if 65 \<le> c \<and> c \<le> 90 then c + 32 else if c = 8490 then 107 else c) s"

fun int_digits :: "int \<Rightarrow> pystr \<Rightarrow> int option" where
  "int_digits v [] = Some v"
| "int_digits v (c # cs) =
     (if 48 \<le> c \<and> c \<le> 57 then int_digits (10 * v + (c - 48)) cs
      else if c = 95 \<and> cs \<noteq> [] \<and> hd cs \<noteq> 95 then int_digits v cs
      else None)"

definition unsigned_int :: "pystr \<Rightarrow> int option" where
  "unsigned_int s = (case s of [] \<Rightarrow> None | c # _ \<Rightarrow> if c = 95 then None else int_digits 0 s)"

definition py_int :: "pystr \<Rightarrow> int option" where
  "py_int s =
     (case s of
        [] \<Rightarrow> None
      | c # cs \<Rightarrow>
          if c = 43 then unsigned_int cs else if c = 45 then map_option uminus (unsigned_int cs) else unsigned_int s)"

text \<open>\<open>None\<close> disables the policy; \<open>int\<close> failing counts as 0, which disables it as well.\<close>

definition mixed_prefill_cap :: "pystr option \<Rightarrow> int option" where
  "mixed_prefill_cap env =
     (let raw = py_lower (py_strip (case env of None \<Rightarrow> lit ''skip'' | Some v \<Rightarrow> v)) in
      if raw \<in> {lit ''0'', lit ''off'', lit ''no''} then None
      else if raw \<in> {lit ''skip'', lit ''-1''} then Some 0
      else (let cap = (case py_int raw of None \<Rightarrow> 0 | Some n \<Rightarrow> n) in if cap \<le> 0 then None else Some cap))"

definition mixed_prefill_policy :: "pystr option \<Rightarrow> (rid \<Rightarrow> request) \<Rightarrow> rid list \<Rightarrow> rid \<Rightarrow> int option" where
  "mixed_prefill_policy env st peers current =
     (case mixed_prefill_cap env of
        None \<Rightarrow> None
      | Some cap \<Rightarrow>
          if \<exists>r \<in> set peers. r \<noteq> current \<and> num_prompt_tokens (st r) \<le> num_computed_tokens (st r)
          then Some cap else None)"

text \<open>Where it is installed: in the loop over running requests, and in the loop over waiting ones, which skips.\<close>

definition floor_running :: "int option \<Rightarrow> request \<Rightarrow> int \<Rightarrow> int" where
  "floor_running mixed_cap q num_new_tokens =
     (case mixed_cap of
        Some cap \<Rightarrow> if num_computed_tokens q < num_prompt_tokens q then min num_new_tokens cap else num_new_tokens
      | None \<Rightarrow> num_new_tokens)"

text \<open>\<open>None\<close>: the request is moved to the skipped ones of the step.\<close>

definition floor_waiting :: "int option \<Rightarrow> request \<Rightarrow> int \<Rightarrow> int \<Rightarrow> int option" where
  "floor_waiting mixed_cap q num_computed num_new_tokens =
     (case mixed_cap of
        Some cap \<Rightarrow>
          if num_computed < num_prompt_tokens q
          then if cap \<le> 0 then None else Some (min num_new_tokens cap)
          else Some num_new_tokens
      | None \<Rightarrow> Some num_new_tokens)"

section \<open>Properties\<close>

text \<open>
  C34. In a step in which a peer decodes, a request that is still in its prompt gets no tokens in the default mode,
  whether it runs or waits, and at most N in the mode with a number N > 0; a request past its prompt is never
  held back, nor is any request in a step without a decoding peer or with the policy off. Any other setting (a
  word or a number below -1) turns the policy off.
\<close>

theorem decode_floor:
  assumes "cap = mixed_prefill_policy env st peers r"
    and "decoding_peer \<longleftrightarrow>
      (\<exists>p \<in> set peers. p \<noteq> r \<and> num_prompt_tokens (st p) \<le> num_computed_tokens (st p))"
    and "in_prompt \<longleftrightarrow> num_computed_tokens (st r) < num_prompt_tokens (st r)"
    and "raw = py_lower (py_strip (case env of None \<Rightarrow> lit ''skip'' | Some v \<Rightarrow> v))"
  shows "(decoding_peer \<and> in_prompt \<and> raw \<in> {lit ''skip'', lit ''-1''} \<and> 0 \<le> n \<longrightarrow>
       floor_running cap (st r) n = 0 \<and> floor_waiting cap (st r) (num_computed_tokens (st r)) n = None) \<and>
    (\<forall>k. decoding_peer \<and> in_prompt \<and> py_int raw = Some k \<and> 0 < k \<longrightarrow>
       floor_running cap (st r) n = min n k \<and>
       floor_waiting cap (st r) (num_computed_tokens (st r)) n = Some (min n k)) \<and>
    (\<not> decoding_peer \<or> \<not> in_prompt \<or>
     raw \<notin> {lit ''skip'', lit ''-1''} \<and> (\<forall>k. py_int raw = Some k \<longrightarrow> k \<le> 0) \<longrightarrow>
       floor_running cap (st r) n = n \<and> floor_waiting cap (st r) (num_computed_tokens (st r)) n = Some n)"
proof -
  have skip: "py_int (lit ''skip'') = None" "py_int (lit ''-1'') = Some (-1)" "py_int (lit ''0'') = Some 0"
    "py_int (lit ''off'') = None" "py_int (lit ''no'') = None" by code_simp+
  have cap: "mixed_prefill_cap env =
      (if raw \<in> {lit ''skip'', lit ''-1''} then Some 0
       else case py_int raw of None \<Rightarrow> None | Some k \<Rightarrow> if 0 < k then Some k else None)"
  proof (cases "raw \<in> {lit ''0'', lit ''off'', lit ''no''}")
    case True
    moreover have "lit ''0'' \<noteq> lit ''skip''" "lit ''0'' \<noteq> lit ''-1''" "lit ''off'' \<noteq> lit ''skip''" "lit ''off'' \<noteq> lit ''-1''"
      "lit ''no'' \<noteq> lit ''skip''" "lit ''no'' \<noteq> lit ''-1''" by code_simp+
    ultimately show ?thesis
      using skip by (auto simp: mixed_prefill_cap_def assms(4) [symmetric] Let_def)
  next
    case False
    then show ?thesis
      by (auto simp: mixed_prefill_cap_def assms(4) [symmetric] Let_def split: option.splits)
  qed
  have p: "cap = (if decoding_peer then mixed_prefill_cap env else None)"
    by (auto simp: assms(1,2) mixed_prefill_policy_def split: option.splits)
  show ?thesis
    using skip by (auto simp: p cap assms(3) floor_running_def floor_waiting_def split: option.splits)
qed

theorem decode_floor_witness:
  "floor_running (mixed_prefill_policy None (\<lambda>r. if r = ''a'' then ex_a\<lparr>num_computed_tokens := 2\<rparr> else ex_b) [''a'', ''b''] ''b'') ex_b 7 = 0"
proof -
  let ?st = "\<lambda>r. if r = ''a'' then ex_a\<lparr>num_computed_tokens := 2\<rparr> else ex_b"
  have c: "num_prompt_tokens ex_a = 2" "num_computed_tokens ex_b < num_prompt_tokens ex_b"
    "lit ''skip'' = py_lower (py_strip (case None of None \<Rightarrow> lit ''skip'' | Some v \<Rightarrow> v))" by code_simp+
  from decode_floor [OF refl refl refl c(3), where st = ?st and peers = "[''a'', ''b'']" and r = "''b''" and n = 7] c(1,2) show ?thesis by simp
qed

end
