(* ===== verification/PatchHybrid.thy ===== *)
theory PatchHybrid
  imports PatchMarks
begin

text \<open>
  \<open>patch_hybrid_prefix_hit.py\<close>: which cache groups count as EAGLE groups and how the drafter's group takes part
  in the common prefix hit, and the script that installs this in the coordinator of the cache groups.
\<close>

section \<open>The texts\<close>

definition HYBRID_MARK :: string where
  "HYBRID_MARK = ''# [glm53-hybrid-apc]''"

definition HYBRID_HELPER :: "string list" where
  \<open>HYBRID_HELPER = [
     '''',
     ''def _glm53_inner_kv_spec(spec):'',
     ''    specs = getattr(spec, "kv_cache_specs", None)'',
     ''    if isinstance(specs, dict) and specs:'',
     ''        return next(iter(specs.values()))'',
     ''    return spec'',
     '''',
     '''',
     ''def _glm53_is_draft_swa_spec(spec) -> bool:'',
     ''    """DFlash2 drafter: exact SlidingWindowSpec, not KpoolTailSpec."""'',
     ''    return type(_glm53_inner_kv_spec(spec)).__name__ == "SlidingWindowSpec"'',
     '''',
     '''']\<close>

definition HYBRID_EAGLE_OLD :: "string list" where
  \<open>HYBRID_EAGLE_OLD = [
     ''        # Conservatively fall back to flag all groups when no group is flagged.'',
     ''        if use_eagle and not self.eagle_group_ids:'',
     ''            self.eagle_group_ids = set(range(len(kv_cache_config.kv_cache_groups)))'']\<close>

definition HYBRID_EAGLE_NEW :: "string list" where
  \<open>HYBRID_EAGLE_NEW = [
     ''        # Conservatively fall back to flag all groups when no group is flagged.'',
     ''        if use_eagle and not self.eagle_group_ids:'',
     ''            # [glm53-hybrid-apc] dflash is use_eagle(); GLM has no is_eagle_group'',
     ''            # annotator. Flag only the drafter SlidingWindowSpec group so MLA /'',
     ''            # mamba do not drop a whole scheduler page (~3584). MTP with no SWA'',
     ''            # group keeps the upstream all-groups fallback.'',
     ''            swa_ids = {'',
     ''                i'',
     ''                for i, g in enumerate(kv_cache_config.kv_cache_groups)'',
     ''                if _glm53_is_draft_swa_spec(g.kv_cache_spec)'',
     ''            }'',
     ''            self.eagle_group_ids = swa_ids or set('',
     ''                range(len(kv_cache_config.kv_cache_groups))'',
     ''            )'']\<close>

definition HYBRID_MIN_OLD :: "string list" where
  \<open>HYBRID_MIN_OLD = [
     ''                if drop_eagle_block:'',
     ''                    eagle_verified.add(idx)'',
     ''                elif _new_hit_length < curr_hit_length:'',
     ''                    # length shrunk; invalidate previous eagle verifications'',
     ''                    eagle_verified.clear()'',
     ''                curr_hit_length = _new_hit_length'',
     ''                for group_id, blocks in zip(group_ids, hit_blocks):'',
     ''                    hit_blocks_by_group[group_id] = blocks'',
     ''                    hit_length_by_group[group_id] = _new_hit_length'',
     '''',
     ''                longest_hit_length = max(longest_hit_length, curr_hit_length)'']\<close>

definition HYBRID_MIN_NEW :: "string list" where
  \<open>HYBRID_MIN_NEW = [
     ''                if drop_eagle_block:'',
     ''                    eagle_verified.add(idx)'',
     ''                elif _new_hit_length < curr_hit_length:'',
     ''                    # length shrunk; invalidate previous eagle verifications'',
     ''                    eagle_verified.clear()'',
     ''                if _glm53_is_draft_swa_spec(spec):  # [glm53-hybrid-apc]'',
     ''                    # Drafter SWA must not min() the hybrid hit. Its EAGLE pop'',
     ''                    # re-aligns by LCM(window block, MLA page) = 3584. If the'',
     ''                    # cached window does not cover the MLA/mamba hit, leave'',
     ''                    # blocks empty so a fresh window is allocated; do not'',
     ''                    # reseed the indexer tail here (KpoolTail already opted out).'',
     ''                    if _new_hit_length >= curr_hit_length:'',
     ''                        for group_id, blocks in zip(group_ids, hit_blocks):'',
     ''                            hit_blocks_by_group[group_id] = blocks'',
     ''                            hit_length_by_group[group_id] = _new_hit_length'',
     ''                    continue'',
     ''                curr_hit_length = _new_hit_length'',
     ''                for group_id, blocks in zip(group_ids, hit_blocks):'',
     ''                    hit_blocks_by_group[group_id] = blocks'',
     ''                    hit_length_by_group[group_id] = _new_hit_length'',
     '''',
     ''                longest_hit_length = max(longest_hit_length, curr_hit_length)'']\<close>

definition HYBRID_LOG_OLD :: "string list" where
  \<open>HYBRID_LOG_OLD = [
     ''        # Propagate the eagle bit to each manager (default to ``use_eagle=False``).'',
     ''        for group in self.attention_groups:'',
     ''            if group.use_eagle:'',
     ''                for gid in group.group_ids:'',
     ''                    self.single_type_managers[gid].use_eagle = True'']\<close>

definition HYBRID_LOG_NEW :: "string list" where
  \<open>HYBRID_LOG_NEW = [
     ''        # Propagate the eagle bit to each manager (default to ``use_eagle=False``).'',
     ''        for group in self.attention_groups:'',
     ''            if group.use_eagle:'',
     ''                for gid in group.group_ids:'',
     ''                    self.single_type_managers[gid].use_eagle = True'',
     ''        logger.info(  # [glm53-hybrid-apc]'',
     ''            "hybrid APC groups: %s; eagle_group_ids=%s",'',
     ''            ['',
     ''                ('',
     ''                    type(_glm53_inner_kv_spec(g.spec)).__name__,'',
     ''                    g.group_ids,'',
     ''                    getattr(g.manager_cls, "__name__", type(g.manager_cls).__name__),'',
     ''                    g.use_eagle,'',
     ''                )'',
     ''                for g in self.attention_groups'',
     ''            ],'',
     ''            sorted(self.eagle_group_ids),'',
     ''        )'']\<close>

section \<open>The script\<close>

definition HYBRID_NEEDLE :: "string list" where
  "HYBRID_NEEDLE = [''def _validate_prefix_cache_retention_interval('']"

definition hybrid_prepare :: "pystr \<Rightarrow> patch_result" where
  "hybrid_prepare source =
     (if py_in (lit HYBRID_MARK) source then Inr (source, ''already present'')
      else if count_sub (text_lines HYBRID_NEEDLE) source \<noteq> 1 then Inl SystemExit
      else
        (let s = (if \<not> py_in (lit ''def _glm53_inner_kv_spec('') source
                  then replace1 (text_lines HYBRID_NEEDLE) (text_lines (HYBRID_HELPER @ HYBRID_NEEDLE)) source
                  else source)
         in bindE (apply_edits SystemExit
                     [(HYBRID_EAGLE_OLD, HYBRID_EAGLE_NEW), (HYBRID_MIN_OLD, HYBRID_MIN_NEW),
                      (HYBRID_LOG_OLD, HYBRID_LOG_NEW)] s) (\<lambda>s. Inr (s, ''patched''))))"

lemma hybrid_mark_in: "sublist (lit HYBRID_MARK) (text_lines HYBRID_LOG_NEW)"
proof (rule sublist_text_lines)
  show "sublist HYBRID_MARK (HYBRID_LOG_NEW ! 5)" by code_simp
  show "HYBRID_LOG_NEW ! 5 \<in> set HYBRID_LOG_NEW" by (rule nth_mem) (simp add: HYBRID_LOG_NEW_def)
qed

interpretation hybrid: marked_patch hybrid_prepare "\<lambda>t. py_in (lit HYBRID_MARK) t"
proof
  show "py_in (lit HYBRID_MARK) t" if p: "hybrid_prepare s = Inr (t, act)" for s t act
  proof (cases "py_in (lit HYBRID_MARK) s")
    case True
    with p show ?thesis by (simp add: hybrid_prepare_def)
  next
    case False
    with p obtain u where "apply_edits SystemExit
        ([(HYBRID_EAGLE_OLD, HYBRID_EAGLE_NEW), (HYBRID_MIN_OLD, HYBRID_MIN_NEW)] @ [(HYBRID_LOG_OLD, HYBRID_LOG_NEW)]) u = Inr t"
      by (auto simp: hybrid_prepare_def exc_simps Let_def simp del: apply_edits.simps split: if_splits)
    from last_edit_holds [OF this hybrid_mark_in] show ?thesis
      unfolding py_in_iff by (simp add: HYBRID_LOG_OLD_def)
  qed
  show "\<exists>act. hybrid_prepare s = Inr (s, act)" if "py_in (lit HYBRID_MARK) s" for s
    using that by (simp add: hybrid_prepare_def)
  show "hybrid_prepare s = Inr (s, ''already present'')" if "py_in (lit HYBRID_MARK) s" for s
    using that by (simp add: hybrid_prepare_def)
  show "t = s" if "hybrid_prepare s = Inr (t, ''already present'')" for s t
    using that by (auto simp: hybrid_prepare_def exc_simps Let_def simp del: apply_edits.simps split: if_splits sum.splits)
qed

section \<open>The drafter's group\<close>

text \<open>The name of a spec's class, and the dictionary of a spec that wraps the specs of its layers.\<close>

datatype kv_spec = KvSpec (spec_type: string) (layer_specs: "(string \<times> kv_spec) list option")

definition inner_kv_spec :: "kv_spec \<Rightarrow> kv_spec" where
  "inner_kv_spec spec = (case layer_specs spec of Some ((_, s) # _) \<Rightarrow> s | _ \<Rightarrow> spec)"

definition is_draft_swa_spec :: "kv_spec \<Rightarrow> bool" where
  "is_draft_swa_spec spec \<longleftrightarrow> spec_type (inner_kv_spec spec) = ''SlidingWindowSpec''"

definition eagle_group_ids :: "bool \<Rightarrow> nat set \<Rightarrow> kv_spec list \<Rightarrow> nat set" where
  "eagle_group_ids use_eagle flagged specs =
     (if use_eagle \<and> flagged = {} then
        (let swa_ids = set (filter (\<lambda>i. is_draft_swa_spec (specs ! i)) [0..<length specs])
         in if swa_ids \<noteq> {} then swa_ids else {0..<length specs})
      else flagged)"

text \<open>
  One cache group in the loop that finds the common hit: the state is the hit so far, the longest one, the
  groups verified for EAGLE and what was found per group. The hit of the group itself is computed before.
\<close>

record 'b hit_state =
  curr_hit_length :: nat
  longest_hit_length :: nat
  eagle_verified :: "nat set"
  hit_blocks_by_group :: "nat \<rightharpoonup> 'b"
  hit_length_by_group :: "nat \<rightharpoonup> nat"

definition verify_eagle :: "nat \<Rightarrow> bool \<Rightarrow> nat \<Rightarrow> 'b hit_state \<Rightarrow> 'b hit_state" where
  "verify_eagle idx drop_eagle_block new_hit s =
     (if drop_eagle_block then s\<lparr>eagle_verified := insert idx (eagle_verified s)\<rparr>
      else if new_hit < curr_hit_length s then s\<lparr>eagle_verified := {}\<rparr>
      else s)"

definition record_hit :: "(nat \<times> 'b) list \<Rightarrow> nat \<Rightarrow> 'b hit_state \<Rightarrow> 'b hit_state" where
  "record_hit hits new_hit s =
     s\<lparr>hit_blocks_by_group := hit_blocks_by_group s ++ map_of (rev hits),
       hit_length_by_group := hit_length_by_group s ++ map_of (map (\<lambda>(g, _). (g, new_hit)) hits)\<rparr>"

definition shrink_hit :: "(nat \<times> 'b) list \<Rightarrow> nat \<Rightarrow> 'b hit_state \<Rightarrow> 'b hit_state" where
  "shrink_hit hits new_hit s =
     (let s = record_hit hits new_hit (s\<lparr>curr_hit_length := new_hit\<rparr>)
      in s\<lparr>longest_hit_length := max (longest_hit_length s) (curr_hit_length s)\<rparr>)"

text \<open>The replaced body, and the installed one, which skips the drafter's group.\<close>

definition min_step_old :: "nat \<Rightarrow> bool \<Rightarrow> (nat \<times> 'b) list \<Rightarrow> nat \<Rightarrow> 'b hit_state \<Rightarrow> 'b hit_state" where
  "min_step_old idx drop_eagle_block hits new_hit s =
     shrink_hit hits new_hit (verify_eagle idx drop_eagle_block new_hit s)"

definition min_step :: "kv_spec \<Rightarrow> nat \<Rightarrow> bool \<Rightarrow> (nat \<times> 'b) list \<Rightarrow> nat \<Rightarrow> 'b hit_state \<Rightarrow> 'b hit_state" where
  "min_step spec idx drop_eagle_block hits new_hit s =
     (let s = verify_eagle idx drop_eagle_block new_hit s in
      if is_draft_swa_spec spec
      then if curr_hit_length s \<le> new_hit then record_hit hits new_hit s else s
      else shrink_hit hits new_hit s)"


lemma verify_eagle_hits [simp]:
  "curr_hit_length (verify_eagle idx d n s) = curr_hit_length s"
  "longest_hit_length (verify_eagle idx d n s) = longest_hit_length s"
  by (simp_all add: verify_eagle_def)

lemma record_hit_lengths [simp]:
  "curr_hit_length (record_hit hits n s) = curr_hit_length s"
  "longest_hit_length (record_hit hits n s) = longest_hit_length s"
  by (simp_all add: record_hit_def)

lemma step_lengths [simp]:
  "curr_hit_length (min_step_old idx d hits n s) = n"
  "longest_hit_length (min_step_old idx d hits n s) = max (longest_hit_length s) n"
  "curr_hit_length (min_step spec idx d hits n s) = (if is_draft_swa_spec spec then curr_hit_length s else n)"
  "longest_hit_length (min_step spec idx d hits n s) =
     (if is_draft_swa_spec spec then longest_hit_length s else max (longest_hit_length s) n)"
  by (simp_all add: min_step_old_def min_step_def shrink_hit_def Let_def)



section \<open>Properties\<close>


end
