(* ===== verification/PatchVideoInstall.thy ===== *)
theory PatchVideoInstall
  imports PatchVideo PatchText
begin

text \<open>
  The rest of \<open>patch_glm_video_placeholders.py\<close>: where the timestamps of a placeholder come from, the guard of the
  GB10 kernel that the script disables, the import hook that replaces the method, and what running the script
  installs.
\<close>

section \<open>The source of the timestamps\<close>

text \<open>
  What the code asks of the HF processor: the names of its class and of the class of its \<open>video_processor\<close> (with
  whether that has a \<open>max_duration\<close>), and the tests for the two classic families.
\<close>

record hf_processor =
  hf_name :: string
  hf_video_processor :: "(string \<times> bool) option"
  hf_is_glm4v :: bool
  hf_is_glmga :: bool

definition use_glm4v_timestamps :: "hf_processor \<Rightarrow> bool" where
  "use_glm4v_timestamps P =
     (let vp_name = (case hf_video_processor P of None \<Rightarrow> '''' | Some (name, _) \<Rightarrow> name) in
      if py_in ''Glm5'' (hf_name P) \<or> py_in ''Glm5'' vp_name then False
      else if (case hf_video_processor P of None \<Rightarrow> False | Some (_, has_max_duration) \<Rightarrow> \<not> has_max_duration) then False
      else hf_is_glm4v P)"

datatype timestamp_source = Glm4v | Glmga | Glm46v

definition source_of_timestamps :: "hf_processor \<Rightarrow> timestamp_source" where
  "source_of_timestamps P =
     (if use_glm4v_timestamps P then Glm4v else if hf_is_glmga P then Glmga else Glm46v)"

text \<open>Whether a timestamp is written as it is (\<open>"{}"\<close>) or in seconds with one decimal.\<close>

definition plain_format :: "timestamp_source \<Rightarrow> bool" where
  "plain_format src \<longleftrightarrow> src = Glm4v"

text \<open>\<open>seconds\<close> are vLLM's methods for the three sources, \<open>encode\<close> the tokenizer on a formatted timestamp.\<close>

definition installed_placeholder ::
  "'a::zero video_tokens \<Rightarrow> hf_processor \<Rightarrow> (timestamp_source \<Rightarrow> 'a list) \<Rightarrow> (bool \<Rightarrow> 'a \<Rightarrow> int list) \<Rightarrow>
   int \<Rightarrow> int \<Rightarrow> int \<Rightarrow> int \<Rightarrow> int list" where
  "installed_placeholder V P seconds encode t_groups height width merge_length =
     (let src = source_of_timestamps P in
      construct_video_placeholder (V\<lparr>vt_encode := encode (plain_format src)\<rparr>) (seconds src)
        t_groups height width merge_length)"

text \<open>A GLM-5 processor never gets the timestamps of the classic one, even when it is an instance of its class.\<close>

lemma glm5_timestamps:
  assumes "sublist ''Glm5'' (hf_name P) \<or> (\<exists>name d. hf_video_processor P = Some (name, d) \<and> sublist ''Glm5'' name)"
  shows "source_of_timestamps P = (if hf_is_glmga P then Glmga else Glm46v)"
  using assms by (auto simp: source_of_timestamps_def use_glm4v_timestamps_def find_sub_None_iff Let_def)

section \<open>The import hook\<close>

text \<open>
  An import as it happens: the name, the imports that executing the module issues, whether it succeeds, and, for the
  case that the hook tries to patch the class afterwards, that attempt: the imports of \<open>apply\<close> itself and
  whether it gets hold of the class.
\<close>

datatype import_call = Import string "import_call list" bool apply_run
  and apply_run = ApplyRun "import_call list" bool

text \<open>
  \<open>builtins._glm53_video_hook\<close>, the closure's \<open>applying\<close>, the mark on the class, and how often the method
  has been replaced.
\<close>

record hook_state =
  hk_installed :: bool
  hk_applying :: bool
  hk_aligned :: bool
  hk_replaced :: nat

fun run_import :: "import_call \<Rightarrow> hook_state \<Rightarrow> hook_state"
  and run_imports :: "import_call list \<Rightarrow> hook_state \<Rightarrow> hook_state"
  and run_apply :: "apply_run \<Rightarrow> hook_state \<Rightarrow> hook_state"
where
  "run_import (Import name body ok attempt) h =
     (let h1 = run_imports body h in
      if \<not> ok \<or> \<not> hk_installed h1 then h1
      else if hk_applying h1 \<or> \<not> py_in ''glm4_1v'' name then h1
      else (run_apply attempt (h1\<lparr>hk_applying := True\<rparr>))\<lparr>hk_applying := False\<rparr>)"
| "run_imports [] h = h"
| "run_imports (c # cs) h = run_imports cs (run_import c h)"
| "run_apply (ApplyRun inner reached) h =
     (let h1 = run_imports inner h in
      if \<not> reached \<or> hk_aligned h1 then h1
      else h1\<lparr>hk_aligned := True, hk_replaced := hk_replaced h1 + 1\<rparr>)"

text \<open>Loading the module: the hook is installed once, and the class is tried at once, failing or not.\<close>

definition load_hook :: "apply_run \<Rightarrow> hook_state \<Rightarrow> hook_state" where
  "load_hook attempt h = run_apply attempt (h\<lparr>hk_installed := True\<rparr>)"

text \<open>
  Whatever is imported: the method is replaced at most once, a class that is marked stays so, and the flag against
  re-entry is as before.
\<close>

definition hook_ok :: "hook_state \<Rightarrow> bool" where
  "hook_ok h \<longleftrightarrow> hk_replaced h = (if hk_aligned h then 1 else 0)"

definition hook_step :: "hook_state \<Rightarrow> hook_state \<Rightarrow> bool" where
  "hook_step h h' \<longleftrightarrow> hook_ok h' \<and> hk_applying h' = hk_applying h \<and> hk_installed h' = hk_installed h \<and>
     (hk_aligned h \<longrightarrow> h' = h)"

lemma hook_steps:
  "hook_ok h \<Longrightarrow> hook_step h (run_import c h)"
  "hook_ok h \<Longrightarrow> hook_step h (run_imports cs h)"
  "hook_ok h \<Longrightarrow> hook_step h (run_apply a h)"
proof (induction c h and cs h and a h rule: run_import_run_imports_run_apply.induct)
  case (1 name body ok attempt h)
  let ?h1 = "run_imports body h"
  have b: "hook_step h ?h1" using 1 by blast
  show ?case
  proof (cases "\<not> ok \<or> \<not> hk_installed ?h1 \<or> hk_applying ?h1 \<or> \<not> py_in ''glm4_1v'' name")
    case True
    with b show ?thesis by (auto simp: Let_def)
  next
    case False
    have "hook_ok (?h1\<lparr>hk_applying := True\<rparr>)" using b by (simp add: hook_step_def hook_ok_def)
    then have "hook_step (?h1\<lparr>hk_applying := True\<rparr>) (run_apply attempt (?h1\<lparr>hk_applying := True\<rparr>))"
      using False by (intro "1.IH"(2)) auto
    with b False show ?thesis
      by (cases "hk_aligned h") (auto simp: hook_step_def hook_ok_def Let_def)
  qed
next
  case (3 c cs h)
  then have "hook_step h (run_import c h)" by blast
  moreover from this 3 have "hook_step (run_import c h) (run_imports cs (run_import c h))"
    by (simp add: hook_step_def)
  ultimately show ?case by (auto simp: hook_step_def)
next
  case (4 inner reached h)
  then have "hook_step h (run_imports inner h)" by blast
  then show ?case by (auto simp: hook_step_def hook_ok_def Let_def)
qed (simp add: hook_step_def)

text \<open>A successful import of the module outside an attempt marks the class if the attempt gets hold of it.\<close>

lemma import_aligns:
  assumes "hook_ok h" "hk_installed h" "\<not> hk_applying h" and "sublist ''glm4_1v'' name"
  shows "hk_aligned (run_import (Import name body True (ApplyRun inner True)) h)"
proof -
  have b: "hook_step h (run_imports body h)" by (rule hook_steps(2) [OF assms(1)])
  have n: "py_in ''glm4_1v'' name" using assms(4) by (simp only: py_in_iff)
  show ?thesis using b assms(2,3) n by (auto simp: hook_step_def Let_def)
qed

section \<open>The guard of the GB10 kernel\<close>

definition TOPK_OLD :: string where
  "TOPK_OLD = ''if current_platform.is_cuda() and select_k in (512, 1024, 2048):''"

definition TOPK_NEW :: string where
  "TOPK_NEW = ''if False and current_platform.is_cuda() and '' @ ''select_k in (512, 1024, 2048):  # GB10 persistent_topk smem''"

definition topk_prepare :: "pystr \<Rightarrow> patch_result" where
  "topk_prepare text =
     (if py_in (lit TOPK_NEW) text then Inr (text, ''already present'')
      else if py_in (lit TOPK_OLD) text then Inr (replace1 (lit TOPK_OLD) (lit TOPK_NEW) text, ''patched'')
      else Inl RuntimeError)"

lemma replace1_in: "find_sub old text = Some p \<Longrightarrow> \<exists>q. find_sub new (replace1 old new text) = Some q"
  unfolding not_None_eq [symmetric] py_in_iff by (simp add: replace1_def)

interpretation topk: marked_patch topk_prepare "\<lambda>t. py_in (lit TOPK_NEW) t"
  by unfold_locales (auto simp: topk_prepare_def replace1_in dest: replace1_in split: if_splits)

section \<open>Installing\<close>

text \<open>The copy of the script among the packages, the \<open>.pth\<close> file that imports it, and the kernel's file.\<close>

record video_files =
  vf_module :: "pystr option"
  vf_pth :: "pystr option"
  vf_kpool :: "pystr option"

definition PTH_TEXT :: pystr where
  "PTH_TEXT = text_lines [''import glm53_video_patch'']"

definition video_main :: "pystr \<Rightarrow> write_fault \<Rightarrow> video_files \<Rightarrow> unit res \<times> video_files" where
  "video_main script w files =
     (let files1 = files\<lparr>vf_module := Some script, vf_pth := Some PTH_TEXT\<rparr> in
      case direct_main FileNotFoundError topk_prepare w (vf_kpool files1) of
        (Inl e, f) \<Rightarrow> (Inl e, files1\<lparr>vf_kpool := f\<rparr>)
      | (Inr _, f) \<Rightarrow> (Inr (), files1\<lparr>vf_kpool := f\<rparr>))"

text \<open>
  The module and its \<open>.pth\<close> are installed on every path, so also when the kernel's guard is not found and the
  script ends with an error; after a good end a second run changes nothing.
\<close>

lemma video_main_installs:
  assumes "video_main script w files = (res, files')"
  shows "vf_module files' = Some script" and "vf_pth files' = Some PTH_TEXT"
    and "res = Inr () \<Longrightarrow> video_main script w' files' = (Inr (), files')"
  using assms topk.direct_again [of FileNotFoundError w "vf_kpool files"]
  by (auto simp: video_main_def Let_def split: prod.splits sum.splits)

end
