(* ===== verification/PatchProps.thy ===== *)
theory PatchProps
  imports PatchKpool PatchSites PatchSpin PatchFloor PatchHybrid PatchVideoInstall
begin

text \<open>
  The properties of the scripts that rewrite installed files: running one twice, what a failed run leaves, and
  the spin window that reaches the source.
\<close>

text \<open>
  C29. A script that ends well leaves a file that its own verification accepts and that compiles (where the script
  compiles it), and a second run changes nothing, whatever would fail when writing. A run that fails leaves the file
  as it was, even when writing fails half-way, for the scripts that write beside the target and rename; for the
  others when writing works.
\<close>

theorem patches_are_idempotent:
  assumes "(run, renames, verified) \<in>
      {(patch_main kpool_prepare compiles True, True, \<lambda>t. kpool_verified_state t \<and> compiles t),
       (indexer_main [] compiles, True, \<lambda>t. indexer_verified_state t \<and> compiles t),
       (spin_main [] env compiles, True,
          \<lambda>t. (\<exists>ms. parse_spinwait_ms env = Inr ms \<and> spin_verified ms t) \<and> compiles t),
       (direct_main SystemExit floor_prepare, False, \<lambda>t. py_in (lit FLOOR_MARK) t),
       (direct_main SystemExit hybrid_prepare, False, \<lambda>t. py_in (lit HYBRID_MARK) t),
       (direct_main FileNotFoundError topk_prepare, False, \<lambda>t. py_in (lit TOPK_NEW) t)}"
    and "run w file = (res, file')"
  shows "case res of
      Inr _ \<Rightarrow> (\<exists>t. file' = Some t \<and> verified t) \<and> (\<forall>w'. run w' file' = (Inr 0, file'))
    | Inl _ \<Rightarrow> renames \<or> w = NoFault \<longrightarrow> file' = file"
  using assms(1)
proof (elim insertE emptyE, goal_cases)
  case 1
  with kpool.main_outcome assms(2) show ?case by (cases res) fastforce+
next
  case 2
  with indexer.main_outcome assms(2) show ?case by (cases res) fastforce+
next
  case 3
  with spin.main_outcome assms(2) show ?case by (cases res) fastforce+
next
  case 4
  with floor.direct_outcome assms(2) show ?case by (cases res) fastforce+
next
  case 5
  with hybrid.direct_outcome assms(2) show ?case by (cases res) fastforce+
next
  case 6
  with topk.direct_outcome assms(2) show ?case by (cases res) fastforce+
qed

theorem patches_are_idempotent_witness:
  "spin_main [] (Some ''10'') (\<lambda>_. True) NoFault (Some STOCK_LINE) = (Inr 0, Some (configured_line 10)) \<and>
   spin_main [] (Some ''10'') (\<lambda>_. True) OpenFails (Some (configured_line 10))
     = (Inr 0, Some (configured_line 10))"
proof -
  have r: "spin_main [] (Some ''10'') (\<lambda>_. True) NoFault (Some STOCK_LINE)
      = (Inr 0, Some (configured_line 10))" by code_simp
  from patches_are_idempotent [where w = NoFault and run = "spin_main [] (Some ''10'') (\<lambda>_. True)"
      and env = "Some ''10''" and compiles = "\<lambda>_. True" and renames = True
      and verified = "\<lambda>t. (\<exists>ms. parse_spinwait_ms (Some ''10'') = Inr ms \<and> spin_verified ms t) \<and> True", OF _ r] r
  show ?thesis by simp
qed

text \<open>
  C28. The xgrammar script touches both files or none: when it fails, both are as before, except that the backend is
  already complete when writing the manager is what failed, and then a run without faults completes the manager.
  When it ends well both are in the verified state and compile, and a second run changes nothing.
\<close>

theorem xgrammar_all_or_nothing:
  assumes "xgrammar_main compiles wb wm files = (res, files')"
  shows "case res of
      Inl _ \<Rightarrow> files' = files \<or>
        wm \<noteq> NoFault \<and> (\<exists>b m. files' = (Some b, snd files) \<and> backend_done b \<and> manager_done m \<and>
          compiles b \<and> compiles m \<and> xgrammar_main compiles NoFault NoFault files' = (Inr 0, Some b, Some m))
    | Inr _ \<Rightarrow> (\<exists>b m. files' = (Some b, Some m) \<and> backend_done b \<and> manager_done m \<and> compiles b \<and> compiles m) \<and>
               (\<forall>wb' wm'. xgrammar_main compiles wb' wm' files' = (Inr 0, files'))"
proof (cases "\<exists>b0 m0 b m x y. files = (Some b0, Some m0) \<and> prepare_backend b0 = Inr (b, x) \<and>
    prepare_manager m0 = Inr (m, y) \<and> compiles b \<and> compiles m")
  case False
  with assms show ?thesis
    by (auto simp: xgrammar_main_def exc_simps split: prod.splits option.splits sum.splits if_splits)
next
  case True
  then obtain b0 m0 b m x y where f: "files = (Some b0, Some m0)"
    and p: "prepare_backend b0 = Inr (b, x)" "prepare_manager m0 = Inr (m, y)" and c: "compiles b" "compiles m"
    by blast
  note ok = backend.result_verified [OF p(1)] manager.result_verified [OF p(2)]
  obtain x' y' where again: "prepare_backend b = Inr (b, x')" "prepare_manager m = Inr (m, y')"
    using backend.verified_kept [OF ok(1)] manager.verified_kept [OF ok(2)] by blast
  obtain rb fb rm fm where w: "rewrite wb b b0 = (rb, fb)" "rewrite wm m m0 = (rm, fm)" by fastforce
  note r = rewrite_cases [OF w(1)] rewrite_cases [OF w(2)]
  have main: "xgrammar_main compiles wb wm files = (case rb of Inl e \<Rightarrow> (Inl e, fb, Some m0)
      | Inr _ \<Rightarrow> (case rm of Inl e \<Rightarrow> (Inl e, fb, fm) | Inr _ \<Rightarrow> (Inr 0, fb, fm)))"
    using p c w by (auto simp: f xgrammar_main_def exc_simps split: sum.splits)
  have rest: "xgrammar_main compiles NoFault NoFault (Some b, Some m0) = (Inr 0, Some b, Some m)"
    "xgrammar_main compiles wb' wm' (Some b, Some m) = (Inr 0, Some b, Some m)" for wb' wm'
    using p again c by (simp_all add: xgrammar_main_def exc_simps)
  show ?thesis
  proof (cases rb)
    case Inl
    with assms main r(2) f show ?thesis by auto
  next
    case b: Inr
    show ?thesis
    proof (cases rm)
      case Inl
      with assms main r(1,4) b f rest(1) ok c show ?thesis by auto
    next
      case Inr
      with assms main r(1,3) b rest(2) ok c show ?thesis by auto
    qed
  qed
qed

theorem xgrammar_all_or_nothing_witness:
  "xgrammar_main (\<lambda>_. True) NoFault NoFault (Some [], Some []) = (Inl SystemExit, Some [], Some [])"
proof -
  have "fst (xgrammar_main (\<lambda>_. True) NoFault NoFault (Some [], Some [])) = Inl SystemExit" by code_simp
  then obtain files' where "xgrammar_main (\<lambda>_. True) NoFault NoFault (Some [], Some []) = (Inl SystemExit, files')"
    by (cases "xgrammar_main (\<lambda>_. True) NoFault NoFault (Some [], Some [])") simp
  with xgrammar_all_or_nothing [OF this] show ?thesis by simp
qed

text \<open>
  C30. When the setting names a number of milliseconds and the script accepts the source, the result holds the
  configured line exactly once, its literal denotes that many thousandths of a second, and the stock line is
  gone unless the setting is the stock value.
\<close>

theorem spinwait_reaches_the_source:
  assumes "parse_spinwait_ms env = Inr (Some ms)" and "spin_script env source = Inr (t, act)"
  shows "thousandths (seconds_literal ms) = Some ms \<and> count_sub (configured_line ms) t = 1 \<and>
    (configured_line ms \<noteq> STOCK_LINE \<longrightarrow> count_sub STOCK_LINE t = 0)"
proof -
  have "1 \<le> ms" "ms \<le> 1000" using parsed_range [OF assms(1)] by simp_all
  then have "thousandths (seconds_literal ms) = Some ms" by (rule seconds_literal_thousandths)
  moreover have "spin_verified (Some ms) t" using spin.result_verified [OF assms(2)] assms(1) by simp
  ultimately show ?thesis by (simp add: spin_verified_def split: if_splits)
qed

theorem spinwait_reaches_the_source_witness:
  "seconds_literal 16 = ''0.016'' \<and>
   spin_script (Some ''16'') STOCK_LINE = Inr (configured_line 16, ''patched'') \<and>
   thousandths (seconds_literal 16) = Some 16"
proof -
  have p: "parse_spinwait_ms (Some ''16'') = Inr (Some 16)" by code_simp
  have r: "spin_script (Some ''16'') STOCK_LINE = Inr (configured_line 16, ''patched'')" by code_simp
  have "seconds_literal 16 = ''0.016''" by code_simp
  with r spinwait_reaches_the_source [OF p r] show ?thesis by simp
qed

end
