(* ===== verification/PatchStops.thy ===== *)
theory PatchStops
  imports PatchMarks
begin

text \<open>
  \<open>patch_suppress_stops_in_reasoning.py\<close>: the guard that keeps stop strings dormant while a completion is still
  in its reasoning, when it is armed, and the script that installs it in the detokenizer.
\<close>

section \<open>The texts\<close>

definition STOPS_MARK :: string where
  "STOPS_MARK = ''# [suppress-stops-in-reasoning]''"

definition STOPS_IMPORT_OLD :: "string list" where
  \<open>STOPS_IMPORT_OLD = [
     ''import sys'',
     ''from abc import ABC, abstractmethod'']\<close>

definition STOPS_IMPORT_NEW :: "string list" where
  \<open>STOPS_IMPORT_NEW = [
     ''import os'',
     ''import sys'',
     ''from abc import ABC, abstractmethod'']\<close>

definition STOPS_FACTORY_OLD :: "string list" where
  \<open>STOPS_FACTORY_OLD = [
     ''        if USE_FAST_DETOKENIZER and isinstance(tokenizer, TokenizersBackend):'',
     ''            # Fast tokenizer => use tokenizers library DecodeStream.'',
     ''            return FastIncrementalDetokenizer(tokenizer, request)'',
     '''',
     ''        # Fall back to slow python-based incremental detokenization.'',
     ''        return SlowIncrementalDetokenizer(tokenizer, request)'']\<close>

text \<open>One line of the factory's text ends in an arrow, which is code point 8594.\<close>

definition FACTORY_NEW_HEAD :: "string list" where
  \<open>FACTORY_NEW_HEAD = [
     ''        if USE_FAST_DETOKENIZER and isinstance(tokenizer, TokenizersBackend):'',
     ''            # Fast tokenizer => use tokenizers library DecodeStream.'',
     ''            detok = FastIncrementalDetokenizer(tokenizer, request)'',
     ''        else:'',
     ''            # Fall back to slow python-based incremental detokenization.'',
     ''            detok = SlowIncrementalDetokenizer(tokenizer, request)'',
     ''        IncrementalDetokenizer._maybe_enable_reasoning_stop_guard('',
     ''            detok, tokenizer, request'',
     ''        )'',
     ''        return detok'',
     '''',
     ''    @staticmethod'',
     ''    def _reasoning_stop_markers() -> tuple[str, str]:'',
     ''        # [suppress-stops-in-reasoning] prefer reasoning_config markers.'',
     ''        start, end = "<think>", "</think>"'',
     ''        try:'',
     ''            from vllm.config import get_current_vllm_config_or_none'',
     '''',
     ''            cfg = get_current_vllm_config_or_none()'',
     ''            rc = getattr(cfg, "reasoning_config", None) if cfg else None'',
     ''            if rc is not None:'',
     ''                start = getattr(rc, "reasoning_start_str", "") or start'',
     ''                end = getattr(rc, "reasoning_end_str", "") or end'',
     ''        except Exception as e:'',
     ''            logger.debug('',
     ''                "suppress-stops-in-reasoning: no reasoning config (%s); using %r / %r",'',
     ''                e,'',
     ''                start,'',
     ''                end,'',
     ''            )'',
     ''        return start, end'',
     '''',
     ''    @staticmethod'',
     ''    def _suppress_stops_enabled() -> bool:'',
     ''        for key in ('',
     ''            "GLM53_SUPPRESS_STOPS_IN_REASONING",'',
     ''            "VLLM_SUPPRESS_STOPS_IN_REASONING",'',
     ''        ):'',
     ''            if key in os.environ:'',
     ''                return os.environ.get(key) != "0"'',
     ''        return True'',
     '''',
     ''    @staticmethod'',
     ''    def _maybe_enable_reasoning_stop_guard(detok, tokenizer, request) -> None:'']\<close>

definition FACTORY_NEW_TAIL :: "string list" where
  \<open>FACTORY_NEW_TAIL = [
     ''        # keep client stop strings dormant until </think>.'',
     ''        if not IncrementalDetokenizer._suppress_stops_enabled():'',
     ''            return'',
     ''        try:'',
     ''            stop = getattr(detok, "stop", None)'',
     ''            ptids = getattr(request, "prompt_token_ids", None)'',
     ''            if not stop or not ptids:'',
     ''                return'',
     ''            start_str, end_str = IncrementalDetokenizer._reasoning_stop_markers()'',
     ''            think_id = None'',
     ''            convert = getattr(tokenizer, "convert_tokens_to_ids", None)'',
     ''            if callable(convert):'',
     ''                think_id = convert(start_str)'',
     ''            if think_id is None or think_id < 0:'',
     ''                encode = getattr(tokenizer, "encode", None)'',
     ''                if callable(encode):'',
     ''                    try:'',
     ''                        ids = encode(start_str, add_special_tokens=False)'',
     ''                    except TypeError:'',
     ''                        ids = encode(start_str)'',
     ''                    if isinstance(ids, list) and len(ids) == 1:'',
     ''                        think_id = ids[0]'',
     ''            if think_id is not None and think_id >= 0 and ptids[-1] == think_id:'',
     ''                detok._reasoning_stop_guard = True'',
     ''                detok._reasoning_end_str = end_str'',
     ''        except Exception as e:'',
     ''            logger.debug("suppress-stops-in-reasoning: guard not armed (%s)", e)'']\<close>

definition STOPS_FACTORY_NEW :: pystr where
  "STOPS_FACTORY_NEW =
     text_lines FACTORY_NEW_HEAD @ lit ''        # [suppress-stops-in-reasoning] last prompt token == <think> '' @ [8594, 10]
     @ text_lines FACTORY_NEW_TAIL"

definition STOPS_INIT_OLD :: "string list" where
  \<open>STOPS_INIT_OLD = [
     ''        self._last_output_text_offset: int = 0'',
     '''',
     ''        # Generation data'',
     ''        self.output_text = ""'']\<close>

definition STOPS_INIT_NEW :: "string list" where
  \<open>STOPS_INIT_NEW = [
     ''        self._last_output_text_offset: int = 0'',
     '''',
     ''        # [suppress-stops-in-reasoning] client stops stay dormant while'',
     ''        # generation is still inside <think> (think-in-prompt).'',
     ''        self._reasoning_stop_guard: bool = False'',
     ''        self._reasoning_closed: bool = False'',
     ''        self._reasoning_end_str: str = "</think>"'',
     '''',
     ''        # Generation data'',
     ''        self.output_text = ""'']\<close>

definition STOPS_STOP_OLD :: "string list" where
  \<open>STOPS_STOP_OLD = [
     ''        # 2) Evaluate stop strings.'',
     ''        stop_string = None'',
     ''        if self.stop and self.num_output_tokens() > self.min_tokens:'',
     ''            stop = check_stop_strings('']\<close>

definition STOPS_STOP_NEW :: "string list" where
  \<open>STOPS_STOP_NEW = [
     ''        # 2) Evaluate stop strings.'',
     ''        # [suppress-stops-in-reasoning] keep stops dormant while reasoning'',
     ''        # is open. Advance stop_check_offset past </think> so a speculative'',
     ''        # chunk that also carries the last think tokens cannot fire.'',
     ''        if self._reasoning_stop_guard and not self._reasoning_closed:'',
     ''            marker = self._reasoning_end_str'',
     ''            window = max(0, stop_check_offset - (len(marker) - 1))'',
     ''            idx = self.output_text.find(marker, window)'',
     ''            if idx != -1:'',
     ''                self._reasoning_closed = True'',
     ''                stop_check_offset = max(stop_check_offset, idx + len(marker))'',
     ''        stop_string = None'',
     ''        if ('',
     ''            self.stop'',
     ''            and self.num_output_tokens() > self.min_tokens'',
     ''            and (not self._reasoning_stop_guard or self._reasoning_closed)'',
     ''        ):'',
     ''            stop = check_stop_strings('']\<close>

section \<open>The script\<close>

text \<open>\<open>apply_text\<close>: the new source and the status.\<close>

definition STOPS_GUARD_NAME :: string where
  "STOPS_GUARD_NAME = ''_maybe_enable_reasoning_stop_guard''"

definition missing_anchors :: "pystr \<Rightarrow> string list" where
  "missing_anchors src =
     (if \<not> py_in (text_lines STOPS_IMPORT_OLD) src then [''import''] else []) @
     (if \<not> py_in (text_lines STOPS_FACTORY_OLD) src then [''factory''] else []) @
     (if \<not> py_in (text_lines STOPS_INIT_OLD) src then [''init''] else []) @
     (if \<not> py_in (text_lines STOPS_STOP_OLD) src then [''stop''] else [])"

definition stops_apply_text :: "pystr \<Rightarrow> pystr \<times> string" where
  "stops_apply_text src =
     (if py_in (lit STOPS_MARK) src \<and> py_in (lit STOPS_GUARD_NAME) src then (src, ''skipped'')
      else if missing_anchors src \<noteq> [] then (src, ''missing:'' @ py_join '','' (missing_anchors src))
      else
        (replace1 (text_lines STOPS_STOP_OLD) (text_lines STOPS_STOP_NEW)
          (replace1 (text_lines STOPS_INIT_OLD) (text_lines STOPS_INIT_NEW)
            (replace1 (text_lines STOPS_FACTORY_OLD) STOPS_FACTORY_NEW
              (replace1 (text_lines STOPS_IMPORT_OLD) (text_lines STOPS_IMPORT_NEW) src))), ''applied''))"

text \<open>\<open>main\<close> exits with 1 unless the status is \<open>applied\<close> or \<open>skipped\<close>; it writes only when it is \<open>applied\<close>.\<close>

definition stops_prepare :: "pystr \<Rightarrow> patch_result" where
  "stops_prepare src =
     (case stops_apply_text src of
        (new, status) \<Rightarrow> if status \<in> {''applied'', ''skipped''} then Inr (new, status) else Inl SystemExit)"

definition stops_marked :: "pystr \<Rightarrow> bool" where
  "stops_marked t \<longleftrightarrow> py_in (lit STOPS_MARK) t \<and> py_in (lit STOPS_GUARD_NAME) t"

lemma stops_marks_in:
  "sublist (lit STOPS_MARK) STOPS_FACTORY_NEW" "sublist (lit STOPS_GUARD_NAME) STOPS_FACTORY_NEW"
proof -
  have "sublist (lit STOPS_MARK) (text_lines FACTORY_NEW_HEAD)"
  proof (rule sublist_text_lines)
    show "sublist STOPS_MARK (FACTORY_NEW_HEAD ! 13)" by code_simp
    show "FACTORY_NEW_HEAD ! 13 \<in> set FACTORY_NEW_HEAD" by (rule nth_mem) (simp add: FACTORY_NEW_HEAD_def)
  qed
  moreover have "sublist (lit STOPS_GUARD_NAME) (text_lines FACTORY_NEW_HEAD)"
  proof (rule sublist_text_lines)
    show "sublist STOPS_GUARD_NAME (FACTORY_NEW_HEAD ! 6)" by code_simp
    show "FACTORY_NEW_HEAD ! 6 \<in> set FACTORY_NEW_HEAD" by (rule nth_mem) (simp add: FACTORY_NEW_HEAD_def)
  qed
  ultimately show "sublist (lit STOPS_MARK) STOPS_FACTORY_NEW" "sublist (lit STOPS_GUARD_NAME) STOPS_FACTORY_NEW"
    by (simp_all add: STOPS_FACTORY_NEW_def sublist_append)
qed

lemma stops_survive:
  "survives STOPS_MARK STOPS_INIT_OLD" "survives STOPS_MARK STOPS_STOP_OLD"
  "survives STOPS_GUARD_NAME STOPS_INIT_OLD" "survives STOPS_GUARD_NAME STOPS_STOP_OLD"
  by code_simp+

lemma stops_factory_stays:
  assumes "sublist (text_lines STOPS_FACTORY_OLD) x"
  shows "sublist (text_lines STOPS_FACTORY_OLD) (replace1 (text_lines STOPS_IMPORT_OLD) (text_lines STOPS_IMPORT_NEW) x)"
proof (cases "sublist (text_lines STOPS_IMPORT_OLD) x")
  case True
  have p: "proper_lines STOPS_FACTORY_OLD" "proper_lines STOPS_IMPORT_OLD" "proper_lines STOPS_IMPORT_NEW" by code_simp+
  have f: "fresh_start STOPS_FACTORY_OLD STOPS_FACTORY_OLD"
    "fresh_start STOPS_FACTORY_OLD STOPS_IMPORT_OLD" "fresh_start STOPS_IMPORT_OLD STOPS_FACTORY_OLD"
    "fresh_start STOPS_FACTORY_OLD STOPS_IMPORT_NEW" "fresh_start STOPS_IMPORT_NEW STOPS_FACTORY_OLD"
    "\<not> strict_prefix STOPS_IMPORT_OLD STOPS_FACTORY_OLD" "\<not> strict_prefix STOPS_IMPORT_NEW STOPS_FACTORY_OLD"
    "line_hits STOPS_FACTORY_OLD STOPS_IMPORT_OLD = 0" "line_hits STOPS_FACTORY_OLD STOPS_IMPORT_NEW = 0"
    by code_simp+
  have ne: "text_lines STOPS_FACTORY_OLD \<noteq> []" by (simp add: STOPS_FACTORY_OLD_def text_lines_Cons)
  have o: "no_overlap (text_lines STOPS_FACTORY_OLD) (text_lines STOPS_FACTORY_OLD)"
    by (rule no_overlap_lines) (use p f in auto)
  have "apart (text_lines STOPS_FACTORY_OLD) (text_lines STOPS_IMPORT_OLD)"
    "apart (text_lines STOPS_FACTORY_OLD) (text_lines STOPS_IMPORT_NEW)"
    by (rule apart_lines; use p f in auto)+
  from count_replace1 [OF True ne o this]
  have "count_sub (text_lines STOPS_FACTORY_OLD) (replace1 (text_lines STOPS_IMPORT_OLD) (text_lines STOPS_IMPORT_NEW) x)
      = count_sub (text_lines STOPS_FACTORY_OLD) x"
    using count_text_lines [OF p(1) o] p f by (simp add: proper_lines_def)
  with assms ne show ?thesis by (metis count_sub_0_iff)
next
  case False
  with assms show ?thesis by (simp add: replace1_absent)
qed

interpretation stops: prepared_patch stops_prepare stops_marked
proof
  show "stops_marked t" if p: "stops_prepare s = Inr (t, act)" for s t act
  proof (cases "stops_marked s \<or> missing_anchors s \<noteq> []")
    case True
    with p show ?thesis
      by (auto simp: stops_prepare_def stops_apply_text_def stops_marked_def split: if_splits)
  next
    case False
    then have "sublist (text_lines STOPS_FACTORY_OLD) s"
      by (auto simp: missing_anchors_def find_sub_None_iff split: if_splits)
    from stops_factory_stays [OF this]
    have "sublist STOPS_FACTORY_NEW (replace1 (text_lines STOPS_FACTORY_OLD) STOPS_FACTORY_NEW
        (replace1 (text_lines STOPS_IMPORT_OLD) (text_lines STOPS_IMPORT_NEW) s))"
      by (rule sublist_replace1)
    with stops_marks_in have "sublist (lit STOPS_MARK) (replace1 (text_lines STOPS_FACTORY_OLD) STOPS_FACTORY_NEW
        (replace1 (text_lines STOPS_IMPORT_OLD) (text_lines STOPS_IMPORT_NEW) s))"
      "sublist (lit STOPS_GUARD_NAME) (replace1 (text_lines STOPS_FACTORY_OLD) STOPS_FACTORY_NEW
        (replace1 (text_lines STOPS_IMPORT_OLD) (text_lines STOPS_IMPORT_NEW) s))"
      by (blast intro: sublist_order.order_trans)+
    note m = survives_replace1 [OF stops_survive(2) survives_replace1 [OF stops_survive(1) this(1)]]
      survives_replace1 [OF stops_survive(4) survives_replace1 [OF stops_survive(3) this(2)]]
    have "t = replace1 (text_lines STOPS_STOP_OLD) (text_lines STOPS_STOP_NEW)
        (replace1 (text_lines STOPS_INIT_OLD) (text_lines STOPS_INIT_NEW)
          (replace1 (text_lines STOPS_FACTORY_OLD) STOPS_FACTORY_NEW
            (replace1 (text_lines STOPS_IMPORT_OLD) (text_lines STOPS_IMPORT_NEW) s)))"
      using p False unfolding stops_prepare_def stops_apply_text_def stops_marked_def by (auto split: if_splits)
    with m show ?thesis by (simp only: stops_marked_def py_in_iff simp_thms)
  qed
  show "\<exists>act. stops_prepare s = Inr (s, act)" if "stops_marked s" for s
    using that by (simp add: stops_prepare_def stops_apply_text_def stops_marked_def)
qed

section \<open>Arming the guard\<close>

text \<open>
  The tokenizer, the reasoning configuration and the environment belong to the caller. A callable answers with a
  value or an exception, and a missing callable is \<open>None\<close>; the first argument of \<open>encode\<close> says whether
  \<open>add_special_tokens=False\<close> is passed. An answer of \<open>encode\<close> that is no list is \<open>None\<close>.
\<close>

datatype lookup_error = Type_Error | Other_Error

record stop_tokenizer =
  convert_tokens_to_ids :: "(string \<Rightarrow> lookup_error + int option) option"
  encode_text :: "(bool \<Rightarrow> string \<Rightarrow> lookup_error + int list option) option"

text \<open>The configured markers (\<open>\<open>[]\<close>\<close> for a missing attribute); \<open>Inl\<close> when asking for the configuration raises.\<close>

definition reasoning_stop_markers :: "lookup_error + (string \<times> string) option \<Rightarrow> string \<times> string" where
  "reasoning_stop_markers cfg =
     (case cfg of
        Inr (Some (s, e)) \<Rightarrow>
          (if s \<noteq> [] then s else ''<think>'', if e \<noteq> [] then e else ''</think>'')
      | _ \<Rightarrow> (''<think>'', ''</think>''))"

definition suppress_stops_enabled :: "(string \<rightharpoonup> string) \<Rightarrow> bool" where
  "suppress_stops_enabled env =
     (case env ''GLM53_SUPPRESS_STOPS_IN_REASONING'' of
        Some v \<Rightarrow> v \<noteq> ''0''
      | None \<Rightarrow>
          (case env ''VLLM_SUPPRESS_STOPS_IN_REASONING'' of Some v \<Rightarrow> v \<noteq> ''0'' | None \<Rightarrow> True))"

definition encoded_id :: "stop_tokenizer \<Rightarrow> string \<Rightarrow> int option \<Rightarrow> lookup_error + int option" where
  "encoded_id tok s think =
     (case encode_text tok of
        None \<Rightarrow> Inr think
      | Some enc \<Rightarrow>
          (case (case enc True s of Inl Type_Error \<Rightarrow> enc False s | r \<Rightarrow> r) of
             Inl e \<Rightarrow> Inl e
           | Inr (Some [i]) \<Rightarrow> Inr (Some i)
           | Inr _ \<Rightarrow> Inr think))"

definition think_id :: "stop_tokenizer \<Rightarrow> string \<Rightarrow> lookup_error + int option" where
  "think_id tok s =
     (case (case convert_tokens_to_ids tok of None \<Rightarrow> Inr None | Some f \<Rightarrow> f s) of
        Inl e \<Rightarrow> Inl e
      | Inr think \<Rightarrow>
          if (case think of None \<Rightarrow> True | Some i \<Rightarrow> i < 0) then encoded_id tok s think else Inr think)"

text \<open>The state of the detokenizer that the guard reads and writes (INIT\_NEW and \<open>output_text\<close>).\<close>

record detok =
  out_text :: string
  stop_guard :: bool
  stop_closed :: bool
  end_str :: string

definition new_detok :: detok where
  "new_detok = \<lparr>out_text = [], stop_guard = False, stop_closed = False, end_str = ''</think>''\<rparr>"


section \<open>The gate before the stop strings\<close>

text \<open>
  One \<open>update\<close> has appended \<open>chunk\<close> to the output; \<open>off\<close> is the offset from which it would look for stop
  strings. The answer holds the new state, the offset and whether the stop strings are looked for.
\<close>

definition stop_gate :: "detok \<Rightarrow> nat \<Rightarrow> detok \<times> nat" where
  "stop_gate d off =
     (if stop_guard d \<and> \<not> stop_closed d then
        let marker = end_str d; window = nat (max 0 (int off - (int (length marker) - 1))) in
        (case py_find marker (out_text d) window of
           None \<Rightarrow> (d, off)
         | Some idx \<Rightarrow> (d\<lparr>stop_closed := True\<rparr>, max off (idx + length marker)))
      else (d, off))"






lemma gate_keeps:
  assumes "stop_gate d off = (d', off')"
  shows "out_text d' = out_text d" "stop_guard d' = stop_guard d" "end_str d' = end_str d"
  using assms by (auto simp: stop_gate_def Let_def split: if_splits option.splits)








text \<open>
  An offset that another part of the update has moved behind the marker hides it: the window looks back one
  character less than the marker has, so the guard never closes for a marker that ends at the offset.
\<close>

lemma skipped_marker_stays_unseen:
  "stop_gate (new_detok\<lparr>stop_guard := True, out_text := ''a</think>b''\<rparr>) 9
     = (new_detok\<lparr>stop_guard := True, out_text := ''a</think>b''\<rparr>, 9)"
  by (simp add: stop_gate_def new_detok_def py_find_def Let_def)

end
