(* ===== verification/PatchDrafterText.thy ===== *)
theory PatchDrafterText
  imports PatchMarks
begin

text \<open>
  The texts of \<open>patch_glm5_drafter_group.py\<close>: fourteen anchored edits of \<open>kv_cache_utils.py\<close> and the blocks
  with which the script upgrades a file that an older version of it has patched.
\<close>

definition DRAFTER_MARKER :: string where
  "DRAFTER_MARKER = ''DFLASH2-DRAFTER-GROUP''"

definition EDIT_PARTITION_ANCHOR :: "string list" where
  \<open>EDIT_PARTITION_ANCHOR = [
     ''    attn_specs = {'',
     ''        k: v'',
     ''        for k, v in kv_cache_spec.items()'',
     ''        if not isinstance(v, (MambaSpec, KpoolTailSpec))'',
     ''    }'',
     ''    if not mamba_specs or not all('',
     ''        type(s) is MLAAttentionSpec for s in attn_specs.values()'',
     ''    ):'',
     ''        return None'']\<close>

definition EDIT_PARTITION_NEW :: "string list" where
  \<open>EDIT_PARTITION_NEW = [
     ''    # DFLASH2-DRAFTER-GROUP: a spec-decode drafter (DFlash2) adds plain'',
     ''    # SlidingWindowSpec layers on top of the GLM-5-Next hybrid. Partition them'',
     ''    # out (exact type: KpoolTailSpec subclasses SlidingWindowSpec) so they do'',
     ''    # not disqualify the model from this fast path; they are appended as one'',
     ''    # extra group below.'',
     ''    draft_specs = {'',
     ''        k: v for k, v in kv_cache_spec.items() if type(v) is SlidingWindowSpec'',
     ''    }'',
     ''    attn_specs = {'',
     ''        k: v'',
     ''        for k, v in kv_cache_spec.items()'',
     ''        if not isinstance(v, (MambaSpec, KpoolTailSpec))'',
     ''        and type(v) is not SlidingWindowSpec'',
     ''    }'',
     ''    if not mamba_specs or not all('',
     ''        type(s) is MLAAttentionSpec for s in attn_specs.values()'',
     ''    ):'',
     ''        return None'']\<close>

definition EDIT_GROUPS_RETURN_ANCHOR :: "string list" where
  \<open>EDIT_GROUPS_RETURN_ANCHOR = [
     ''    mamba_grouped_names: list[list[str]] = [[] for _ in range(num_groups)]'',
     ''    for k, name in enumerate(mamba_specs):'',
     ''        mamba_grouped_names[k % num_groups].append(name)'',
     ''    return ('',
     ''        [KVCacheGroupSpec(list(attn_specs), uniform_spec)]'',
     ''        + ([tail_group] if tail_group is not None else [])'',
     ''        + create_kv_cache_group_specs(padded_specs, mamba_grouped_names)'',
     ''    )'']\<close>

definition EDIT_GROUPS_RETURN_NEW :: "string list" where
  \<open>EDIT_GROUPS_RETURN_NEW = [
     ''    mamba_grouped_names: list[list[str]] = [[] for _ in range(num_groups)]'',
     ''    for k, name in enumerate(mamba_specs):'',
     ''        mamba_grouped_names[k % num_groups].append(name)'',
     '''',
     ''    # Drafter group (DFLASH2-DRAFTER-GROUP): one extra group for the spec-'',
     ''    # decode drafter's SlidingWindowSpec layers, appended LAST so existing'',
     ''    # group ids stay stable. NEVER page_size_padded: a padded spec routes the'',
     ''    # runner into the strided-view reshape, which is invalid when the backend'',
     ''    # virtually splits the manager block into smaller kernel blocks (boot 8:'',
     ''    # FlashInfer picked kernel block 64 for a 2304-token manager block and'',
     ''    # the per-KERNEL-block page stride blew past the tensor). Both modes'',
     ''    # below use the ordinary contiguous reshape, valid under any split.'',
     ''    draft_group = None'',
     ''    if draft_specs:'',
     ''        any_draft = next(iter(draft_specs.values()))'',
     ''        assert all(spec == any_draft for spec in draft_specs.values()), ('',
     ''            "drafter SlidingWindowSpec layers must share one spec"'',
     ''        )'',
     ''        draft_bytes_per_token = any_draft.page_size_bytes // any_draft.block_size'',
     ''        mla_block = mla_specs[mla_names[0]].block_size'',
     ''        fit_block = ('',
     ''            mla_page // draft_bytes_per_token'',
     ''            if mla_page % draft_bytes_per_token == 0'',
     ''            else 0'',
     ''        )'',
     ''        if ('',
     ''            fit_block'',
     ''            # A 64-divisible manager block is divisible by every int kernel'',
     ''            # block size the SWA backends register (16/32/64), so'',
     ''            # select_common_block_size always finds a clean split.'',
     ''            and fit_block % 64 == 0'',
     ''            # Keep resolve_kv_cache_block_sizes' scheduler LCM at'',
     ''            # max(mla_block, fit_block) instead of exploding.'',
     ''            and (fit_block % mla_block == 0 or mla_block % fit_block == 0)'',
     ''            and len(draft_specs) <= len(mla_names)'',
     ''        ):'',
     ''            # EXACT FIT: the drafter's real page equals the MLA page, so'',
     ''            # drafter layer i co-owns MLA tensor i at disjoint block ids'',
     ''            # (like mamba) with a contiguous view: kernel block j of manager'',
     ''            # block b lands at b * mla_page + j * kernel_page, inside block'',
     ''            # b's own page. Per-block pool cost unchanged.'',
     ''            logger.info('',
     ''                "DFlash2 drafter KV: exact-fit block=%d mla_page=%d",'',
     ''                fit_block,'',
     ''                mla_page,'',
     ''            )'',
     ''            new_draft_specs: dict[str, KVCacheSpec] = {'',
     ''                name: replace(s, block_size=fit_block)'',
     ''                for name, s in draft_specs.items()'',
     ''            }'',
     ''        else:'',
     ''            # PADDED SLOT-SHARE: 656 vs 4096 cannot exact-fill on this MLA'',
     ''            # block. Manager 64 matches the SWA kernel, so padding the page'',
     ''            # to mla_page is a safe strided view (boot 8 OOB was kernel 64'',
     ''            # inside a 2304-token manager). Layer i co-owns MLA tensor i.'',
     ''            compact_block = 64'',
     ''            logger.info('',
     ''                "DFlash2 drafter KV: padded slot-share block=%d "'',
     ''                "mla_page=%d (was block=%d); exact-fit page mismatch "'',
     ''                "draft_bytes/token=%d",'',
     ''                compact_block,'',
     ''                mla_page,'',
     ''                any_draft.block_size,'',
     ''                draft_bytes_per_token,'',
     ''            )'',
     ''            new_draft_specs = {'',
     ''                name: replace('',
     ''                    s,'',
     ''                    block_size=compact_block,'',
     ''                    page_size_padded=mla_page,'',
     ''                )'',
     ''                for name, s in draft_specs.items()'',
     ''            }'',
     ''        draft_uniform = UniformTypeKVCacheSpecs.from_specs(new_draft_specs)'',
     ''        assert draft_uniform is not None'',
     ''        draft_group = KVCacheGroupSpec(list(new_draft_specs), draft_uniform)'',
     '''',
     ''    return ('',
     ''        [KVCacheGroupSpec(list(attn_specs), uniform_spec)]'',
     ''        + ([tail_group] if tail_group is not None else [])'',
     ''        + create_kv_cache_group_specs(padded_specs, mamba_grouped_names)'',
     ''        + ([draft_group] if draft_group is not None else [])'',
     ''    )'']\<close>

definition EDIT_LAYOUT_ANNOT_ANCHOR :: "string list" where
  \<open>EDIT_LAYOUT_ANNOT_ANCHOR = [
     ''        list[str],'',
     ''        int,'',
     ''    ]'',
     ''    | None'',
     ''):'']\<close>

definition EDIT_LAYOUT_ANNOT_NEW :: "string list" where
  \<open>EDIT_LAYOUT_ANNOT_NEW = [
     ''        list[str],'',
     ''        int,'',
     ''        KVCacheGroupSpec | None,'',
     ''    ]'',
     ''    | None'',
     ''):'']\<close>

definition EDIT_LAYOUT_DOC_ANCHOR :: "string list" where
  \<open>EDIT_LAYOUT_DOC_ANCHOR = [
     ''      - (attn_group, mamba_groups, mla_names, idx_names, mla_page, idx_page,'',
     ''         tail_names, tail_page)'']\<close>

definition EDIT_LAYOUT_DOC_NEW :: "string list" where
  \<open>EDIT_LAYOUT_DOC_NEW = [
     ''      - (attn_group, mamba_groups, mla_names, idx_names, mla_page, idx_page,'',
     ''         tail_names, tail_page, draft_group)'']\<close>

definition EDIT_LAYOUT_DETECT_ANCHOR :: "string list" where
  \<open>EDIT_LAYOUT_DETECT_ANCHOR = [
     ''    attn_group: KVCacheGroupSpec | None = None'',
     ''    tail_group: KVCacheGroupSpec | None = None'',
     ''    for g in uniform_groups:'',
     ''        group_inner = cast(UniformTypeKVCacheSpecs, g.kv_cache_spec).kv_cache_specs'',
     ''        if all(type(s) is MLAAttentionSpec for s in group_inner.values()):'',
     ''            attn_group = g'',
     ''        elif all(isinstance(s, KpoolTailSpec) for s in group_inner.values()):'',
     ''            tail_group = g'']\<close>

definition EDIT_LAYOUT_DETECT_NEW :: "string list" where
  \<open>EDIT_LAYOUT_DETECT_NEW = [
     ''    attn_group: KVCacheGroupSpec | None = None'',
     ''    tail_group: KVCacheGroupSpec | None = None'',
     ''    draft_group: KVCacheGroupSpec | None = None'',
     ''    for g in uniform_groups:'',
     ''        group_inner = cast(UniformTypeKVCacheSpecs, g.kv_cache_spec).kv_cache_specs'',
     ''        if all(type(s) is MLAAttentionSpec for s in group_inner.values()):'',
     ''            attn_group = g'',
     ''        elif all(isinstance(s, KpoolTailSpec) for s in group_inner.values()):'',
     ''            tail_group = g'',
     ''        elif group_inner and all('',
     ''            type(s) is SlidingWindowSpec for s in group_inner.values()'',
     ''        ):'',
     ''            # DFLASH2-DRAFTER-GROUP: the spec-decode drafter's SWA group'',
     ''            # (validated below once mla_page is known).'',
     ''            draft_group = g'']\<close>

definition EDIT_LAYOUT_VALIDATE_ANCHOR :: "string list" where
  \<open>EDIT_LAYOUT_VALIDATE_ANCHOR = [
     ''    if any(g.kv_cache_spec.page_size_bytes != mla_page for g in mamba_groups):'',
     ''        return None'',
     ''    tail_names: list[str] = []'']\<close>

definition EDIT_LAYOUT_VALIDATE_NEW :: "string list" where
  \<open>EDIT_LAYOUT_VALIDATE_NEW = [
     ''    if any(g.kv_cache_spec.page_size_bytes != mla_page for g in mamba_groups):'',
     ''        return None'',
     ''    if draft_group is not None:'',
     ''        # DFLASH2-DRAFTER-GROUP: one uniform page across drafter layers.'',
     ''        # Padded slot-share (page_size_padded=mla_page, block=64) is valid'',
     ''        # because manager==kernel so the strided view does not split a page.'',
     ''        # page == mla_page means slot-sharing of the MLA tensors'',
     ''        # (needs one tensor per drafter layer); any other page means'',
     ''        # standalone drafter tensors.'',
     ''        draft_inner = cast('',
     ''            UniformTypeKVCacheSpecs, draft_group.kv_cache_spec'',
     ''        ).kv_cache_specs'',
     ''        draft_pages = {s.page_size_bytes for s in draft_inner.values()}'',
     ''        if len(draft_pages) != 1:'',
     ''            return None'',
     ''        if any(s.page_size_padded is not None for s in draft_inner.values()):'',
     ''            if any('',
     ''                s.block_size != 64 or s.page_size_padded != mla_page'',
     ''                for s in draft_inner.values()'',
     ''            ):'',
     ''                return None'',
     ''        if ('',
     ''            draft_pages.pop() == mla_page'',
     ''            and len(draft_group.layer_names) > len(mla_names)'',
     ''        ):'',
     ''            return None'',
     ''    tail_names: list[str] = []'']\<close>

definition EDIT_LAYOUT_RETURN_ANCHOR :: "string list" where
  \<open>EDIT_LAYOUT_RETURN_ANCHOR = [
     ''    return ('',
     ''        attn_group,'',
     ''        mamba_groups,'',
     ''        mla_names,'',
     ''        idx_names,'',
     ''        mla_page,'',
     ''        idx_pages.pop(),'',
     ''        tail_names,'',
     ''        tail_page,'',
     ''    )'']\<close>

definition EDIT_LAYOUT_RETURN_NEW :: "string list" where
  \<open>EDIT_LAYOUT_RETURN_NEW = [
     ''    return ('',
     ''        attn_group,'',
     ''        mamba_groups,'',
     ''        mla_names,'',
     ''        idx_names,'',
     ''        mla_page,'',
     ''        idx_pages.pop(),'',
     ''        tail_names,'',
     ''        tail_page,'',
     ''        draft_group,'',
     ''    )'']\<close>

definition EDIT_POOL_BYTES_ANCHOR :: "string list" where
  \<open>EDIT_POOL_BYTES_ANCHOR = [
     ''        _, _, mla_names, idx_names, mla_page, idx_page, _, _ = glm5'',
     ''        return len(mla_names) * mla_page + len(idx_names) * idx_page'']\<close>

definition EDIT_POOL_BYTES_NEW :: "string list" where
  \<open>EDIT_POOL_BYTES_NEW = [
     ''        # DFLASH2-DRAFTER-GROUP: an exact-fit drafter (page == mla_page)'',
     ''        # slot-shares the MLA tensors and adds no bytes; a standalone drafter'',
     ''        # adds one page per drafter layer.'',
     ''        _, _, mla_names, idx_names, mla_page, idx_page, _, _, draft_group = glm5'',
     ''        per_block = len(mla_names) * mla_page + len(idx_names) * idx_page'',
     ''        if draft_group is not None:'',
     ''            draft_page = next('',
     ''                iter('',
     ''                    cast('',
     ''                        UniformTypeKVCacheSpecs, draft_group.kv_cache_spec'',
     ''                    ).kv_cache_specs.values()'',
     ''                )'',
     ''            ).page_size_bytes'',
     ''            if draft_page != mla_page:'',
     ''                per_block += len(draft_group.layer_names) * draft_page'',
     ''        return per_block'']\<close>

definition EDIT_CONFIG_DESTRUCTURE_ANCHOR :: "string list" where
  \<open>EDIT_CONFIG_DESTRUCTURE_ANCHOR = [
     ''        ('',
     ''            _,'',
     ''            mamba_groups,'',
     ''            mla_names,'',
     ''            idx_names,'',
     ''            mla_page,'',
     ''            idx_page,'',
     ''            tail_names,'',
     ''            _tail_page,'',
     ''        ) = glm5n'']\<close>

definition EDIT_CONFIG_DESTRUCTURE_NEW :: "string list" where
  \<open>EDIT_CONFIG_DESTRUCTURE_NEW = [
     ''        ('',
     ''            _,'',
     ''            mamba_groups,'',
     ''            mla_names,'',
     ''            idx_names,'',
     ''            mla_page,'',
     ''            idx_page,'',
     ''            tail_names,'',
     ''            _tail_page,'',
     ''            draft_group,'',
     ''        ) = glm5n'',
     ''        draft_names: list[str] = []'',
     ''        draft_page = 0'',
     ''        draft_shared = False'',
     ''        if draft_group is not None:'',
     ''            draft_names = list(draft_group.layer_names)'',
     ''            draft_page = next('',
     ''                iter('',
     ''                    cast('',
     ''                        UniformTypeKVCacheSpecs, draft_group.kv_cache_spec'',
     ''                    ).kv_cache_specs.values()'',
     ''                )'',
     ''            ).page_size_bytes'',
     ''            # Exact fit: the drafter's real page equals the MLA page, so it'',
     ''            # rides the MLA tensors; otherwise it gets standalone tensors.'',
     ''            draft_shared = draft_page == mla_page'']\<close>

definition EDIT_CONFIG_PER_BLOCK_ANCHOR :: "string list" where
  \<open>EDIT_CONFIG_PER_BLOCK_ANCHOR = [
     ''        per_block = len(mla_names) * mla_page + len(idx_names) * idx_page'',
     ''        num_blocks = available_memory // per_block'']\<close>

definition EDIT_CONFIG_PER_BLOCK_NEW :: "string list" where
  \<open>EDIT_CONFIG_PER_BLOCK_NEW = [
     ''        per_block = len(mla_names) * mla_page + len(idx_names) * idx_page'',
     ''        if draft_names and not draft_shared:'',
     ''            # DFLASH2-DRAFTER-GROUP (standalone): drafter tensors are part of'',
     ''            # every block's byte cost.'',
     ''            per_block += len(draft_names) * draft_page'',
     ''        num_blocks = available_memory // per_block'']\<close>

definition EDIT_CONFIG_SHARED_BY_ANCHOR :: "string list" where
  \<open>EDIT_CONFIG_SHARED_BY_ANCHOR = [
     ''                shared_by=[mla_name]'',
     ''                + [g.layer_names[i] for g in mamba_groups if i < len(g.layer_names)],'',
     ''            )'',
     ''            for i, mla_name in enumerate(mla_names)'']\<close>

definition EDIT_CONFIG_SHARED_BY_NEW :: "string list" where
  \<open>EDIT_CONFIG_SHARED_BY_NEW = [
     ''                shared_by=[mla_name]'',
     ''                + [g.layer_names[i] for g in mamba_groups if i < len(g.layer_names)]'',
     ''                # DFLASH2-DRAFTER-GROUP (exact fit): drafter layer i rides MLA'',
     ''                # tensor i (contiguous view, disjoint block ids), like mamba.'',
     ''                + ([draft_names[i]] if draft_shared and i < len(draft_names) else []),'',
     ''            )'',
     ''            for i, mla_name in enumerate(mla_names)'']\<close>

definition EDIT_CONFIG_DRAFT_TENSORS_ANCHOR :: "string list" where
  \<open>EDIT_CONFIG_DRAFT_TENSORS_ANCHOR = [
     ''            KVCacheTensor('',
     ''                size=idx_page * num_blocks,'',
     ''                shared_by=('',
     ''                    [idx_names[i], tail_names[i]] if tail_names else [idx_names[i]]'',
     ''                ),'',
     ''            )'',
     ''            for i in range(len(idx_names))'',
     ''        ]'']\<close>

definition EDIT_CONFIG_DRAFT_TENSORS_NEW :: "string list" where
  \<open>EDIT_CONFIG_DRAFT_TENSORS_NEW = [
     ''            KVCacheTensor('',
     ''                size=idx_page * num_blocks,'',
     ''                shared_by=('',
     ''                    [idx_names[i], tail_names[i]] if tail_names else [idx_names[i]]'',
     ''                ),'',
     ''            )'',
     ''            for i in range(len(idx_names))'',
     ''        ] + ['',
     ''            # DFLASH2-DRAFTER-GROUP (standalone): compact per-layer drafter'',
     ''            # tensors; contiguous reshape, safe under kernel block splitting.'',
     ''            KVCacheTensor(size=draft_page * num_blocks, shared_by=[name])'',
     ''            for name in ([] if draft_shared else draft_names)'',
     ''        ]'']\<close>

definition EDIT_MAXMEM_DESTRUCTURE_ANCHOR :: "string list" where
  \<open>EDIT_MAXMEM_DESTRUCTURE_ANCHOR = [
     ''        ('',
     ''            attn_group,'',
     ''            mamba_groups,'',
     ''            mla_names,'',
     ''            idx_names,'',
     ''            mla_page,'',
     ''            idx_page,'',
     ''            tail_names,'',
     ''            _tail_page,'',
     ''        ) = glm5n'']\<close>

definition EDIT_MAXMEM_DESTRUCTURE_NEW :: "string list" where
  \<open>EDIT_MAXMEM_DESTRUCTURE_NEW = [
     ''        ('',
     ''            attn_group,'',
     ''            mamba_groups,'',
     ''            mla_names,'',
     ''            idx_names,'',
     ''            mla_page,'',
     ''            idx_page,'',
     ''            tail_names,'',
     ''            _tail_page,'',
     ''            draft_group,'',
     ''        ) = glm5n'']\<close>

definition EDIT_MAXMEM_BLOCKS_ANCHOR :: "string list" where
  \<open>EDIT_MAXMEM_BLOCKS_ANCHOR = [
     ''        if tail_names:'',
     ''            # Tail: 1 block/req (KpoolTailSpec.max_admission_blocks_per_request'',
     ''            # == 1), drawn from the shared pool.'',
     ''            blocks_needed += 1'',
     ''        return blocks_needed * (len(mla_names) * mla_page + len(idx_names) * idx_page)'']\<close>

definition EDIT_MAXMEM_BLOCKS_NEW :: "string list" where
  \<open>EDIT_MAXMEM_BLOCKS_NEW = [
     ''        if tail_names:'',
     ''            # Tail: 1 block/req (KpoolTailSpec.max_admission_blocks_per_request'',
     ''            # == 1), drawn from the shared pool.'',
     ''            blocks_needed += 1'',
     ''        per_block = len(mla_names) * mla_page + len(idx_names) * idx_page'',
     ''        if draft_group is not None:'',
     ''            # DFLASH2-DRAFTER-GROUP: charge the drafter's window-bounded'',
     ''            # block-id demand; a standalone drafter also adds its pages to'',
     ''            # every block's byte cost (an exact-fit one rides the MLA'',
     ''            # tensors and adds none).'',
     ''            draft_uniform = draft_group.kv_cache_spec'',
     ''            assert isinstance(draft_uniform, UniformTypeKVCacheSpecs)'',
     ''            blocks_needed += draft_uniform.max_memory_usage_pages(vllm_config)'',
     ''            draft_page = next('',
     ''                iter(draft_uniform.kv_cache_specs.values())'',
     ''            ).page_size_bytes'',
     ''            if draft_page != mla_page:'',
     ''                per_block += len(draft_group.layer_names) * draft_page'',
     ''        return blocks_needed * per_block'']\<close>

text \<open>The edits in their order (the labels are only printed).\<close>

definition EDITS :: "(string list \<times> string list) list" where
  "EDITS = [
     (EDIT_PARTITION_ANCHOR, EDIT_PARTITION_NEW),
     (EDIT_GROUPS_RETURN_ANCHOR, EDIT_GROUPS_RETURN_NEW),
     (EDIT_LAYOUT_ANNOT_ANCHOR, EDIT_LAYOUT_ANNOT_NEW),
     (EDIT_LAYOUT_DOC_ANCHOR, EDIT_LAYOUT_DOC_NEW),
     (EDIT_LAYOUT_DETECT_ANCHOR, EDIT_LAYOUT_DETECT_NEW),
     (EDIT_LAYOUT_VALIDATE_ANCHOR, EDIT_LAYOUT_VALIDATE_NEW),
     (EDIT_LAYOUT_RETURN_ANCHOR, EDIT_LAYOUT_RETURN_NEW),
     (EDIT_POOL_BYTES_ANCHOR, EDIT_POOL_BYTES_NEW),
     (EDIT_CONFIG_DESTRUCTURE_ANCHOR, EDIT_CONFIG_DESTRUCTURE_NEW),
     (EDIT_CONFIG_PER_BLOCK_ANCHOR, EDIT_CONFIG_PER_BLOCK_NEW),
     (EDIT_CONFIG_SHARED_BY_ANCHOR, EDIT_CONFIG_SHARED_BY_NEW),
     (EDIT_CONFIG_DRAFT_TENSORS_ANCHOR, EDIT_CONFIG_DRAFT_TENSORS_NEW),
     (EDIT_MAXMEM_DESTRUCTURE_ANCHOR, EDIT_MAXMEM_DESTRUCTURE_NEW),
     (EDIT_MAXMEM_BLOCKS_ANCHOR, EDIT_MAXMEM_BLOCKS_NEW)]"

text \<open>The blocks of \<open>patch_file\<close> for the older versions.\<close>

definition DRAFTER_V4_OLD :: "string list" where
  \<open>DRAFTER_V4_OLD = [
     ''        if any(s.page_size_padded is not None for s in draft_inner.values()):'',
     ''            return None'']\<close>

definition DRAFTER_V4_NEW :: "string list" where
  \<open>DRAFTER_V4_NEW = [
     ''        if any(s.page_size_padded is not None for s in draft_inner.values()):'',
     ''            # Padded slot-share: manager block 64 so the kernel does not'',
     ''            # split the page (boot 8 OOB was kernel 64 in a 2304 manager).'',
     ''            if any('',
     ''                s.block_size != 64 or s.page_size_padded != mla_page'',
     ''                for s in draft_inner.values()'',
     ''            ):'',
     ''                return None'']\<close>

definition DRAFTER_NEW_PADDED :: "string list" where
  \<open>DRAFTER_NEW_PADDED = [
     ''            # PADDED SLOT-SHARE: 656 vs 4096 cannot exact-fill on this MLA'',
     ''            # block. Manager 64 matches the SWA kernel, so padding the page'',
     ''            # to mla_page is a safe strided view (boot 8 OOB was kernel 64'',
     ''            # inside a 2304-token manager). Layer i co-owns MLA tensor i.'',
     ''            compact_block = 64'',
     ''            logger.info('',
     ''                "DFlash2 drafter KV: padded slot-share block=%d "'',
     ''                "mla_page=%d (was block=%d); exact-fit page mismatch "'',
     ''                "draft_bytes/token=%d",'',
     ''                compact_block,'',
     ''                mla_page,'',
     ''                any_draft.block_size,'',
     ''                draft_bytes_per_token,'',
     ''            )'',
     ''            new_draft_specs = {'',
     ''                name: replace('',
     ''                    s,'',
     ''                    block_size=compact_block,'',
     ''                    page_size_padded=mla_page,'',
     ''                )'',
     ''                for name, s in draft_specs.items()'',
     ''            }'']\<close>

definition DRAFTER_V2_COMPACT :: "string list" where
  \<open>DRAFTER_V2_COMPACT = [
     ''            compact_block = 64'',
     ''            if any_draft.block_size > compact_block:'']\<close>

definition DRAFTER_OLD_STANDALONE :: "string list" where
  \<open>DRAFTER_OLD_STANDALONE = [
     ''            # STANDALONE: the drafter's geometry cannot exactly fill the MLA'',
     ''            # page; keep its spec as-is and give its layers compact tensors'',
     ''            # of their own (emitted in get_kv_cache_config_from_groups and'',
     ''            # charged in the per-block cost).'',
     ''            new_draft_specs = dict(draft_specs)'']\<close>

end
