(* ===== verification/PatchDrafter.thy ===== *)
theory PatchDrafter
  imports PatchDrafterText
begin

text \<open>
  \<open>patch_glm5_drafter_group.py\<close>, the script: the edits of a fresh file, the upgrades of a file that an older
  version has patched, and what a second run does.
\<close>

section \<open>The script\<close>










section \<open>A second run\<close>

























end
