(* ===== verification/PatchGeometry.thy ===== *)
theory PatchGeometry
  imports Prelude
begin

text \<open>
  The code that \<open>patch_glm5_drafter_group.py\<close> installs in \<open>kv_cache_utils.py\<close>: how the drafter's layers are taken
  out of the layout, which geometry their group gets, what the layout check accepts, and the three consumers of
  the layout (bytes per block, the tensors, the memory a request needs).
\<close>

section \<open>Partition (EDIT\_PARTITION)\<close>

text \<open>A \<open>SlidingWindowSpec\<close>: what the patch reads and replaces, and the rest of it.\<close>

record 'm draft_spec =
  swa_block_size :: nat
  swa_page_size_padded :: "nat option"
  swa_rest :: 'm

text \<open>A spec by its class; \<open>KpoolTailSpec\<close> is a subclass of \<open>SlidingWindowSpec\<close>, the tests are for the exact class.\<close>

datatype 'm kv_layer =
    Mamba_Spec | Kpool_Tail_Spec | Sliding_Window_Spec "'m draft_spec" | MLA_Attention_Spec | Other_Spec

fun draft_of :: "string \<times> 'm kv_layer \<Rightarrow> (string \<times> 'm draft_spec) list" where
  "draft_of (k, Sliding_Window_Spec s) = [(k, s)]"
| "draft_of (k, _) = []"

definition draft_specs_of :: "(string \<times> 'm kv_layer) list \<Rightarrow> (string \<times> 'm draft_spec) list" where
  "draft_specs_of specs = concat (map draft_of specs)"

text \<open>The names of the drafter's layers with their specs and the other attention layers; \<open>None\<close>: no fast path.\<close>

definition glm5_partition ::
  "bool \<Rightarrow> (string \<times> 'm kv_layer) list \<Rightarrow> ((string \<times> 'm draft_spec) list \<times> (string \<times> 'm kv_layer) list) option" where
  "glm5_partition has_mamba specs =
     (let attn_specs = filter (\<lambda>(_, v). v \<notin> {Mamba_Spec, Kpool_Tail_Spec} \<and> draft_of ('''', v) = []) specs in
      if \<not> has_mamba \<or> \<not> list_all (\<lambda>(_, v). v = MLA_Attention_Spec) attn_specs then None
      else Some (draft_specs_of specs, attn_specs))"

definition glm5_partition_old :: "bool \<Rightarrow> (string \<times> 'm kv_layer) list \<Rightarrow> (string \<times> 'm kv_layer) list option" where
  "glm5_partition_old has_mamba specs =
     (let attn_specs = filter (\<lambda>(_, v). v \<notin> {Mamba_Spec, Kpool_Tail_Spec}) specs in
      if \<not> has_mamba \<or> \<not> list_all (\<lambda>(_, v). v = MLA_Attention_Spec) attn_specs then None
      else Some attn_specs)"

section \<open>The drafter's group (EDIT\_GROUPS\_RETURN)\<close>

text \<open>
  \<open>page\<close> is vLLM's \<open>page_size_bytes\<close>; \<open>uniform\<close> says whether \<open>UniformTypeKVCacheSpecs.from_specs\<close> accepts the
  specs. The MLA layers give their page, the block of the first and their names.
\<close>

definition fit_block :: "nat \<Rightarrow> nat \<Rightarrow> nat" where
  "fit_block mla_page token_bytes = (if mla_page mod token_bytes = 0 then mla_page div token_bytes else 0)"

definition exact_fit :: "nat \<Rightarrow> nat \<Rightarrow> nat \<Rightarrow> nat \<Rightarrow> bool res" where
  "exact_fit fit mla_block n_draft n_mla =
     (if fit = 0 \<or> fit mod 64 \<noteq> 0 then Inr False
      else if mla_block = 0 then Inl ZeroDivisionError
      else Inr ((fit mod mla_block = 0 \<or> mla_block mod fit = 0) \<and> n_draft \<le> n_mla))"

definition build_draft_group ::
  "('m draft_spec \<Rightarrow> nat) \<Rightarrow> ((string \<times> 'm draft_spec) list \<Rightarrow> bool) \<Rightarrow> nat \<Rightarrow> nat \<Rightarrow> string list \<Rightarrow>
   (string \<times> 'm draft_spec) list \<Rightarrow> (string \<times> 'm draft_spec) list option res" where
  "build_draft_group page uniform mla_page mla_block mla_names draft_specs =
     (case draft_specs of
        [] \<Rightarrow> Inr None
      | (_, any_draft) # _ \<Rightarrow>
          bindE (assertE (list_all (\<lambda>(_, s). s = any_draft) draft_specs)) (\<lambda>_.
          if swa_block_size any_draft = 0 then Inl ZeroDivisionError
          else if mla_names = [] then Inl IndexError
          else if page any_draft div swa_block_size any_draft = 0 then Inl ZeroDivisionError
          else let fit = fit_block mla_page (page any_draft div swa_block_size any_draft) in
          bindE (exact_fit fit mla_block (length draft_specs) (length mla_names)) (\<lambda>exact.
          let new_draft_specs =
            (if exact then map (\<lambda>(name, s). (name, s\<lparr>swa_block_size := fit\<rparr>)) draft_specs
             else map (\<lambda>(name, s). (name, s\<lparr>swa_block_size := 64, swa_page_size_padded := Some mla_page\<rparr>)) draft_specs)
          in bindE (assertE (uniform new_draft_specs)) (\<lambda>_. Inr (Some new_draft_specs)))))"

section \<open>The layout (EDIT\_LAYOUT\_DETECT, EDIT\_LAYOUT\_VALIDATE)\<close>

type_synonym 'm kv_group = "(string \<times> 'm kv_layer) list"

definition detect_group ::
  "'m kv_group option \<times> 'm kv_group option \<times> 'm kv_group option \<Rightarrow> 'm kv_group \<Rightarrow>
   'm kv_group option \<times> 'm kv_group option \<times> 'm kv_group option" where
  "detect_group r g =
     (case r of (attn, tail, draft) \<Rightarrow>
        if list_all (\<lambda>(_, s). s = MLA_Attention_Spec) g then (Some g, tail, draft)
        else if list_all (\<lambda>(_, s). s = Kpool_Tail_Spec) g then (attn, Some g, draft)
        else if g \<noteq> [] \<and> list_all (\<lambda>l. draft_of l \<noteq> []) g then (attn, tail, Some g)
        else r)"

definition detect_groups ::
  "'m kv_group list \<Rightarrow> 'm kv_group option \<times> 'm kv_group option \<times> 'm kv_group option" where
  "detect_groups gs = foldl detect_group (None, None, None) gs"

text \<open>Whether the layout goes on (otherwise it is \<open>None\<close>).\<close>

definition draft_group_valid ::
  "('m draft_spec \<Rightarrow> nat) \<Rightarrow> nat \<Rightarrow> string list \<Rightarrow> (string \<times> 'm draft_spec) list option \<Rightarrow> bool" where
  "draft_group_valid page mla_page mla_names draft =
     (case draft of
        None \<Rightarrow> True
      | Some inner \<Rightarrow>
          (case remdups (map (page \<circ> snd) inner) of
             [draft_page] \<Rightarrow>
               (list_ex (\<lambda>(_, s). swa_page_size_padded s \<noteq> None) inner \<longrightarrow>
                  list_all (\<lambda>(_, s). swa_block_size s = 64 \<and> swa_page_size_padded s = Some mla_page) inner) \<and>
               (draft_page = mla_page \<longrightarrow> length inner \<le> length mla_names)
           | _ \<Rightarrow> False))"

text \<open>The tuple that the layout returns (EDIT\_LAYOUT\_RETURN), as far as its consumers read it.\<close>

record 'm glm5_layout =
  mamba_groups :: "string list list"
  mla_names :: "string list"
  idx_names :: "string list"
  mla_page :: nat
  idx_page :: nat
  tail_names :: "string list"
  draft_group :: "(string \<times> 'm draft_spec) list option"

section \<open>The consumers\<close>

definition base_bytes :: "'m glm5_layout \<Rightarrow> nat" where
  "base_bytes L = length (mla_names L) * mla_page L + length (idx_names L) * idx_page L"

text \<open>The page of the first of the drafter's specs, \<open>next(iter(...))\<close>.\<close>

definition first_page :: "('m draft_spec \<Rightarrow> nat) \<Rightarrow> (string \<times> 'm draft_spec) list \<Rightarrow> nat res" where
  "first_page page inner = (case inner of [] \<Rightarrow> Inl StopIteration | (_, s) # _ \<Rightarrow> Inr (page s))"

text \<open>\<open>_pool_bytes_per_block\<close> (EDIT\_POOL\_BYTES).\<close>

definition pool_bytes_per_block :: "('m draft_spec \<Rightarrow> nat) \<Rightarrow> 'm glm5_layout \<Rightarrow> nat res" where
  "pool_bytes_per_block page L =
     (case draft_group L of
        None \<Rightarrow> Inr (base_bytes L)
      | Some inner \<Rightarrow>
          bindE (first_page page inner) (\<lambda>draft_page.
          Inr (base_bytes L + (if draft_page \<noteq> mla_page L then length inner * draft_page else 0))))"

text \<open>
  \<open>get_kv_cache_config_from_groups\<close> (EDIT\_CONFIG): the names, the page and the mode of the drafter, then the
  number of blocks, who shares the MLA tensors, and the size and owners of the other tensors.
\<close>

definition draft_mode :: "('m draft_spec \<Rightarrow> nat) \<Rightarrow> 'm glm5_layout \<Rightarrow> (string list \<times> nat \<times> bool) res" where
  "draft_mode page L =
     (case draft_group L of
        None \<Rightarrow> Inr ([], 0, False)
      | Some inner \<Rightarrow>
          bindE (first_page page inner) (\<lambda>draft_page. Inr (map fst inner, draft_page, draft_page = mla_page L)))"

record kv_cache_config =
  num_blocks :: nat
  mla_shared_by :: "string list list"
  idx_tensors :: "(nat \<times> string list) list"
  draft_tensors :: "(nat \<times> string list) list"

definition config_per_block :: "'m glm5_layout \<Rightarrow> string list \<Rightarrow> nat \<Rightarrow> bool \<Rightarrow> nat" where
  "config_per_block L draft_names draft_page draft_shared =
     base_bytes L + (if draft_names \<noteq> [] \<and> \<not> draft_shared then length draft_names * draft_page else 0)"

definition mla_sharers :: "'m glm5_layout \<Rightarrow> string list \<Rightarrow> bool \<Rightarrow> nat \<Rightarrow> string list" where
  "mla_sharers L draft_names draft_shared i =
     [mla_names L ! i] @ concat (map (\<lambda>g. if i < length g then [g ! i] else []) (mamba_groups L)) @
     (if draft_shared \<and> i < length draft_names then [draft_names ! i] else [])"

definition idx_tensor :: "'m glm5_layout \<Rightarrow> nat \<Rightarrow> nat \<Rightarrow> (nat \<times> string list) res" where
  "idx_tensor L n i =
     (if tail_names L = [] then Inr (idx_page L * n, [idx_names L ! i])
      else if length (tail_names L) \<le> i then Inl IndexError
      else Inr (idx_page L * n, [idx_names L ! i, tail_names L ! i]))"

definition kv_cache_config_of :: "('m draft_spec \<Rightarrow> nat) \<Rightarrow> nat \<Rightarrow> 'm glm5_layout \<Rightarrow> kv_cache_config res" where
  "kv_cache_config_of page available_memory L =
     bindE (draft_mode page L) (\<lambda>(draft_names, draft_page, draft_shared).
     let per_block = config_per_block L draft_names draft_page draft_shared in
     if per_block = 0 then Inl ZeroDivisionError
     else let n = available_memory div per_block in
     bindE (mapE (idx_tensor L n) [0..<length (idx_names L)]) (\<lambda>idx.
     Inr \<lparr>num_blocks = n,
          mla_shared_by = map (mla_sharers L draft_names draft_shared) [0..<length (mla_names L)],
          idx_tensors = idx,
          draft_tensors = map (\<lambda>name. (draft_page * n, [name])) (if draft_shared then [] else draft_names)\<rparr>))"

text \<open>
  \<open>_max_memory_usage_bytes_from_groups\<close> (EDIT\_MAXMEM): \<open>blocks\<close> is what the attention and mamba groups need, \<open>pages\<close>
  what vLLM says the drafter's group needs.
\<close>

definition max_memory_bytes ::
  "('m draft_spec \<Rightarrow> nat) \<Rightarrow> ((string \<times> 'm draft_spec) list \<Rightarrow> nat) \<Rightarrow> nat \<Rightarrow> 'm glm5_layout \<Rightarrow> nat res" where
  "max_memory_bytes page pages blocks L =
     (let blocks_needed = blocks + (if tail_names L \<noteq> [] then 1 else 0) in
      case draft_group L of
        None \<Rightarrow> Inr (blocks_needed * base_bytes L)
      | Some inner \<Rightarrow>
          bindE (first_page page inner) (\<lambda>draft_page.
          Inr ((blocks_needed + pages inner) *
               (base_bytes L + (if draft_page \<noteq> mla_page L then length inner * draft_page else 0)))))"

section \<open>Facts\<close>

text \<open>The page of a spec: the padded size if there is one, otherwise the tokens of a block times their bytes.\<close>

definition page_laws :: "('m draft_spec \<Rightarrow> nat) \<Rightarrow> ('m \<Rightarrow> nat) \<Rightarrow> bool" where
  "page_laws page token_bytes \<longleftrightarrow>
     (\<forall>s. page s = (case swa_page_size_padded s of None \<Rightarrow> swa_block_size s * token_bytes (swa_rest s) | Some p \<Rightarrow> p))"

lemma draft_of_iff: "draft_of (k, v) = [] \<longleftrightarrow> (\<forall>s. v \<noteq> Sliding_Window_Spec s)"
  by (cases v) auto

lemma partition_without_drafter:
  assumes "draft_specs_of specs = []"
  shows "glm5_partition has_mamba specs = map_option (\<lambda>attn. ([], attn)) (glm5_partition_old has_mamba specs)"
proof -
  have "\<forall>(k, v) \<in> set specs. draft_of ('''', v) = []"
    using assms by (auto simp: draft_specs_of_def draft_of_iff)
  then have "filter (\<lambda>(_, v). v \<notin> {Mamba_Spec, Kpool_Tail_Spec} \<and> draft_of ('''', v) = []) specs
      = filter (\<lambda>(_, v). v \<notin> {Mamba_Spec, Kpool_Tail_Spec}) specs" by (auto intro: filter_cong)
  with assms show ?thesis by (simp add: glm5_partition_def glm5_partition_old_def Let_def)
qed

lemma partition_old_with_drafter: "draft_specs_of specs \<noteq> [] \<Longrightarrow> glm5_partition_old has_mamba specs = None"
  by (force simp: draft_specs_of_def draft_of_iff glm5_partition_old_def Let_def list_all_iff)

text \<open>A built group: the layers as they were, each with the page of the MLA layers.\<close>

lemma built_group:
  assumes "build_draft_group page uniform mp mla_block names specs = Inr (Some inner)"
    and "page_laws page token_bytes" and "list_all (\<lambda>(_, s). swa_page_size_padded s = None) specs"
  shows "map fst inner = map fst specs" and "inner \<noteq> []" and "\<forall>(_, s) \<in> set inner. page s = mp"
    and "(\<forall>(_, s) \<in> set inner. swa_page_size_padded s = None) \<or>
      (\<forall>(_, s) \<in> set inner. swa_block_size s = 64 \<and> swa_page_size_padded s = Some mp)"
proof -
  obtain k any_draft rest where specs: "specs = (k, any_draft) # rest"
    using assms(1) by (cases specs) (auto simp: build_draft_group_def)
  let ?b = "page any_draft div swa_block_size any_draft"
  have same: "\<forall>(_, s) \<in> set specs. s = any_draft"
    and nz: "swa_block_size any_draft \<noteq> 0" "?b \<noteq> 0"
    using assms(1) by (auto simp: specs build_draft_group_def exc_simps list_all_iff Let_def split: if_splits)
  have "swa_page_size_padded any_draft = None" using assms(3) by (simp add: specs)
  then have b: "?b = token_bytes (swa_rest any_draft)" using assms(2) nz(1) by (simp add: page_laws_def)
  obtain exact where e: "exact_fit (fit_block mp ?b) mla_block (length specs) (length names) = Inr exact"
    and inner: "inner = (if exact then map (\<lambda>(name, s). (name, s\<lparr>swa_block_size := fit_block mp ?b\<rparr>)) specs
      else map (\<lambda>(name, s). (name, s\<lparr>swa_block_size := 64, swa_page_size_padded := Some mp\<rparr>)) specs)"
    using assms(1) by (auto simp: specs build_draft_group_def exc_simps Let_def split: if_splits)
  have fit: "fit_block mp ?b * ?b = mp" if exact
    using e that nz(2) by (auto simp: exact_fit_def fit_block_def split: if_splits)
  show "map fst inner = map fst specs" "inner \<noteq> []" using inner specs by auto
  show "\<forall>(_, s) \<in> set inner. page s = mp"
  proof (cases exact)
    case True
    with fit b have "fit_block mp ?b * token_bytes (swa_rest any_draft) = mp" by simp
    with True same assms(2,3) show ?thesis by (fastforce simp: inner page_laws_def list_all_iff)
  next
    case False
    with assms(2) show ?thesis by (auto simp: inner page_laws_def)
  qed
  show "(\<forall>(_, s) \<in> set inner. swa_page_size_padded s = None) \<or>
      (\<forall>(_, s) \<in> set inner. swa_block_size s = 64 \<and> swa_page_size_padded s = Some mp)"
    using assms(3) by (cases exact) (auto simp: inner list_all_iff)
qed

text \<open>Appended last, the drafter's group is the one that the layout detects.\<close>

lemma last_group_detected:
  assumes "inner \<noteq> []"
  shows "snd (snd (detect_groups (gs @ [map (\<lambda>(k, s). (k, Sliding_Window_Spec s)) inner]))) =
    Some (map (\<lambda>(k, s). (k, Sliding_Window_Spec s)) inner)"
proof -
  obtain k s rest where "inner = (k, s) # rest" using assms by (cases inner) auto
  then show ?thesis
    by (cases "detect_groups gs") (auto simp: detect_groups_def detect_group_def list_all_iff)
qed

lemma remdups_constant: "xs \<noteq> [] \<Longrightarrow> \<forall>x \<in> set xs. x = c \<Longrightarrow> remdups xs = [c]"
proof (induction xs)
  case (Cons x xs)
  then show ?case by (cases xs) auto
qed simp

lemma built_group_valid:
  assumes "build_draft_group page uniform mp mla_block names specs = Inr (Some inner)"
    and "page_laws page token_bytes" and "list_all (\<lambda>(_, s). swa_page_size_padded s = None) specs"
  shows "draft_group_valid page mp names (Some inner) \<longleftrightarrow> length specs \<le> length names"
proof -
  note b = built_group [OF assms]
  have "remdups (map (page \<circ> snd) inner) = [mp]"
    by (rule remdups_constant) (use b in fastforce)+
  moreover have "length inner = length specs" using b(1) by (metis length_map)
  ultimately show ?thesis using b(4) by (auto simp: draft_group_valid_def list_all_iff list_ex_iff)
qed

lemma idx_size:
  "mapE (idx_tensor L n) is = Inr ts \<Longrightarrow> sum_list (map fst ts) = length is * (idx_page L * n)"
proof (induction "is" arbitrary: ts)
  case (Cons i "is")
  then show ?case by (auto simp: exc_simps idx_tensor_def split: if_splits)
qed simp

lemma idx_tensor_draft [simp]: "idx_tensor (L\<lparr>draft_group := d\<rparr>) = idx_tensor L"
  by (auto simp: fun_eq_iff idx_tensor_def)

lemma draft_size: "sum_list (map fst (map (\<lambda>name. (s, [name])) xs)) = length xs * s"
  by (induction xs) auto

section \<open>Properties\<close>

text \<open>
  C38. The group built for the drafter is accepted by the layout exactly if there is an MLA tensor for each of its
  layers (no standalone tensors are ever made for it). Then the consumers extend what they computed for the model
  alone: the bytes per block, the number of blocks and the other tensors are unchanged, drafter layer i joins the
  owners of MLA tensor i, and a request is charged its blocks for the drafter at the old price.
\<close>

theorem drafter_rides_the_mla_tensors:
  assumes "build_draft_group page uniform (mla_page L) mla_block (mla_names L) specs = Inr (Some inner)"
    and "page_laws page token_bytes" and "list_all (\<lambda>(_, s). swa_page_size_padded s = None) specs"
    and "draft_group L = None" and "kv_cache_config_of page available L = Inr c"
    and "max_memory_bytes page pages blocks L = Inr m"
  shows "(draft_group_valid page (mla_page L) (mla_names L) (Some inner) \<longleftrightarrow> length specs \<le> length (mla_names L)) \<and>
    pool_bytes_per_block page (L\<lparr>draft_group := Some inner\<rparr>) = pool_bytes_per_block page L \<and>
    kv_cache_config_of page available (L\<lparr>draft_group := Some inner\<rparr>) =
      Inr (c\<lparr>mla_shared_by :=
        map (\<lambda>i. mla_shared_by c ! i @ (if i < length specs then [fst (specs ! i)] else []))
          [0..<length (mla_names L)]\<rparr>) \<and>
    max_memory_bytes page pages blocks (L\<lparr>draft_group := Some inner\<rparr>) = Inr (m + pages inner * base_bytes L)"
proof -
  note b = built_group [OF assms(1-3)]
  have len: "length inner = length specs" using b(1) by (metis length_map)
  have f: "first_page page inner = Inr (mla_page L)" using b(2,3) by (cases inner) (auto simp: first_page_def)
  have base: "base_bytes (L\<lparr>draft_group := Some inner\<rparr>) = base_bytes L" by (simp add: base_bytes_def)
  have nth: "fst (inner ! i) = fst (specs ! i)" if "i < length specs" for i
    using that b(1) len by (metis nth_map)
  have sh: "mla_sharers (L\<lparr>draft_group := Some inner\<rparr>) (map fst inner) True i =
      mla_sharers L [] False i @ (if i < length specs then [fst (specs ! i)] else [])" for i
    using nth len by (simp add: mla_sharers_def)
  have "kv_cache_config_of page available (L\<lparr>draft_group := Some inner\<rparr>) =
      Inr (c\<lparr>mla_shared_by :=
        map (\<lambda>i. mla_shared_by c ! i @ (if i < length specs then [fst (specs ! i)] else []))
          [0..<length (mla_names L)]\<rparr>)"
    using assms(4,5) f
    by (auto simp: kv_cache_config_of_def draft_mode_def config_per_block_def base sh Let_def exc_simps
        split: if_splits)
  moreover have "pool_bytes_per_block page (L\<lparr>draft_group := Some inner\<rparr>) = pool_bytes_per_block page L"
    using f by (simp add: pool_bytes_per_block_def base assms(4))
  moreover have "max_memory_bytes page pages blocks (L\<lparr>draft_group := Some inner\<rparr>) = Inr (m + pages inner * base_bytes L)"
    using assms(4,6) f by (auto simp: max_memory_bytes_def base Let_def add_mult_distrib)
  ultimately show ?thesis using built_group_valid [OF assms(1-3)] by blast
qed

definition demo_page :: "nat draft_spec \<Rightarrow> nat" where
  "demo_page s = (case swa_page_size_padded s of None \<Rightarrow> swa_block_size s * swa_rest s | Some p \<Rightarrow> p)"

definition demo_drafter :: "(string \<times> nat draft_spec) list" where
  "demo_drafter = [(''d0'', \<lparr>swa_block_size = 1152, swa_page_size_padded = None, swa_rest = 4096\<rparr>)]"

definition demo_layout :: "nat glm5_layout" where
  "demo_layout = \<lparr>mamba_groups = [[''s0'', ''s1'']], mla_names = [''m0'', ''m1''], idx_names = [''i0''],
     mla_page = 755712, idx_page = 1000, tail_names = [''t0''], draft_group = None\<rparr>"

text \<open>656 bytes per token of MLA in blocks of 1152: no exact fit, so the block is 64 and the page is padded.\<close>

theorem drafter_rides_the_mla_tensors_witness:
  "kv_cache_config_of demo_page 15124240 (demo_layout\<lparr>draft_group :=
      Some [(''d0'', \<lparr>swa_block_size = 64, swa_page_size_padded = Some 755712, swa_rest = 4096\<rparr>)]\<rparr>) =
    Inr \<lparr>num_blocks = 10, mla_shared_by = [[''m0'', ''s0'', ''d0''], [''m1'', ''s1'']],
         idx_tensors = [(10000, [''i0'', ''t0''])], draft_tensors = []\<rparr>"
proof -
  have laws: "page_laws demo_page (\<lambda>n. n)" by (simp add: page_laws_def demo_page_def)
  have b: "build_draft_group demo_page (\<lambda>_. True) (mla_page demo_layout) 1152 (mla_names demo_layout) demo_drafter
      = Inr (Some [(''d0'', \<lparr>swa_block_size = 64, swa_page_size_padded = Some 755712, swa_rest = 4096\<rparr>)])"
    by (simp add: build_draft_group_def demo_drafter_def demo_layout_def demo_page_def fit_block_def exact_fit_def)
  have u: "list_all (\<lambda>(_, s). swa_page_size_padded s = None) demo_drafter" by (simp add: demo_drafter_def)
  have d: "draft_group demo_layout = None" by (simp add: demo_layout_def)
  have c: "kv_cache_config_of demo_page 15124240 demo_layout =
    Inr \<lparr>num_blocks = 10, mla_shared_by = [[''m0'', ''s0''], [''m1'', ''s1'']],
         idx_tensors = [(10000, [''i0'', ''t0''])], draft_tensors = []\<rparr>"
    by (simp add: kv_cache_config_of_def demo_layout_def draft_mode_def config_per_block_def base_bytes_def
        idx_tensor_def mla_sharers_def Let_def upt_rec)
  have m: "max_memory_bytes demo_page (\<lambda>_. 49) 3 demo_layout = Inr (4 * base_bytes demo_layout)"
    by (simp add: max_memory_bytes_def demo_layout_def)
  from drafter_rides_the_mla_tensors [OF b laws u d c m] show ?thesis
    by (simp add: demo_layout_def demo_drafter_def upt_rec)
qed

text \<open>
  C39. The three consumers count the same bytes per block for every layout, with or without a drafter and in both of
  its modes, and the tensors of the configuration stay within the available memory.
\<close>

theorem kv_consumers_agree:
  assumes "kv_cache_config_of page available L = Inr c"
  shows "\<exists>b. pool_bytes_per_block page L = Inr b \<and> num_blocks c = available div b \<and>
    max_memory_bytes page pages blocks L =
      Inr ((blocks + (if tail_names L \<noteq> [] then 1 else 0) +
            (case draft_group L of None \<Rightarrow> 0 | Some inner \<Rightarrow> pages inner)) * b) \<and>
    length (mla_names L) * (mla_page L * num_blocks c) + sum_list (map fst (idx_tensors c)) +
      sum_list (map fst (draft_tensors c)) = b * num_blocks c \<and>
    b * num_blocks c \<le> available"
proof -
  obtain names dp shared where m: "draft_mode page L = Inr (names, dp, shared)"
    using assms by (cases "draft_mode page L") (auto simp: kv_cache_config_of_def)
  let ?b = "config_per_block L names dp shared"
  have n: "num_blocks c = available div ?b"
    and i: "mapE (idx_tensor L (num_blocks c)) [0..<length (idx_names L)] = Inr (idx_tensors c)"
    and d: "draft_tensors c = map (\<lambda>name. (dp * num_blocks c, [name])) (if shared then [] else names)"
    using assms m by (auto simp: kv_cache_config_of_def Let_def exc_simps split: if_splits)
  have "pool_bytes_per_block page L = Inr ?b \<and> max_memory_bytes page pages blocks L =
      Inr ((blocks + (if tail_names L \<noteq> [] then 1 else 0) +
            (case draft_group L of None \<Rightarrow> 0 | Some inner \<Rightarrow> pages inner)) * ?b)"
  proof (cases "draft_group L")
    case None
    with m show ?thesis
      by (simp add: draft_mode_def pool_bytes_per_block_def max_memory_bytes_def config_per_block_def)
  next
    case (Some inner)
    with m obtain k s rest where inner: "inner = (k, s) # rest"
      by (cases inner) (auto simp: draft_mode_def first_page_def)
    have "names = map fst inner" "dp = page s" "shared = (page s = mla_page L)"
      using m by (auto simp: draft_mode_def first_page_def Some inner)
    then show ?thesis
      by (simp add: pool_bytes_per_block_def max_memory_bytes_def config_per_block_def first_page_def Some inner Let_def)
  qed
  then have p: "pool_bytes_per_block page L = Inr ?b" and x: "max_memory_bytes page pages blocks L =
      Inr ((blocks + (if tail_names L \<noteq> [] then 1 else 0) +
            (case draft_group L of None \<Rightarrow> 0 | Some inner \<Rightarrow> pages inner)) * ?b)" by blast+
  have s: "length (mla_names L) * (mla_page L * num_blocks c) + sum_list (map fst (idx_tensors c)) +
      sum_list (map fst (draft_tensors c)) = ?b * num_blocks c"
    using idx_size [OF i] draft_size [of "dp * num_blocks c" names]
    by (simp add: d config_per_block_def base_bytes_def algebra_simps)
  show ?thesis
    by (rule exI [of _ ?b]) (use p x s n in auto)
qed

theorem kv_consumers_agree_witness:
  "\<exists>b. pool_bytes_per_block demo_page demo_layout = Inr b \<and> b * 10 \<le> 15124240"
proof -
  have c: "kv_cache_config_of demo_page 15124240 demo_layout =
    Inr \<lparr>num_blocks = 10, mla_shared_by = [[''m0'', ''s0''], [''m1'', ''s1'']],
         idx_tensors = [(10000, [''i0'', ''t0''])], draft_tensors = []\<rparr>"
    by (simp add: kv_cache_config_of_def demo_layout_def draft_mode_def config_per_block_def base_bytes_def
        idx_tensor_def mla_sharers_def Let_def upt_rec)
  from kv_consumers_agree [OF c, of undefined 0] show ?thesis by auto
qed

end
