(* ===== verification/FlashMeta.thy ===== *)
theory FlashMeta
  imports Prelude "HOL-Library.Word"
begin

text \<open>
  \<open>flashmla_sparse.py\<close>, the metadata: how the builder turns a batch (decode requests first, prefill requests
  after them) into the tensors the sparse attention runs on. A tensor is a list, a matrix a list of rows;
  the tensor of workspace offsets keeps its 32 bits. Prefills are cut into chunks that fit the workspace.
\<close>

section \<open>Tensors\<close>

definition tensor_at :: "'a list \<Rightarrow> nat \<Rightarrow> 'a res" where
  "tensor_at xs i = (if i < length xs then Inr (xs ! i) else Inl IndexError)"

definition tensor_slice :: "'a list \<Rightarrow> nat \<Rightarrow> nat \<Rightarrow> 'a list" where
  "tensor_slice xs a b = take (b - a) (drop a xs)"

text \<open>\<open>xs[a:b] = v\<close>, \<open>xs[a:b] -= v\<close> and \<open>xs[a:b] = vs\<close>; the last one needs as many values as places.\<close>

definition map_slice :: "('a \<Rightarrow> 'a) \<Rightarrow> 'a list \<Rightarrow> nat \<Rightarrow> nat \<Rightarrow> 'a list" where
  "map_slice f xs a b = map (\<lambda>i. if a \<le> i \<and> i < b then f (xs ! i) else xs ! i) [0..<length xs]"

definition put_slice :: "'a list \<Rightarrow> nat \<Rightarrow> nat \<Rightarrow> 'a list \<Rightarrow> 'a list res" where
  "put_slice xs a b vs =
     (if length vs \<noteq> length (tensor_slice xs a b) then Inl RuntimeError
      else Inr (map (\<lambda>i. if a \<le> i \<and> i < b then vs ! (i - a) else xs ! i) [0..<length xs]))"

lemma length_slice [simp]: "length (tensor_slice xs a b) = min (b - a) (length xs - a)"
  by (simp add: tensor_slice_def)

lemma nth_slice: "i < b - a \<Longrightarrow> a + i < length xs \<Longrightarrow> tensor_slice xs a b ! i = xs ! (a + i)"
  by (simp add: tensor_slice_def)

lemma map_slice_nth [simp]:
  "length (map_slice f xs a b) = length xs"
  "i < length xs \<Longrightarrow> map_slice f xs a b ! i = (if a \<le> i \<and> i < b then f (xs ! i) else xs ! i)"
  by (simp_all add: map_slice_def)

lemma tensor_at_Inr [simp]: "i < length xs \<Longrightarrow> tensor_at xs i = Inr (xs ! i)"
  by (simp add: tensor_at_def)

section \<open>The batch and the metadata\<close>

record batch =
  cm_num_reqs :: nat
  cm_num_actual_tokens :: nat
  cm_max_query_len :: nat
  cm_max_seq_len :: nat
  cm_query_start_loc :: "nat list"
  cm_seq_lens :: "nat list"
  cm_seq_lens_cpu_upper_bound :: "nat list option"
  cm_slot_mapping :: "nat list"
  cm_block_table :: "nat list list"

record 's kernel_metadata =
  km_scheduler_metadata :: 's
  km_dummy_rows :: nat
  km_cache_lens :: "nat list"

text \<open>\<open>ch_starts\<close> is a view of the prefill's \<open>workspace_starts\<close>, which is filled after the chunks are made.\<close>

record chunk_metadata =
  ch_seq_lens :: "nat list"
  ch_tokens :: "nat \<times> nat"
  ch_block_table :: "nat list list"
  ch_req_start :: nat
  ch_starts :: "nat \<times> nat"
  ch_tot_seqlen :: nat

record prefill_metadata =
  pf_seq_lens :: "nat list"
  pf_request_ids :: "int list"
  pf_workspace_starts :: "32 word list"
  pf_chunks :: "chunk_metadata list"

record 's decode_metadata =
  de_seq_lens :: "nat list"
  de_kernel :: "'s kernel_metadata"
  de_query_len :: int

record 's separate_metadata =
  sp_num_prefills :: nat
  sp_num_decodes :: nat
  sp_num_prefill_tokens :: nat
  sp_num_decode_tokens :: nat
  sp_decode :: "'s decode_metadata option"
  sp_prefill :: "prefill_metadata option"

datatype 's fp8_metadata = MixedBatch "'s kernel_metadata" | Separate "'s separate_metadata"

record 's sparse_metadata =
  md_num_reqs :: nat
  md_max_query_len :: nat
  md_max_seq_len :: nat
  md_num_actual_tokens :: nat
  md_query_start_loc :: "nat list"
  md_slot_mapping :: "nat list"
  md_block_table :: "nat list list"
  md_req_id_per_token :: "nat list"
  md_block_size :: nat
  md_topk_tokens :: nat
  md_fp8_extra :: "'s fp8_metadata option"
  md_fp8_use_mixed_batch :: bool

section \<open>vLLM's part of the builder\<close>

text \<open>
  \<open>split_decodes_and_prefills\<close> (with the decode threshold) answers with the numbers of decode and prefill
  requests and tokens, \<open>split_prefill_chunks\<close> with the request ranges of the chunks, and
  \<open>get_mla_metadata\<close> with the scheduler's metadata, from the arguments it is given or from none.
\<close>

record 's builder_lib =
  split_decodes :: "nat \<Rightarrow> batch \<Rightarrow> nat \<times> nat \<times> nat \<times> nat"
  split_bounds :: "nat list \<Rightarrow> nat \<Rightarrow> (nat \<times> nat) list"
  mla_metadata :: "(nat list \<times> nat \<times> nat \<times> nat) option \<Rightarrow> 's"

record builder =
  bu_num_heads :: nat
  bu_topk_tokens :: nat
  bu_cache_dtype :: string
  bu_max_num_seqs :: nat
  bu_max_model_len :: nat
  bu_max_num_batched_tokens :: nat
  bu_block_size :: nat
  bu_reorder_batch_threshold :: "nat option"

section \<open>The builder\<close>

definition MIN_HEADS_FOR_BF16_PREFILL :: nat where
  "MIN_HEADS_FOR_BF16_PREFILL = 32"

definition get_prefill_workspace_size :: "nat \<Rightarrow> nat" where
  "get_prefill_workspace_size max_model_len = max_model_len * 5"

definition fp8_decode_padded_heads :: "nat \<Rightarrow> nat" where
  "fp8_decode_padded_heads num_heads = (if num_heads \<le> 64 then 64 else 128)"

definition topk_tokens_tensor :: "builder \<Rightarrow> nat list" where
  "topk_tokens_tensor B = replicate (bu_max_num_seqs B) (bu_topk_tokens B)"

definition max_model_len_tensor :: "builder \<Rightarrow> nat list" where
  "max_model_len_tensor B = replicate (bu_max_num_seqs B) (bu_max_model_len B)"

definition build_mixed :: "'s builder_lib \<Rightarrow> builder \<Rightarrow> batch \<Rightarrow> 's kernel_metadata" where
  "build_mixed L B cm =
     (let padded_heads = fp8_decode_padded_heads (bu_num_heads B)
      in \<lparr>km_scheduler_metadata =
            mla_metadata L (Some (take 1 (topk_tokens_tensor B), cm_num_actual_tokens cm * padded_heads,
                                  bu_topk_tokens B, padded_heads)),
          km_dummy_rows = min 1 (bu_max_num_seqs B),
          km_cache_lens = take 1 (max_model_len_tensor B)\<rparr>)"

text \<open>-1 for the tokens of decode requests, the index of the prefill request for the others.\<close>

definition prefill_request_ids :: "batch \<Rightarrow> nat \<Rightarrow> nat \<Rightarrow> int list res" where
  "prefill_request_ids cm num_decodes num_prefills =
     foldE (\<lambda>req_idx ids.
         let global_req_idx = num_decodes + req_idx in
         bindE (tensor_at (cm_query_start_loc cm) global_req_idx) (\<lambda>req_query_start.
         bindE (tensor_at (cm_query_start_loc cm) (global_req_idx + 1)) (\<lambda>req_query_end.
           Inr (map_slice (\<lambda>_. int req_idx) ids req_query_start req_query_end))))
       [0..<num_prefills] (replicate (cm_num_actual_tokens cm) (-1))"

text \<open>
  The offsets of the requests in one workspace that holds them all: the cumulative sums, cut to the 32 bits
  of the tensor. A tensor of another length than \<open>num_prefills\<close> does not fit into it.
\<close>

definition initial_workspace_starts :: "nat list \<Rightarrow> nat \<Rightarrow> 32 word list res" where
  "initial_workspace_starts lens num_prefills =
     (if length lens \<noteq> num_prefills then Inl RuntimeError
      else Inr (map (\<lambda>r. of_nat (sum_list (take r lens))) [0..<num_prefills]))"

text \<open>One chunk of requests: its offsets are moved to start at 0.\<close>

definition add_chunk ::
  "batch \<Rightarrow> nat \<Rightarrow> nat list \<Rightarrow> nat list \<Rightarrow> nat \<times> nat \<Rightarrow> 32 word list \<times> chunk_metadata list
   \<Rightarrow> (32 word list \<times> chunk_metadata list) res" where
  "add_chunk cm num_decodes prefill_seq_lens prefill_seq_lens_cpu = (\<lambda>(chunk_start, chunk_end) (starts, chunks).
     bindE (tensor_at starts chunk_start) (\<lambda>offset.
     let starts = map_slice (\<lambda>s. s - offset) starts chunk_start chunk_end in
     bindE (tensor_at (cm_query_start_loc cm) (num_decodes + chunk_start)) (\<lambda>token_start.
     bindE (tensor_at (cm_query_start_loc cm) (num_decodes + chunk_end)) (\<lambda>token_end.
       Inr (starts, chunks @
         [\<lparr>ch_seq_lens = tensor_slice prefill_seq_lens chunk_start chunk_end,
           ch_tokens = (token_start, token_end),
           ch_block_table = tensor_slice (cm_block_table cm) (num_decodes + chunk_start) (num_decodes + chunk_end),
           ch_req_start = chunk_start,
           ch_starts = (chunk_start, chunk_end),
           ch_tot_seqlen = sum_list (tensor_slice prefill_seq_lens_cpu chunk_start chunk_end)\<rparr>])))))"

definition build_prefill ::
  "'s builder_lib \<Rightarrow> builder \<Rightarrow> batch \<Rightarrow> nat \<Rightarrow> nat \<Rightarrow> prefill_metadata res" where
  "build_prefill L B cm num_decodes num_prefills =
     (case cm_seq_lens_cpu_upper_bound cm of
        None \<Rightarrow> Inl AssertionError
      | Some seq_lens_cpu \<Rightarrow>
          (let prefill_seq_lens_cpu = drop num_decodes seq_lens_cpu;
               prefill_seq_lens = drop num_decodes (cm_seq_lens cm) in
           bindE (prefill_request_ids cm num_decodes num_prefills) (\<lambda>request_ids.
           bindE (initial_workspace_starts prefill_seq_lens_cpu num_prefills) (\<lambda>starts0.
           let chunk_bounds = split_bounds L prefill_seq_lens_cpu (get_prefill_workspace_size (bu_max_model_len B)) in
           bindE (foldE (add_chunk cm num_decodes prefill_seq_lens prefill_seq_lens_cpu) chunk_bounds (starts0, []))
             (\<lambda>(starts, chunks).
               Inr \<lparr>pf_seq_lens = prefill_seq_lens, pf_request_ids = request_ids,
                    pf_workspace_starts = starts, pf_chunks = chunks\<rparr>)))))"

definition build_decode ::
  "'s builder_lib \<Rightarrow> builder \<Rightarrow> batch \<Rightarrow> nat \<Rightarrow> 's decode_metadata res" where
  "build_decode L B cm num_decodes =
     bindE (tensor_at (cm_query_start_loc cm) 1) (\<lambda>q1.
     bindE (tensor_at (cm_query_start_loc cm) 0) (\<lambda>q0.
       Inr \<lparr>de_seq_lens = take num_decodes (cm_seq_lens cm),
            de_kernel = \<lparr>km_scheduler_metadata = mla_metadata L None,
                         km_dummy_rows = min num_decodes (bu_max_num_seqs B),
                         km_cache_lens = take num_decodes (max_model_len_tensor B)\<rparr>,
            de_query_len = int q1 - int q0\<rparr>))"

definition optionally :: "bool \<Rightarrow> 'a res \<Rightarrow> 'a option res" where
  "optionally c m = (if c then bindE m (\<lambda>x. Inr (Some x)) else Inr None)"

text \<open>\<open>reorder_batch_threshold or 1\<close>: a threshold of 0 counts as 1, too.\<close>

definition decode_threshold :: "builder \<Rightarrow> nat" where
  "decode_threshold B = (case bu_reorder_batch_threshold B of None \<Rightarrow> 1 | Some t \<Rightarrow> if t = 0 then 1 else t)"

definition build_separate :: "'s builder_lib \<Rightarrow> builder \<Rightarrow> batch \<Rightarrow> 's separate_metadata res" where
  "build_separate L B cm =
     (case split_decodes L (decode_threshold B) cm of
        (num_decodes, num_prefills, num_decode_tokens, num_prefill_tokens) \<Rightarrow>
          bindE (optionally (0 < num_prefills) (build_prefill L B cm num_decodes num_prefills)) (\<lambda>prefill.
          bindE (optionally (0 < num_decodes) (build_decode L B cm num_decodes)) (\<lambda>decode.
            Inr \<lparr>sp_num_prefills = num_prefills, sp_num_decodes = num_decodes,
                 sp_num_prefill_tokens = num_prefill_tokens, sp_num_decode_tokens = num_decode_tokens,
                 sp_decode = decode, sp_prefill = prefill\<rparr>)))"

text \<open>\<open>np.repeat\<close> of the request indices, copied into a buffer of zeros, of which the batch's tokens are taken.\<close>

definition segment_lengths :: "nat list \<Rightarrow> nat list" where
  "segment_lengths starts = map (\<lambda>(a, b). b - a) (zip starts (tl starts))"

definition repeat_ids :: "nat list \<Rightarrow> nat list" where
  "repeat_ids lens = concat (map (\<lambda>i. replicate (lens ! i) i) [0..<length lens])"

definition req_id_per_token :: "builder \<Rightarrow> batch \<Rightarrow> nat list res" where
  "req_id_per_token B cm =
     (let ids = repeat_ids (segment_lengths (cm_query_start_loc cm)); n = bu_max_num_batched_tokens B
      in if n < length ids then Inl RuntimeError
         else Inr (take (cm_num_actual_tokens cm) (ids @ replicate (n - length ids) 0)))"

definition use_mixed_batch :: "builder \<Rightarrow> bool" where
  "use_mixed_batch B \<longleftrightarrow> bu_num_heads B < MIN_HEADS_FOR_BF16_PREFILL"

definition build :: "'s builder_lib \<Rightarrow> builder \<Rightarrow> batch \<Rightarrow> 's sparse_metadata res" where
  "build L B cm =
     bindE (req_id_per_token B cm) (\<lambda>ids.
     bindE (optionally (bu_cache_dtype B = ''fp8_ds_mla'')
              (if use_mixed_batch B then Inr (MixedBatch (build_mixed L B cm))
               else bindE (build_separate L B cm) (\<lambda>m. Inr (Separate m)))) (\<lambda>extra.
       Inr \<lparr>md_num_reqs = cm_num_reqs cm, md_max_query_len = cm_max_query_len cm,
            md_max_seq_len = cm_max_seq_len cm, md_num_actual_tokens = cm_num_actual_tokens cm,
            md_query_start_loc = cm_query_start_loc cm, md_slot_mapping = cm_slot_mapping cm,
            md_block_table = cm_block_table cm, md_req_id_per_token = ids, md_block_size = bu_block_size B,
            md_topk_tokens = bu_topk_tokens B, md_fp8_extra = extra,
            md_fp8_use_mixed_batch = use_mixed_batch B\<rparr>))"

end
