(* ===== verification/FlashFacts.thy ===== *)
theory FlashFacts
  imports FlashMeta
begin

text \<open>
  What the builder's metadata holds for a well-formed batch: every token has the id of its request, and in
  each chunk the workspace offsets are the running sums of the lengths of its requests, starting at 0,
  whatever the 32-bit sums over the whole batch were.
\<close>

section \<open>Well-formed batches and vLLM's part\<close>

definition batch_ok :: "builder \<Rightarrow> batch \<Rightarrow> bool" where
  "batch_ok B cm \<longleftrightarrow>
     length (cm_query_start_loc cm) = Suc (cm_num_reqs cm) \<and> sorted (cm_query_start_loc cm) \<and>
     cm_query_start_loc cm ! 0 = 0 \<and> last (cm_query_start_loc cm) = cm_num_actual_tokens cm \<and>
     cm_num_actual_tokens cm \<le> bu_max_num_batched_tokens B \<and>
     length (cm_seq_lens cm) = cm_num_reqs cm \<and> length (cm_block_table cm) = cm_num_reqs cm \<and>
     list_all (\<lambda>n. n \<le> bu_max_model_len B) (cm_seq_lens cm)"

text \<open>The ranges \<open>(a, b)\<close> of a list follow one another from \<open>a\<close> to \<open>n\<close>.\<close>

fun tiles :: "nat \<Rightarrow> nat \<Rightarrow> (nat \<times> nat) list \<Rightarrow> bool" where
  "tiles a n [] = (a = n)"
| "tiles a n ((x, y) # bs) = (x = a \<and> x < y \<and> y \<le> n \<and> tiles y n bs)"

text \<open>
  The documented results for this batch: decode requests first, all with the same number of tokens; the upper
  bound of the lengths is exact for prefills; the chunks cover the prefills in order, and a chunk of more
  than one request fits the workspace.
\<close>

definition split_ok :: "'s builder_lib \<Rightarrow> batch \<Rightarrow> bool" where
  "split_ok L cm \<longleftrightarrow>
     (\<forall>threshold. case split_decodes L threshold cm of (nd, np, ndt, npt) \<Rightarrow>
        nd + np = cm_num_reqs cm \<and> ndt = cm_query_start_loc cm ! nd \<and>
        npt = cm_num_actual_tokens cm - ndt \<and>
        (\<forall>r < nd. cm_query_start_loc cm ! r = r * (cm_query_start_loc cm ! 1)) \<and>
        (0 < nd \<longrightarrow> ndt = nd * (cm_query_start_loc cm ! 1) \<and> 0 < ndt) \<and>
        (0 < np \<longrightarrow> 0 < npt) \<and>
        map_option (drop nd) (cm_seq_lens_cpu_upper_bound cm) = Some (drop nd (cm_seq_lens cm)))"

definition bounds_ok :: "'s builder_lib \<Rightarrow> bool" where
  "bounds_ok L \<longleftrightarrow>
     (\<forall>lens ws. tiles 0 (length lens) (split_bounds L lens ws) \<and>
        (\<forall>(x, y) \<in> set (split_bounds L lens ws). Suc x < y \<longrightarrow> sum_list (tensor_slice lens x y) \<le> ws))"

lemma tiles_range: "tiles a n bs \<Longrightarrow> (x, y) \<in> set bs \<Longrightarrow> a \<le> x \<and> x < y \<and> y \<le> n"
  by (induction a n bs rule: tiles.induct) fastforce+

lemma tiles_le: "tiles a n bs \<Longrightarrow> a \<le> n"
  by (induction a n bs rule: tiles.induct) auto

lemma tiles_cover: "tiles a n bs \<Longrightarrow> a \<le> i \<Longrightarrow> i < n \<Longrightarrow> \<exists>(x, y) \<in> set bs. x \<le> i \<and> i < y"
proof (induction a n bs rule: tiles.induct)
  case (2 a n x y bs)
  then show ?case by (cases "i < y") (auto simp: not_less)
qed simp

lemma foldE_append: "foldE f (xs @ ys) s = bindE (foldE f xs s) (foldE f ys)"
  by (induction xs arbitrary: s) (auto simp: bindE_def split: sum.splits)

lemma concat_nth_at:
  assumes "r < length xss" and "i < length (xss ! r)"
  shows "concat xss ! (sum_list (map length (take r xss)) + i) = xss ! r ! i"
proof -
  have "concat xss = concat (take r xss) @ xss ! r @ concat (drop (Suc r) xss)"
    by (subst id_take_nth_drop [OF assms(1)]) simp
  with assms(2) show ?thesis by (simp add: nth_append length_concat)
qed

lemma concat_rows_at:
  assumes "length lens = n"
  shows "length (concat (map (\<lambda>r. map (g r) [0..<lens ! r]) [0..<n])) = sum_list lens"
    and "r < n \<Longrightarrow> i < lens ! r \<Longrightarrow>
      concat (map (\<lambda>r. map (g r) [0..<lens ! r]) [0..<n]) ! (sum_list (take r lens) + i) = g r i"
proof -
  let ?xss = "map (\<lambda>r. map (g r) [0..<lens ! r]) [0..<n]"
  have l: "map length ?xss = lens" using assms by (auto simp: comp_def map_nth)
  then show "length (concat ?xss) = sum_list lens" by (simp add: length_concat)
  assume r: "r < n" "i < lens ! r"
  have "sum_list (map length (take r ?xss)) = sum_list (take r lens)" using l by (simp add: take_map [symmetric])
  with concat_nth_at [of r ?xss i] r show "concat ?xss ! (sum_list (take r lens) + i) = g r i" by simp
qed

section \<open>Request ids\<close>

lemma sum_slice: "x \<le> y \<Longrightarrow> y \<le> length xs \<Longrightarrow> sum_list (take y xs) = sum_list (take x xs) + sum_list (tensor_slice xs x y :: nat list)"
  using take_add [of x "y - x" xs] by (simp add: tensor_slice_def)

lemma prefill_request_ids_ok:
  assumes "length (cm_query_start_loc cm) = Suc (cm_num_reqs cm)" "sorted (cm_query_start_loc cm)"
    and "k \<le> np" "nd + np = cm_num_reqs cm"
  shows "\<exists>ids. foldE (\<lambda>req_idx ids.
         let global_req_idx = nd + req_idx in
         bindE (tensor_at (cm_query_start_loc cm) global_req_idx) (\<lambda>req_query_start.
         bindE (tensor_at (cm_query_start_loc cm) (global_req_idx + 1)) (\<lambda>req_query_end.
           Inr (map_slice (\<lambda>_. int req_idx) ids req_query_start req_query_end))))
       [0..<k] (replicate n (-1)) = Inr ids \<and> length ids = n \<and>
     (\<forall>t < n. t < cm_query_start_loc cm ! nd \<longrightarrow> ids ! t = -1) \<and>
     (\<forall>r < k. \<forall>t < n. cm_query_start_loc cm ! (nd + r) \<le> t \<and> t < cm_query_start_loc cm ! (nd + r + 1)
        \<longrightarrow> ids ! t = int r)"
  using assms(3)
proof (induction k)
  case (Suc k)
  let ?qs = "cm_query_start_loc cm"
  from Suc obtain ids where ids: "foldE (\<lambda>req_idx ids.
         let global_req_idx = nd + req_idx in
         bindE (tensor_at ?qs global_req_idx) (\<lambda>req_query_start.
         bindE (tensor_at ?qs (global_req_idx + 1)) (\<lambda>req_query_end.
           Inr (map_slice (\<lambda>_. int req_idx) ids req_query_start req_query_end))))
       [0..<k] (replicate n (-1)) = Inr ids" and l: "length ids = n"
    and d: "\<And>t. t < n \<Longrightarrow> t < ?qs ! nd \<Longrightarrow> ids ! t = -1"
    and p: "\<And>r t. r < k \<Longrightarrow> t < n \<Longrightarrow> ?qs ! (nd + r) \<le> t \<and> t < ?qs ! (nd + r + 1) \<Longrightarrow> ids ! t = int r"
    by auto
  have b: "nd + k + 1 < length ?qs" using Suc.prems assms by simp
  have mono: "?qs ! i \<le> ?qs ! j" if "i \<le> j" "j < length ?qs" for i j
    using assms(2) that by (simp add: sorted_nth_mono)
  let ?ids = "map_slice (\<lambda>_. int k) ids (?qs ! (nd + k)) (?qs ! (nd + k + 1))"
  have "?ids ! t = -1" if "t < n" "t < ?qs ! nd" for t
    using d [OF that] mono [of nd "nd + k"] b that l by simp
  moreover have "?ids ! t = int r"
    if "r < Suc k" "t < n" "?qs ! (nd + r) \<le> t \<and> t < ?qs ! (nd + r + 1)" for r t
  proof (cases "r = k")
    case False
    then have "?qs ! (nd + r + 1) \<le> ?qs ! (nd + k)" using mono [of "nd + r + 1" "nd + k"] b that(1) by simp
    with p [of r t] that False l show ?thesis by simp
  qed (use that l in simp)
  ultimately show ?case using ids l b by (auto simp: foldE_append Let_def)
qed simp

section \<open>Chunks\<close>

definition chunk_of :: "batch \<Rightarrow> nat \<Rightarrow> nat list \<Rightarrow> nat \<times> nat \<Rightarrow> chunk_metadata" where
  "chunk_of cm nd lens = (\<lambda>(x, y).
     \<lparr>ch_seq_lens = tensor_slice lens x y,
      ch_tokens = (cm_query_start_loc cm ! (nd + x), cm_query_start_loc cm ! (nd + y)),
      ch_block_table = tensor_slice (cm_block_table cm) (nd + x) (nd + y),
      ch_req_start = x, ch_starts = (x, y), ch_tot_seqlen = sum_list (tensor_slice lens x y)\<rparr>)"

lemma add_chunks_ok:
  assumes "tiles a n bounds" and "n = length lens" and "length starts = n"
    and "nd + n < length (cm_query_start_loc cm)"
    and "\<And>r. a \<le> r \<Longrightarrow> r < n \<Longrightarrow> starts ! r = of_nat (sum_list (take r lens))"
  shows "\<exists>starts'. foldE (add_chunk cm nd lens lens) bounds (starts, chunks)
      = Inr (starts', chunks @ map (chunk_of cm nd lens) bounds) \<and> length starts' = n \<and>
    (\<forall>r < a. starts' ! r = starts ! r) \<and>
    (\<forall>(x, y) \<in> set bounds. \<forall>r. x \<le> r \<and> r < y \<longrightarrow> starts' ! r = of_nat (sum_list (tensor_slice lens x r)))"
  using assms
proof (induction a n bounds arbitrary: starts chunks rule: tiles.induct)
  case (2 a n x y bs)
  then have xy: "x = a" "x < y" "y \<le> n" and t: "tiles y n bs" by auto
  let ?starts = "map_slice (\<lambda>s. s - starts ! x) starts x y"
  have at: "?starts ! r = of_nat (sum_list (tensor_slice lens x r))" if "x \<le> r" "r < y" for r
    using 2(6) [of x] 2(6) [of r] xy that 2(3,4) sum_slice [of x r lens] by simp
  have later: "?starts ! r = of_nat (sum_list (take r lens))" if "y \<le> r" "r < n" for r
    using 2(6) [of r] xy that 2(4) by simp
  have l: "length ?starts = n" using 2(4) by simp
  obtain starts' where
    s: "foldE (add_chunk cm nd lens lens) bs (?starts, chunks @ [chunk_of cm nd lens (x, y)])
      = Inr (starts', (chunks @ [chunk_of cm nd lens (x, y)]) @ map (chunk_of cm nd lens) bs)"
    "length starts' = n" "\<forall>r < y. starts' ! r = ?starts ! r"
    "\<forall>(x, y) \<in> set bs. \<forall>r. x \<le> r \<and> r < y \<longrightarrow> starts' ! r = of_nat (sum_list (tensor_slice lens x r))"
    using 2(1) [OF t 2(3) l 2(5) later, of "chunks @ [chunk_of cm nd lens (x, y)]"] by blast
  have "add_chunk cm nd lens lens (x, y) (starts, chunks) = Inr (?starts, chunks @ [chunk_of cm nd lens (x, y)])"
    using xy 2(3-5) by (simp add: add_chunk_def chunk_of_def Let_def)
  moreover have "\<forall>r < a. starts' ! r = starts ! r" using s(3) xy 2(4) by auto
  moreover have "\<forall>r. x \<le> r \<and> r < y \<longrightarrow> starts' ! r = of_nat (sum_list (tensor_slice lens x r))"
    using s(3) at by auto
  ultimately show ?case using s by auto
qed simp

section \<open>The prefill part\<close>

definition token_of :: "batch \<Rightarrow> nat \<Rightarrow> nat \<Rightarrow> bool" where
  "token_of cm r t \<longleftrightarrow> cm_query_start_loc cm ! r \<le> t \<and> t < cm_query_start_loc cm ! Suc r"

lemma build_prefill_ok:
  assumes "batch_ok B cm" and "bounds_ok L" and "nd + np = cm_num_reqs cm"
    and "map_option (drop nd) (cm_seq_lens_cpu_upper_bound cm) = Some lens" and "lens = drop nd (cm_seq_lens cm)"
    and "bounds = split_bounds L lens (get_prefill_workspace_size (bu_max_model_len B))"
  shows "\<exists>ids starts. build_prefill L B cm nd np = Inr \<lparr>pf_seq_lens = lens, pf_request_ids = ids,
        pf_workspace_starts = starts, pf_chunks = map (chunk_of cm nd lens) bounds\<rparr> \<and>
      length ids = cm_num_actual_tokens cm \<and>
      (\<forall>t < cm_num_actual_tokens cm. t < cm_query_start_loc cm ! nd \<longrightarrow> ids ! t = -1) \<and>
      (\<forall>r < np. \<forall>t < cm_num_actual_tokens cm. token_of cm (nd + r) t \<longrightarrow> ids ! t = int r) \<and>
      length starts = np \<and>
      (\<forall>(x, y) \<in> set bounds. \<forall>r. x \<le> r \<and> r < y \<longrightarrow> starts ! r = of_nat (sum_list (tensor_slice lens x r)))"
proof -
  have n: "length lens = np" using assms(1,3,5) by (simp add: batch_ok_def)
  obtain cpu where c: "cm_seq_lens_cpu_upper_bound cm = Some cpu" "drop nd cpu = lens" using assms(4) by auto
  from prefill_request_ids_ok [of cm np np nd "cm_num_actual_tokens cm"] assms(1,3) obtain ids where
    i: "prefill_request_ids cm nd np = Inr ids" "length ids = cm_num_actual_tokens cm"
    "\<forall>t < cm_num_actual_tokens cm. t < cm_query_start_loc cm ! nd \<longrightarrow> ids ! t = -1"
    "\<forall>r < np. \<forall>t < cm_num_actual_tokens cm. token_of cm (nd + r) t \<longrightarrow> ids ! t = int r"
    by (auto simp: prefill_request_ids_def batch_ok_def token_of_def)
  let ?starts = "map (\<lambda>r. of_nat (sum_list (take r lens))) [0..<np] :: 32 word list"
  have "tiles 0 np bounds" using assms(2,6) n by (auto simp: bounds_ok_def)
  from add_chunks_ok [OF this n [symmetric], of ?starts nd cm "[]"] assms(1,3) obtain starts where
    "foldE (add_chunk cm nd lens lens) bounds (?starts, []) = Inr (starts, map (chunk_of cm nd lens) bounds)"
    "length starts = np"
    "\<forall>(x, y) \<in> set bounds. \<forall>r. x \<le> r \<and> r < y \<longrightarrow> starts ! r = of_nat (sum_list (tensor_slice lens x r))"
    by (auto simp: batch_ok_def)
  with i show ?thesis
    by (auto simp: build_prefill_def c assms(5,6) [symmetric] initial_workspace_starts_def n Let_def)
qed

section \<open>Request ids of all tokens\<close>

lemma repeat_ids_nth:
  assumes "i < length lens" and "sum_list (take i lens) \<le> t" and "t < sum_list (take (Suc i) lens)"
  shows "repeat_ids lens ! t = i"
proof -
  have "repeat_ids lens = concat (map (\<lambda>j. map (\<lambda>_. j) [0..<lens ! j]) [0..<length lens])"
    by (simp add: repeat_ids_def map_replicate_const)
  moreover have "t - sum_list (take i lens) < lens ! i" using assms by (simp add: take_Suc_conv_app_nth)
  ultimately show ?thesis
    using concat_rows_at(2) [OF refl, of i lens "t - sum_list (take i lens)" "\<lambda>j _. j"] assms by simp
qed

lemma segment_sums:
  assumes "sorted qs" and "k < length qs"
  shows "sum_list (take k (segment_lengths qs)) = qs ! k - qs ! 0"
  using assms(2)
proof (induction k)
  case (Suc k)
  have "qs ! 0 \<le> qs ! k" "qs ! k \<le> qs ! Suc k" using assms(1) Suc.prems by (simp_all add: sorted_nth_mono)
  moreover have "segment_lengths qs ! k = qs ! Suc k - qs ! k" "k < length (segment_lengths qs)"
    using Suc.prems by (simp_all add: segment_lengths_def nth_tl)
  ultimately show ?case using Suc by (simp add: take_Suc_conv_app_nth)
qed simp

lemma batch_ends: "batch_ok B cm \<Longrightarrow> cm_query_start_loc cm ! cm_num_reqs cm = cm_num_actual_tokens cm"
  by (cases "cm_query_start_loc cm" rule: rev_cases) (auto simp: batch_ok_def nth_append)

lemma query_start_mono:
  "batch_ok B cm \<Longrightarrow> i \<le> j \<Longrightarrow> j \<le> cm_num_reqs cm \<Longrightarrow> cm_query_start_loc cm ! i \<le> cm_query_start_loc cm ! j"
  by (simp add: batch_ok_def sorted_nth_mono)

lemma req_ids_ok:
  assumes "batch_ok B cm"
  shows "\<exists>ids. req_id_per_token B cm = Inr ids \<and> length ids = cm_num_actual_tokens cm \<and>
    (\<forall>r < cm_num_reqs cm. \<forall>t. token_of cm r t \<longrightarrow> ids ! t = r)"
proof -
  let ?qs = "cm_query_start_loc cm" and ?l = "segment_lengths (cm_query_start_loc cm)"
  have b: "sorted ?qs" "length ?qs = Suc (cm_num_reqs cm)" "?qs ! 0 = 0" "?qs ! cm_num_reqs cm = cm_num_actual_tokens cm"
    "cm_num_actual_tokens cm \<le> bu_max_num_batched_tokens B"
    using assms batch_ends [OF assms] by (simp_all add: batch_ok_def)
  have l: "length ?l = cm_num_reqs cm" using b by (simp add: segment_lengths_def)
  have s: "sum_list (take k ?l) = ?qs ! k" if "k \<le> cm_num_reqs cm" for k
    using segment_sums [of ?qs k] b that by simp
  have len: "length (repeat_ids ?l) = cm_num_actual_tokens cm"
    using s [of "cm_num_reqs cm"] b l map_nth [of ?l] by (simp add: repeat_ids_def length_concat comp_def)
  have "repeat_ids ?l ! t = r" if "r < cm_num_reqs cm" "token_of cm r t" for r t
    using repeat_ids_nth [of r ?l t] s [of r] s [of "Suc r"] l that by (simp add: token_of_def)
  then show ?thesis using b len by (simp add: req_id_per_token_def Let_def)
qed

lemma token_has_request:
  assumes "batch_ok B cm" and "t < cm_num_actual_tokens cm"
  shows "\<exists>r < cm_num_reqs cm. token_of cm r t"
proof -
  let ?qs = "cm_query_start_loc cm"
  have b: "?qs ! 0 = 0" "?qs ! cm_num_reqs cm = cm_num_actual_tokens cm"
    using assms(1) batch_ends [OF assms(1)] by (simp_all add: batch_ok_def)
  have "\<exists>r < k. token_of cm r t" if "t < ?qs ! k" for k
    using that
  proof (induction k)
    case (Suc k)
    then show ?case by (cases "t < ?qs ! k") (auto simp: token_of_def not_less intro: less_SucI)
  qed (simp add: b)
  from this [of "cm_num_reqs cm"] show ?thesis using assms(2) b by simp
qed

end
