(* ===== verification/FlashForward.thy ===== *)
theory FlashForward
  imports FlashMeta
begin

text \<open>
  \<open>flashmla_sparse.py\<close>, the forward pass: the three ways \<open>forward_mqa\<close> runs the sparse attention. The
  kernels are vLLM's and parameters; queries are lists of heads per token, the cache a list of blocks.
\<close>

section \<open>The kernels\<close>

text \<open>
  In the order the code calls them: \<open>ops.concat_mla_q\<close>, the conversion of the top-k indices of a request to
  slots of the cache or offsets of the workspace (with the number of valid ones), the gathering of requests
  into a workspace, the two attention kernels and the reshapes around the decode kernel. \<open>bf16_row\<close> reads a
  row of an unquantized cache; \<open>zero_head\<close> and the \<open>fresh\<close> values are what padding and fresh tensors hold.
\<close>

record ('s, 'p, 'q, 'c, 'w, 'o) kernel_lib =
  concat_mla_q :: "'p list list \<Rightarrow> 'p list list \<Rightarrow> 'q list list"
  convert_index :: "nat list \<Rightarrow> nat list list \<Rightarrow> int list list \<Rightarrow> nat \<Rightarrow> (int list \<times> 32 word list) option
     \<Rightarrow> int list list \<times> nat list"
  gather_upconvert :: "'c list list \<Rightarrow> 'w list \<Rightarrow> nat list list \<Rightarrow> nat list \<Rightarrow> 32 word list \<Rightarrow> nat \<Rightarrow> 'w list"
  sparse_fwd :: "'q list list \<Rightarrow> 'w list \<Rightarrow> int list list \<Rightarrow> nat list \<Rightarrow> 'o list list"
  with_kvcache :: "'q list list list \<Rightarrow> 'c list list \<Rightarrow> 's kernel_metadata \<Rightarrow> int list list list \<Rightarrow> 'o list list list"
  reshape_query :: "'q list list \<Rightarrow> nat \<Rightarrow> 'q list list list"
  reshape_output :: "'o list list list \<Rightarrow> 'o list list"
  bf16_row :: "'c \<Rightarrow> 'w"
  zero_head :: 'q
  fresh_head :: 'q
  fresh_out :: 'o

record impl =
  im_num_heads :: nat
  im_prefill_padding :: nat
  im_kv_cache_dtype :: string

datatype ('p, 'q) query = Joined "'q list list" | Parts "'p list list" "'p list list"

definition prefill_padding :: "bool \<Rightarrow> nat" where
  "prefill_padding is_family_100 = (if is_family_100 then 128 else 64)"

text \<open>
  The constructor: \<open>is_quantized\<close> is vLLM's test of the cache type. For the two quantized types it serves it
  reserves a workspace, of which the number of rows is given.
\<close>

definition make_impl :: "(string \<Rightarrow> bool) \<Rightarrow> bool \<Rightarrow> nat \<Rightarrow> string \<Rightarrow> nat \<Rightarrow> (impl \<times> nat option) res" where
  "make_impl is_quantized is_family_100 num_heads kv_cache_dtype max_model_len =
     (let served = {''fp8_ds_mla'', ''nvfp4_ds_mla''} in
      bindE (assertE (is_quantized kv_cache_dtype \<longrightarrow> kv_cache_dtype \<in> served)) (\<lambda>_.
        Inr (\<lparr>im_num_heads = num_heads, im_prefill_padding = prefill_padding is_family_100,
              im_kv_cache_dtype = kv_cache_dtype\<rparr>,
             if kv_cache_dtype \<in> served then Some (get_prefill_workspace_size max_model_len) else None)))"

section \<open>The kernels with padded heads\<close>

definition fp8_flash_mla_kernel ::
  "('s, 'p, 'q, 'c, 'w, 'o) kernel_lib \<Rightarrow> impl \<Rightarrow> 'q list list list \<Rightarrow> 'c list list \<Rightarrow> int list list list
   \<Rightarrow> 's kernel_metadata \<Rightarrow> 'o list list list" where
  "fp8_flash_mla_kernel K I q cache topk_indices kernel_metadata =
     (let actual = im_num_heads I; padded = fp8_decode_padded_heads (im_num_heads I);
          q = (if actual < padded
               then map (map (\<lambda>heads. heads @ replicate (padded - actual) (zero_head K))) q else q);
          out = with_kvcache K q cache kernel_metadata topk_indices
      in if actual < padded then map (map (take actual)) out else out)"

definition bf16_flash_mla_kernel ::
  "('s, 'p, 'q, 'c, 'w, 'o) kernel_lib \<Rightarrow> impl \<Rightarrow> 'q list list \<Rightarrow> 'w list \<Rightarrow> int list list \<Rightarrow> nat list
   \<Rightarrow> 'o list list res" where
  "bf16_flash_mla_kernel K I q kv topk_indices topk_length =
     (let n = im_num_heads I; padding = im_prefill_padding I in
      bindE (if n mod padding \<noteq> 0 then
               bindE (assertE (padding mod n = 0)) (\<lambda>_.
                 Inr (map (\<lambda>heads. heads @ replicate (padding - n) (fresh_head K)) q))
             else Inr q) (\<lambda>q.
        Inr (map (take n) (sparse_fwd K q kv topk_indices topk_length))))"

section \<open>The three paths\<close>

definition forward_bf16_kv ::
  "('s, 'p, 'q, 'c, 'w, 'o) kernel_lib \<Rightarrow> impl \<Rightarrow> 'q list list \<Rightarrow> 'c list list \<Rightarrow> int list list
   \<Rightarrow> 's sparse_metadata \<Rightarrow> 'o list list res" where
  "forward_bf16_kv K I q cache topk_indices md =
     (case convert_index K (md_req_id_per_token md) (md_block_table md) topk_indices (md_block_size md) None of
        (indices, lengths) \<Rightarrow> bf16_flash_mla_kernel K I q (map (bf16_row K) (concat cache)) indices lengths)"

text \<open>\<open>topk_indices.view(n, k, -1)\<close>.\<close>

definition view_rows :: "nat \<Rightarrow> nat \<Rightarrow> 'a list \<Rightarrow> 'a list list res" where
  "view_rows n k xs =
     (if length xs \<noteq> n * k then Inl RuntimeError
      else Inr (map (\<lambda>i. tensor_slice xs (i * k) (i * k + k)) [0..<n]))"

definition fp8_decode ::
  "('s, 'p, 'q, 'c, 'w, 'o) kernel_lib \<Rightarrow> impl \<Rightarrow> 's separate_metadata \<Rightarrow> 'c list list \<Rightarrow> 'q list list
   \<Rightarrow> int list list \<Rightarrow> 'o list list res" where
  "fp8_decode K I m cache q topk_indices =
     (let q = reshape_query K q (sp_num_decodes m);
          seq_len = (case q of [] \<Rightarrow> 0 | row # _ \<Rightarrow> length row) in
      bindE (view_rows (sp_num_decodes m) seq_len topk_indices) (\<lambda>indices.
        case sp_decode m of
          None \<Rightarrow> Inl AssertionError
        | Some d \<Rightarrow> Inr (reshape_output K (fp8_flash_mla_kernel K I q cache indices (de_kernel d)))))"

text \<open>One chunk: its requests are gathered into the workspace, and its tokens attend to that.\<close>

definition attend_chunk ::
  "('s, 'p, 'q, 'c, 'w, 'o) kernel_lib \<Rightarrow> impl \<Rightarrow> 'c list list \<Rightarrow> 'q list list \<Rightarrow> int list list \<Rightarrow> nat list
   \<Rightarrow> 32 word list \<Rightarrow> chunk_metadata \<Rightarrow> 'o list list \<times> 'w list \<Rightarrow> ('o list list \<times> 'w list) res" where
  "attend_chunk K I cache q indices lengths starts c = (\<lambda>(attn_out, workspace).
     let chunk_workspace =
           gather_upconvert K cache (take (ch_tot_seqlen c) workspace) (ch_block_table c) (ch_seq_lens c)
             (tensor_slice starts (fst (ch_starts c)) (snd (ch_starts c))) (length (ch_block_table c));
         workspace = chunk_workspace @ drop (ch_tot_seqlen c) workspace;
         (a, b) = ch_tokens c
     in bindE (bf16_flash_mla_kernel K I (tensor_slice q a b) chunk_workspace (tensor_slice indices a b) (tensor_slice lengths a b)) (\<lambda>out.
        bindE (put_slice attn_out a b out) (\<lambda>attn_out. Inr (attn_out, workspace))))"

definition forward_fp8_separate ::
  "('s, 'p, 'q, 'c, 'w, 'o) kernel_lib \<Rightarrow> impl \<Rightarrow> 'q list list \<Rightarrow> 'c list list \<Rightarrow> int list list
   \<Rightarrow> 's sparse_metadata \<Rightarrow> 'w list \<Rightarrow> ('o list list \<times> 'w list) res" where
  "forward_fp8_separate K I q cache topk_indices md workspace =
     (case md_fp8_extra md of
        Some (Separate m) \<Rightarrow>
          (let (indices, lengths) =
                 convert_index K (md_req_id_per_token md) (md_block_table md) topk_indices (md_block_size md)
                   (map_option (\<lambda>p. (pf_request_ids p, pf_workspace_starts p)) (sp_prefill m));
               num_decode_tokens = sp_num_decode_tokens m
           in if 0 < num_decode_tokens \<and> sp_num_prefill_tokens m = 0 then
                bindE (assertE (sp_decode m \<noteq> None)) (\<lambda>_.
                bindE (fp8_decode K I m cache q indices) (\<lambda>attn_out. Inr (attn_out, workspace)))
              else
                (let attn_out = replicate (md_num_actual_tokens md) (replicate (im_num_heads I) (fresh_out K)) in
                 bindE (if 0 < num_decode_tokens
                        then bindE (fp8_decode K I m cache (take num_decode_tokens q) (take num_decode_tokens indices))
                               (put_slice attn_out 0 num_decode_tokens)
                        else Inr attn_out) (\<lambda>attn_out.
                 case sp_prefill m of
                   None \<Rightarrow> Inl AssertionError
                 | Some p \<Rightarrow>
                     foldE (attend_chunk K I cache q indices lengths (pf_workspace_starts p)) (pf_chunks p)
                       (attn_out, workspace))))
      | _ \<Rightarrow> Inl AssertionError)"

definition forward_fp8_mixed ::
  "('s, 'p, 'q, 'c, 'w, 'o) kernel_lib \<Rightarrow> impl \<Rightarrow> 'q list list \<Rightarrow> 'c list list \<Rightarrow> int list list
   \<Rightarrow> 's sparse_metadata \<Rightarrow> 'o list list res" where
  "forward_fp8_mixed K I q cache topk_indices md =
     (let (indices, _) =
            convert_index K (md_req_id_per_token md) (md_block_table md) topk_indices (md_block_size md) None
      in case md_fp8_extra md of
           Some (MixedBatch kernel_metadata) \<Rightarrow>
             Inr (hd (fp8_flash_mla_kernel K I [q] cache [indices] kernel_metadata))
         | _ \<Rightarrow> Inl AssertionError)"

text \<open>\<open>forward_mqa\<close>; the buffer of top-k indices may be missing.\<close>

definition forward_mqa ::
  "('s, 'p, 'q, 'c, 'w, 'o) kernel_lib \<Rightarrow> impl \<Rightarrow> ('p, 'q) query \<Rightarrow> 'c list list \<Rightarrow> int list list option
   \<Rightarrow> 's sparse_metadata \<Rightarrow> 'w list \<Rightarrow> ('o list list \<times> 'w list) res" where
  "forward_mqa K I query cache topk_indices_buffer md workspace =
     (let q = (case query of Joined q \<Rightarrow> q | Parts ql_nope q_pe \<Rightarrow> concat_mla_q K ql_nope q_pe) in
      case topk_indices_buffer of
        None \<Rightarrow> Inl AssertionError
      | Some buffer \<Rightarrow>
          (let topk_indices = take (length q) buffer in
           if im_kv_cache_dtype I \<notin> {''fp8_ds_mla'', ''nvfp4_ds_mla''} then
             bindE (forward_bf16_kv K I q cache topk_indices md) (\<lambda>out. Inr (out, workspace))
           else if md_fp8_use_mixed_batch md then
             bindE (forward_fp8_mixed K I q cache topk_indices md) (\<lambda>out. Inr (out, workspace))
           else forward_fp8_separate K I q cache topk_indices md workspace))"

end
