(* ===== verification/FlashAttention.thy ===== *)
theory FlashAttention
  imports FlashFacts FlashForward
begin

text \<open>
  The forward pass computes attention over the cache itself: neither the cut into chunks, nor the workspace
  they share, nor the padding of heads can be seen in the result.
\<close>

section \<open>What the kernels compute\<close>

definition selected :: "'a list \<Rightarrow> int \<Rightarrow> 'a option" where
  "selected xs i = (if 0 \<le> i \<and> nat i < length xs then Some (xs ! nat i) else None)"

definition global_slot :: "nat list list \<Rightarrow> nat \<Rightarrow> nat \<Rightarrow> int \<Rightarrow> int" where
  "global_slot bt bs r i = (if i < 0 then -1 else int (bt ! r ! (nat i div bs) * bs + nat i mod bs))"

definition converted ::
  "nat list \<Rightarrow> nat list list \<Rightarrow> nat \<Rightarrow> (int list \<times> 32 word list) option \<Rightarrow> nat \<Rightarrow> int \<Rightarrow> int" where
  "converted ids bt bs workspace t i =
     (case workspace of
        Some (request_ids, starts) \<Rightarrow>
          if 0 \<le> i \<and> 0 \<le> request_ids ! t then sint (starts ! nat (request_ids ! t)) + i
          else global_slot bt bs (ids ! t) i
      | None \<Rightarrow> global_slot bt bs (ids ! t) i)"

definition valid_count :: "int list \<Rightarrow> nat" where
  "valid_count xs = length (filter (\<lambda>i. 0 \<le> i) xs)"

text \<open>
  The documented behaviour of the kernels. The output of an attention kernel for a head depends on that head and
  on the rows its indices select, \<open>att8\<close> on the quantized cache and \<open>att\<close> on a 16-bit one; it is only
  promised for the supported numbers of heads.
\<close>

definition convert_law :: "('s, 'p, 'q, 'c, 'w, 'o) kernel_lib \<Rightarrow> bool" where
  "convert_law K \<longleftrightarrow>
     (\<forall>ids bt topk bs workspace.
        list_all (\<lambda>t. list_all (\<lambda>i. i < 0 \<or> nat i div bs < length (bt ! (ids ! t))) (topk ! t)) [0..<length topk] \<longrightarrow>
        convert_index K ids bt topk bs workspace =
          (map (\<lambda>t. map (converted ids bt bs workspace t) (topk ! t)) [0..<length topk], map valid_count topk))"

definition gather_law :: "('s, 'p, 'q, 'c, 'w, 'o) kernel_lib \<Rightarrow> ('c \<Rightarrow> 'w) \<Rightarrow> bool" where
  "gather_law K up \<longleftrightarrow>
     (\<forall>cache ws bt lens starts bs.
        cache \<noteq> [] \<and> (\<forall>block \<in> set cache. length block = bs) \<and> length lens = length bt \<and> length starts = length bt \<and>
        sum_list lens = length ws \<and> (\<forall>r < length bt. starts ! r = of_nat (sum_list (take r lens))) \<and>
        (\<forall>r < length bt. lens ! r \<le> length (bt ! r) * bs) \<longrightarrow>
        length (gather_upconvert K cache ws bt lens starts (length bt)) = length ws \<and>
        (\<forall>r < length bt. \<forall>i < lens ! r.
           gather_upconvert K cache ws bt lens starts (length bt) ! (sum_list (take r lens) + i) =
             up (concat cache ! nat (global_slot bt bs r (int i)))))"

definition sparse_fwd_law ::
  "impl \<Rightarrow> ('s, 'p, 'q, 'c, 'w, 'o) kernel_lib \<Rightarrow> ('q \<Rightarrow> 'w option list \<Rightarrow> 'o) \<Rightarrow> bool" where
  "sparse_fwd_law I K att \<longleftrightarrow>
     (\<forall>q kv indices lengths.
        length indices = length q \<and> length lengths = length q \<and>
        (\<forall>heads \<in> set q. im_prefill_padding I dvd length heads) \<longrightarrow>
        sparse_fwd K q kv indices lengths =
          map (\<lambda>t. map (\<lambda>h. att h (map (selected kv) (take (lengths ! t) (indices ! t)))) (q ! t)) [0..<length q])"

definition with_kvcache_law ::
  "('s, 'p, 'q, 'c, 'w, 'o) kernel_lib \<Rightarrow> ('q \<Rightarrow> 'c option list \<Rightarrow> 'o) \<Rightarrow> bool" where
  "with_kvcache_law K att8 \<longleftrightarrow>
     (\<forall>q cache km indices.
        list_all2 (\<lambda>row is. length row = length is \<and> (\<forall>heads \<in> set row. length heads \<in> {64, 128})) q indices \<longrightarrow>
        with_kvcache K q cache km indices =
          map2 (map2 (\<lambda>heads is. map (\<lambda>h. att8 h (map (selected (concat cache)) is)) heads)) q indices)"

definition reshape_law :: "('s, 'p, 'q, 'c, 'w, 'o) kernel_lib \<Rightarrow> bool" where
  "reshape_law K \<longleftrightarrow>
     (\<forall>q n k. length q = n * k \<longrightarrow> reshape_query K q n = map (\<lambda>i. tensor_slice q (i * k) (i * k + k)) [0..<n]) \<and>
     (\<forall>out. reshape_output K out = concat out)"

definition kernel_laws ::
  "impl \<Rightarrow> ('s, 'p, 'q, 'c, 'w, 'o) kernel_lib \<Rightarrow> ('q \<Rightarrow> 'c option list \<Rightarrow> 'o) \<Rightarrow> ('q \<Rightarrow> 'w option list \<Rightarrow> 'o)
   \<Rightarrow> ('c \<Rightarrow> 'w) \<Rightarrow> bool" where
  "kernel_laws I K att8 att up \<longleftrightarrow>
     convert_law K \<and> gather_law K up \<and> sparse_fwd_law I K att \<and> with_kvcache_law K att8 \<and> reshape_law K"

section \<open>The heads are padded and cut again\<close>

lemma take_map_append: "length xs = n \<Longrightarrow> take n (map f (xs @ ys)) = map f xs"
  by simp

lemma bf16_kernel_ok:
  assumes "sparse_fwd_law I K att" and "\<forall>heads \<in> set q. length heads = im_num_heads I"
    and "length indices = length q" "length lengths = length q"
    and "im_prefill_padding I dvd im_num_heads I \<or> im_num_heads I dvd im_prefill_padding I"
    and "0 < im_num_heads I" "0 < im_prefill_padding I"
  shows "bf16_flash_mla_kernel K I q kv indices lengths =
    Inr (map (\<lambda>t. map (\<lambda>h. att h (map (selected kv) (take (lengths ! t) (indices ! t)))) (q ! t)) [0..<length q])"
proof (cases "im_num_heads I mod im_prefill_padding I = 0")
  case True
  then show ?thesis using assms by (simp add: bf16_flash_mla_kernel_def sparse_fwd_law_def mod_eq_0_iff_dvd)
next
  case False
  then have d: "im_num_heads I dvd im_prefill_padding I" using assms(5) by (auto simp: dvd_eq_mod_eq_0)
  let ?n = "im_num_heads I" and ?p = "im_prefill_padding I"
  let ?q = "map (\<lambda>heads. heads @ replicate (?p - ?n) (fresh_head K)) q"
  have "?n \<le> ?p" using d assms(7) by (rule dvd_imp_le)
  then have "\<forall>heads \<in> set ?q. ?p dvd length heads" using assms(2) by auto
  with assms(1,3,4) have "sparse_fwd K ?q kv indices lengths =
     map (\<lambda>t. map (\<lambda>h. att h (map (selected kv) (take (lengths ! t) (indices ! t)))) (?q ! t)) [0..<length q]"
    by (simp add: sparse_fwd_law_def)
  moreover have "length (q ! t) = ?n" if "t < length q" for t using assms(2) that by simp
  ultimately have "map (take ?n) (sparse_fwd K ?q kv indices lengths) =
     map (\<lambda>t. map (\<lambda>h. att h (map (selected kv) (take (lengths ! t) (indices ! t)))) (q ! t)) [0..<length q]"
    by (intro nth_equalityI) simp_all
  then show ?thesis using False d by (simp add: bf16_flash_mla_kernel_def dvd_eq_mod_eq_0 Let_def)
qed

lemma fp8_kernel_ok:
  assumes "with_kvcache_law K att8" and "im_num_heads I \<le> 128"
    and "list_all2 (\<lambda>row is. length row = length is \<and> (\<forall>heads \<in> set row. length heads = im_num_heads I)) q indices"
    and "im_num_heads I \<le> 64 \<or> im_num_heads I \<le> 128"
  shows "fp8_flash_mla_kernel K I q cache indices km =
    map2 (map2 (\<lambda>heads is. map (\<lambda>h. att8 h (map (selected (concat cache)) is)) heads)) q indices"
proof -
  let ?n = "im_num_heads I" and ?p = "fp8_decode_padded_heads (im_num_heads I)"
  let ?q = "map (map (\<lambda>heads. heads @ replicate (?p - ?n) (zero_head K))) q"
  have p: "?p \<in> {64, 128}" "?n \<le> ?p" using assms(2) by (auto simp: fp8_decode_padded_heads_def)
  then have "list_all2 (\<lambda>row is. length row = length is \<and> (\<forall>heads \<in> set row. length heads \<in> {64, 128})) ?q indices"
    using assms(3) by (auto simp: list_all2_conv_all_nth)
  with assms(1) have k: "with_kvcache K ?q cache km indices =
      map2 (map2 (\<lambda>heads is. map (\<lambda>h. att8 h (map (selected (concat cache)) is)) heads)) ?q indices"
    by (simp add: with_kvcache_law_def)
  have cut: "map (take ?n) (map2 (\<lambda>heads is. map (\<lambda>h. att8 h (map (selected (concat cache)) is)) heads)
        (map (\<lambda>heads. heads @ replicate (?p - ?n) (zero_head K)) row) is)
      = map2 (\<lambda>heads is. map (\<lambda>h. att8 h (map (selected (concat cache)) is)) heads) row is"
    if "\<forall>heads \<in> set row. length heads = ?n" for row "is"
    using that by (induction row "is" rule: list_induct2') auto
  have "map (map (take ?n)) (map2 (map2 (\<lambda>heads is. map (\<lambda>h. att8 h (map (selected (concat cache)) is)) heads)) ?q indices)
      = map2 (map2 (\<lambda>heads is. map (\<lambda>h. att8 h (map (selected (concat cache)) is)) heads)) q indices"
    using assms(3) by (induction q indices rule: list_all2_induct) (simp_all add: cut del: map_map)
  with k show ?thesis
  proof (cases "?n < ?p")
    case False
    with p have "?q = q" by (simp add: map_idI)
    with k False show ?thesis by (simp add: fp8_flash_mla_kernel_def)
  qed (simp add: fp8_flash_mla_kernel_def)
qed

section \<open>The decode part\<close>

lemma concat_rows:
  "concat (map (\<lambda>i. map f [i * k..<i * k + k]) [0..<n]) = map f [0..<n * (k::nat)]"
proof (induction n)
  case (Suc n)
  have "[0..<Suc n * k] = [0..<n * k] @ [n * k..<n * k + k]"
    using upt_add_eq_append [of 0 "n * k" k] by (simp add: add.commute)
  with Suc show ?case by simp
qed simp

lemma slice_map_nth: "b \<le> length xs \<Longrightarrow> tensor_slice xs a b = map ((!) xs) [a..<b]"
  by (intro nth_equalityI) (auto simp: nth_slice)

lemma fp8_decode_ok:
  assumes "with_kvcache_law K att8" "reshape_law K" and "im_num_heads I \<le> 128" and "0 < sp_num_decodes m"
    and "length q = sp_num_decodes m * k" "length indices = length q"
    and "\<forall>heads \<in> set q. length heads = im_num_heads I" and "sp_decode m = Some d"
  shows "fp8_decode K I m cache q indices =
    Inr (map (\<lambda>t. map (\<lambda>h. att8 h (map (selected (concat cache)) (indices ! t))) (q ! t)) [0..<length q])"
proof -
  let ?n = "sp_num_decodes m" and ?row = "\<lambda>xs i. tensor_slice xs (i * k) (i * k + k)"
  let ?F = "\<lambda>heads is. map (\<lambda>h. att8 h (map (selected (concat cache)) is)) heads"
  have le: "i * k + k \<le> ?n * k" if "i < ?n" for i
    using that mult_le_mono1 [of "Suc i" ?n k] by simp
  have h: "length (q ! t) = im_num_heads I" if "t < length q" for t using assms(7) that by simp
  have r: "reshape_query K q ?n = map (?row q) [0..<?n]" using assms(2,5) by (simp add: reshape_law_def)
  have s: "(case map (?row q) [0..<?n] of [] \<Rightarrow> 0 | row # _ \<Rightarrow> length row) = k"
    using assms(4,5) le [of 0] by (simp add: upt_conv_Cons)
  have q2: "list_all2 (\<lambda>row is. length row = length is \<and> (\<forall>heads \<in> set row. length heads = im_num_heads I))
      (map (?row q) [0..<?n]) (map (?row indices) [0..<?n])"
  proof (unfold list_all2_conv_all_nth, intro conjI allI impI)
    fix i assume i: "i < length (map (?row q) [0..<?n])"
    with assms(5,6) le [of i] show "length (map (?row q) [0..<?n] ! i) = length (map (?row indices) [0..<?n] ! i)"
      by simp
    show "\<forall>heads \<in> set (map (?row q) [0..<?n] ! i). length heads = im_num_heads I"
      using i le [of i] assms(5) h by (auto simp: slice_map_nth)
  qed simp
  have "map2 ?F (?row q i) (?row indices i) = map (\<lambda>t. ?F (q ! t) (indices ! t)) [i * k..<i * k + k]"
    if "i < ?n" for i
    using le [OF that] assms(5,6) by (simp add: slice_map_nth map2_map_map)
  then have "concat (map2 (map2 ?F) (map (?row q) [0..<?n]) (map (?row indices) [0..<?n]))
      = concat (map (\<lambda>i. map (\<lambda>t. ?F (q ! t) (indices ! t)) [i * k..<i * k + k]) [0..<?n])"
    unfolding map2_map_map by (intro arg_cong [of _ _ concat] map_cong) auto
  also have "\<dots> = map (\<lambda>t. ?F (q ! t) (indices ! t)) [0..<?n * k]" by (rule concat_rows)
  finally show ?thesis
    using fp8_kernel_ok [OF assms(1,3) q2] assms(2,3,5,6,8)
    by (simp add: fp8_decode_def r s view_rows_def reshape_law_def Let_def)
qed

section \<open>The prefill part\<close>

text \<open>The rows of the cache that the indices of request \<open>r\<close> name.\<close>

definition direct_rows :: "nat list list \<Rightarrow> nat \<Rightarrow> nat \<Rightarrow> 'c list list \<Rightarrow> int list \<Rightarrow> 'c option list" where
  "direct_rows bt bs r cache is = map (\<lambda>i. selected (concat cache) (global_slot bt bs r i)) is"

definition inputs_ok :: "builder \<Rightarrow> batch \<Rightarrow> 'c list list \<Rightarrow> int list list \<Rightarrow> bool" where
  "inputs_ok B cm cache topk \<longleftrightarrow>
     0 < bu_block_size B \<and> cache \<noteq> [] \<and> (\<forall>block \<in> set cache. length block = bu_block_size B) \<and>
     (\<forall>r < cm_num_reqs cm. cm_seq_lens cm ! r \<le> length (cm_block_table cm ! r) * bu_block_size B \<and>
        (\<forall>b \<in> set (cm_block_table cm ! r). b < length cache)) \<and>
     length topk = cm_num_actual_tokens cm \<and>
     (\<forall>r < cm_num_reqs cm. \<forall>t. token_of cm r t \<longrightarrow> (\<forall>i \<in> set (topk ! t). i < 0 \<or> nat i < cm_seq_lens cm ! r))"

definition heads_ok :: "impl \<Rightarrow> 'q list list \<Rightarrow> bool" where
  "heads_ok I q \<longleftrightarrow>
     0 < im_num_heads I \<and> im_num_heads I \<le> 128 \<and> 0 < im_prefill_padding I \<and>
     (im_prefill_padding I dvd im_num_heads I \<or> im_num_heads I dvd im_prefill_padding I) \<and>
     (\<forall>heads \<in> set q. length heads = im_num_heads I)"

lemma length_concat_blocks: "\<forall>block \<in> set cache. length block = n \<Longrightarrow> length (concat cache) = length cache * n"
  by (induction cache) auto

lemma slot_in_cache:
  assumes "\<forall>block \<in> set cache. length block = bs" "0 < bs" "\<forall>b \<in> set (bt ! r). b < length cache"
    and "nat i < length (bt ! r) * bs" "0 \<le> i"
  shows "nat i div bs < length (bt ! r)" and "nat (global_slot bt bs r i) < length (concat cache)"
proof -
  show d: "nat i div bs < length (bt ! r)" using assms(2,4) by (simp add: less_mult_imp_div_less)
  then have "bt ! r ! (nat i div bs) < length cache" using assms(3) by simp
  then have "Suc (bt ! r ! (nat i div bs)) * bs \<le> length cache * bs" by (intro mult_right_mono) auto
  moreover have "nat i mod bs < bs" using assms(2) by simp
  ultimately show "nat (global_slot bt bs r i) < length (concat cache)"
    using assms(5) by (simp add: global_slot_def length_concat_blocks [OF assms(1)] nat_mult_distrib nat_add_distrib)
qed

lemma sint_small: "n < 2 ^ 31 \<Longrightarrow> sint (of_nat n :: 32 word) = int n"
  by (simp add: signed_of_nat signed_take_bit_int_eq_self)

lemma gather_lawD:
  assumes "gather_law K up" and "cache \<noteq> []" "\<forall>block \<in> set cache. length block = bs"
    and "length bt = m" "length lens = m" "length starts = m" and "sum_list lens = length ws"
    and "\<And>r. r < m \<Longrightarrow> starts ! r = of_nat (sum_list (take r lens))"
    and "\<And>r. r < m \<Longrightarrow> lens ! r \<le> length (bt ! r) * bs"
  shows "length (gather_upconvert K cache ws bt lens starts m) = length ws"
    and "r < m \<Longrightarrow> i < lens ! r \<Longrightarrow> gather_upconvert K cache ws bt lens starts m ! (sum_list (take r lens) + i)
       = up (concat cache ! nat (global_slot bt bs r (int i)))"
  using assms(1) [unfolded gather_law_def, rule_format, of cache bs lens bt starts ws] assms(2-9) by simp_all

text \<open>What the workspace holds after a chunk was gathered: the rows of its requests, one after the other.\<close>

lemma gathered_rows:
  assumes "gather_law K up" and "inputs_ok B cm cache topk" and "batch_ok B cm"
    and "lens = drop nd (cm_seq_lens cm)" and "x < y" "y \<le> length lens"
    and "length starts = length lens"
    and "\<forall>r. x \<le> r \<and> r < y \<longrightarrow> starts ! r = of_nat (sum_list (tensor_slice lens x r))"
    and "length ws = sum_list (tensor_slice lens x y)" and "sum_list (tensor_slice lens x y) < 2 ^ 31"
    and "G = gather_upconvert K cache ws (tensor_slice (cm_block_table cm) (nd + x) (nd + y)) (tensor_slice lens x y)
               (tensor_slice starts x y) (length (tensor_slice (cm_block_table cm) (nd + x) (nd + y)))"
  shows "length G = length ws"
    and "x \<le> r \<Longrightarrow> r < y \<Longrightarrow> 0 \<le> i \<Longrightarrow> nat i < lens ! r \<Longrightarrow> selected G (sint (starts ! r) + i) =
      map_option up (selected (concat cache) (global_slot (cm_block_table cm) (bu_block_size B) (nd + r) i))"
proof -
  let ?bs = "bu_block_size B" and ?bt = "tensor_slice (cm_block_table cm) (nd + x) (nd + y)"
    and ?l = "tensor_slice lens x y"
  have n: "length (cm_block_table cm) = cm_num_reqs cm" "length (cm_seq_lens cm) = cm_num_reqs cm"
    using assms(3) by (simp_all add: batch_ok_def)
  have len: "length ?bt = y - x" "length ?l = y - x" "length (tensor_slice starts x y) = y - x"
    using assms(4-7) n by auto
  have bt: "?bt ! k = cm_block_table cm ! (nd + x + k)" and lk: "?l ! k = cm_seq_lens cm ! (nd + x + k)"
    and r: "nd + x + k < cm_num_reqs cm" if "k < y - x" for k
    using that assms(4-6) n by (auto simp: nth_slice add.assoc)
  have take_l: "take k ?l = tensor_slice lens x (x + k)" if "k \<le> y - x" for k
    using that by (simp add: tensor_slice_def min_absorb2 min_def)
  have blocks: "cache \<noteq> []" "\<forall>block \<in> set cache. length block = ?bs" using assms(2) by (simp_all add: inputs_ok_def)
  have st: "tensor_slice starts x y ! k = of_nat (sum_list (take k ?l))" if "k < y - x" for k
    using that assms(6-8) take_l [of k] by (simp add: nth_slice)
  have fit: "?l ! k \<le> length (?bt ! k) * ?bs" if "k < y - x" for k
    using assms(2) r [OF that] by (simp add: bt [OF that] lk [OF that] inputs_ok_def)
  note law = gather_lawD [OF assms(1) blocks len(1,2,3) assms(9) [symmetric] st fit]
  have G: "length G = length ws" unfolding assms(11) len(1) by (rule law(1))
  have row: "G ! (sum_list (tensor_slice lens x (x + k)) + i) = up (concat cache ! nat (global_slot ?bt ?bs k (int i)))"
    if "k < y - x" "i < ?l ! k" for k i
    using law(2) [OF _ _ that] that(1) take_l [of k] unfolding assms(11) len(1) by simp
  show "length G = length ws" by (rule G)
  assume ri: "x \<le> r" "r < y" "0 \<le> i" "nat i < lens ! r"
  have k: "r - x < y - x" "x + (r - x) = r" using ri(1,2) by auto
  have at: "lens ! r = cm_seq_lens cm ! (nd + r)" "nd + r < cm_num_reqs cm" using assms(4,6) ri(2) n by auto
  then have "nat i < length (cm_block_table cm ! (nd + r)) * ?bs"
    using assms(2) ri(4) by (auto simp: inputs_ok_def intro: less_le_trans)
  then have slot: "nat (global_slot (cm_block_table cm) ?bs (nd + r) i) < length (concat cache)"
    using assms(2) ri(3) at(2) by (intro slot_in_cache(2)) (auto simp: inputs_ok_def)
  have same: "global_slot ?bt ?bs (r - x) i = global_slot (cm_block_table cm) ?bs (nd + r) i"
    using bt [OF k(1)] k(2) by (simp add: global_slot_def add.assoc)
  have "sum_list (tensor_slice lens x r) + lens ! r \<le> sum_list ?l"
  proof -
    have "sum_list (take (Suc r) lens) \<le> sum_list (take y lens)"
      using assms(6) ri(2) sum_slice [of "Suc r" y lens] by simp
    then show ?thesis
      using sum_slice [of x r lens] sum_slice [of x y lens] assms(6) ri(1,2) by (simp add: take_Suc_conv_app_nth)
  qed
  moreover have "sint (starts ! r) = int (sum_list (tensor_slice lens x r))"
    using calculation assms(8,10) ri(1,2) by (simp add: sint_small)
  ultimately have "selected G (sint (starts ! r) + i) = Some (up (concat cache ! nat (global_slot (cm_block_table cm) ?bs (nd + r) i)))"
    using row [OF k(1), of "nat i"] G assms(9) ri(3,4) lk [OF k(1)] k(2) at same
    by (simp add: selected_def nat_add_distrib add.assoc)
  then show "selected G (sint (starts ! r) + i) =
      map_option up (selected (concat cache) (global_slot (cm_block_table cm) ?bs (nd + r) i))"
    using slot ri(3) by (simp add: selected_def global_slot_def)
qed

text \<open>The reference: attention over the cache itself, by the quantized kernel or on the 16-bit rows.\<close>

definition direct_token ::
  "('q \<Rightarrow> 'c option list \<Rightarrow> 'o) \<Rightarrow> ('q \<Rightarrow> 'w option list \<Rightarrow> 'o) \<Rightarrow> ('c \<Rightarrow> 'w) \<Rightarrow> nat list list \<Rightarrow> nat \<Rightarrow> 'c list list
   \<Rightarrow> nat \<Rightarrow> int list \<Rightarrow> bool \<Rightarrow> 'q \<Rightarrow> 'o" where
  "direct_token att8 att up bt bs cache r is quantized h =
     (if quantized then att8 h (direct_rows bt bs r cache is)
      else att h (map (map_option up) (direct_rows bt bs r cache (take (valid_count is) is))))"

lemma token_between:
  assumes "cm_query_start_loc cm ! a \<le> t" and "t < cm_query_start_loc cm ! b"
  shows "a < b \<Longrightarrow> \<exists>r. a \<le> r \<and> r < b \<and> token_of cm r t"
  using assms
proof (induction b)
  case (Suc b)
  show ?case
  proof (cases "t < cm_query_start_loc cm ! b")
    case True
    with Suc show ?thesis by (cases "a = b") (auto intro: less_SucI)
  next
    case False
    with Suc.prems show ?thesis by (intro exI [of _ b]) (simp add: token_of_def)
  qed
qed simp

lemma attend_chunk_ok:
  fixes K :: "('s, 'p, 'q, 'c, 'w, 'o) kernel_lib"
  assumes "gather_law K up" "sparse_fwd_law I K att" and "batch_ok B cm" "inputs_ok B cm cache topk"
    and "heads_ok I q" "length q = cm_num_actual_tokens cm"
    and "lens = drop nd (cm_seq_lens cm)" "nd + length lens = cm_num_reqs cm" and xy: "x < y" "y \<le> length lens"
    and "length starts = length lens"
    and "\<forall>r. x \<le> r \<and> r < y \<longrightarrow> starts ! r = of_nat (sum_list (tensor_slice lens x r))"
    and "sum_list (tensor_slice lens x y) \<le> length ws" "length ws < 2 ^ 31"
    and ids: "\<forall>r < cm_num_reqs cm. \<forall>t. token_of cm r t \<longrightarrow> ids ! t = r"
    and pids: "\<forall>r < length lens. \<forall>t < cm_num_actual_tokens cm. token_of cm (nd + r) t \<longrightarrow> pids ! t = int r"
    and indices: "indices = map (\<lambda>t. map (converted ids (cm_block_table cm) (bu_block_size B) (Some (pids, starts)) t)
          (topk ! t)) [0..<length topk]"
    and lengths: "lengths = map valid_count topk"
    and "length out = cm_num_actual_tokens cm"
  shows "\<exists>out' ws'. attend_chunk K I cache q indices lengths starts (chunk_of cm nd lens (x, y)) (out, ws) = Inr (out', ws') \<and>
    length out' = cm_num_actual_tokens cm \<and> length ws' = length ws \<and>
    (\<forall>t < cm_num_actual_tokens cm. out' ! t =
       (if cm_query_start_loc cm ! (nd + x) \<le> t \<and> t < cm_query_start_loc cm ! (nd + y)
        then map (direct_token att8 att up (cm_block_table cm) (bu_block_size B) cache (ids ! t) (topk ! t) False) (q ! t)
        else out ! t))"
proof -
  let ?n = "cm_num_actual_tokens cm" and ?bt = "cm_block_table cm" and ?bs = "bu_block_size B"
  let ?tot = "sum_list (tensor_slice lens x y)" and ?a = "cm_query_start_loc cm ! (nd + x)"
    and ?b = "cm_query_start_loc cm ! (nd + y)" and ?cbt = "tensor_slice (cm_block_table cm) (nd + x) (nd + y)"
  define G where "G = gather_upconvert K cache (take ?tot ws) ?cbt (tensor_slice lens x y)
      (tensor_slice starts x y) (length ?cbt)"
  have tk: "length topk = ?n" using assms(4) by (simp add: inputs_ok_def)
  have b: "?b \<le> ?n" "?a \<le> ?b"
    using query_start_mono [OF assms(3), of "nd + y" "cm_num_reqs cm"] batch_ends [OF assms(3)]
      query_start_mono [OF assms(3), of "nd + x" "nd + y"] assms(8) xy by simp_all
  have w: "length (take ?tot ws) = ?tot" "?tot < 2 ^ 31" using assms(13,14) by auto
  note gathered = gathered_rows [OF assms(1,4,3,7) xy assms(11,12) w G_def]
  have G: "length G = ?tot" using gathered(1) w by simp
  have sel: "map (selected G) (take (lengths ! t) (indices ! t)) =
      map (map_option up) (direct_rows ?bt ?bs (ids ! t) cache (take (valid_count (topk ! t)) (topk ! t)))"
    if ab: "?a \<le> t" "t < ?b" for t
  proof -
    obtain r where "nd + x \<le> r" "r < nd + y" "token_of cm r t" using token_between [OF ab] xy by auto
    then obtain k where k: "x \<le> k" "k < y" "token_of cm (nd + k) t" by (intro that [of "r - nd"]) auto
    have t: "t < ?n" "nd + k < cm_num_reqs cm" using ab b assms(8) xy k by auto
    have id: "ids ! t = nd + k" "pids ! t = int k" using ids pids k t assms(8) xy by auto
    have "selected G (converted ids ?bt ?bs (Some (pids, starts)) t i) =
        map_option up (selected (concat cache) (global_slot ?bt ?bs (nd + k) i))" if "i \<in> set (topk ! t)" for i
    proof (cases "0 \<le> i")
      case True
      have "nat i < cm_seq_lens cm ! (nd + k)" using assms(4) that k(3) t(2) True by (fastforce simp: inputs_ok_def)
      then have "nat i < lens ! k" using assms(3,7) t(2) by (simp add: batch_ok_def)
      with gathered(2) [of k i] True k show ?thesis by (simp add: converted_def id)
    qed (simp add: converted_def global_slot_def selected_def id)
    then show ?thesis
      using t tk by (auto simp: indices lengths direct_rows_def id take_map dest: in_set_takeD)
  qed
  let ?ref = "\<lambda>t. map (direct_token att8 att up ?bt ?bs cache (ids ! t) (topk ! t) False) (q ! t)"
  let ?q = "tensor_slice q ?a ?b" and ?i = "tensor_slice indices ?a ?b" and ?l = "tensor_slice lengths ?a ?b"
  have il: "length indices = ?n" "length lengths = ?n" using tk by (simp_all add: indices lengths)
  have lq: "length ?q = ?b - ?a" "length ?i = ?b - ?a" "length ?l = ?b - ?a"
    using b assms(6) il by simp_all
  have "bf16_flash_mla_kernel K I ?q G ?i ?l =
      Inr (map (\<lambda>t. map (\<lambda>h. att h (map (selected G) (take (?l ! t) (?i ! t)))) (?q ! t)) [0..<length ?q])"
    using assms(5) lq by (intro bf16_kernel_ok [OF assms(2)])
      (auto simp: heads_ok_def tensor_slice_def dest!: in_set_takeD in_set_dropD)
  also have "\<dots> = Inr (map (\<lambda>t. ?ref (?a + t)) [0..<?b - ?a])"
    using b lq assms(6) il by (auto simp: nth_slice sel direct_token_def intro!: map_cong)
  finally have k: "bf16_flash_mla_kernel K I ?q G ?i ?l = Inr (map (\<lambda>t. ?ref (?a + t)) [0..<?b - ?a])" .
  have "put_slice out ?a ?b (map (\<lambda>t. ?ref (?a + t)) [0..<?b - ?a]) =
      Inr (map (\<lambda>t. if ?a \<le> t \<and> t < ?b then ?ref t else out ! t) [0..<?n])"
    using b assms(19) by (auto simp: put_slice_def intro!: map_cong)
  with k have "attend_chunk K I cache q indices lengths starts (chunk_of cm nd lens (x, y)) (out, ws) =
      Inr (map (\<lambda>t. if ?a \<le> t \<and> t < ?b then ?ref t else out ! t) [0..<?n], G @ drop ?tot ws)"
    by (simp add: attend_chunk_def chunk_of_def G_def [symmetric] Let_def del: length_slice)
  then show ?thesis using G w by simp
qed


lemma attend_chunks_ok:
  fixes K :: "('s, 'p, 'q, 'c, 'w, 'o) kernel_lib"
  assumes "tiles a m bounds" and m: "m = length lens"
    and "gather_law K up" "sparse_fwd_law I K att" and "batch_ok B cm" "inputs_ok B cm cache topk"
    and "heads_ok I q" "length q = cm_num_actual_tokens cm"
    and "lens = drop nd (cm_seq_lens cm)" "nd + length lens = cm_num_reqs cm" "length starts = length lens"
    and "\<forall>(x, y) \<in> set bounds. \<forall>r. x \<le> r \<and> r < y \<longrightarrow> starts ! r = of_nat (sum_list (tensor_slice lens x r))"
    and "\<forall>(x, y) \<in> set bounds. sum_list (tensor_slice lens x y) \<le> length ws" "length ws < 2 ^ 31"
    and "\<forall>r < cm_num_reqs cm. \<forall>t. token_of cm r t \<longrightarrow> ids ! t = r"
    and "\<forall>r < length lens. \<forall>t < cm_num_actual_tokens cm. token_of cm (nd + r) t \<longrightarrow> pids ! t = int r"
    and "indices = map (\<lambda>t. map (converted ids (cm_block_table cm) (bu_block_size B) (Some (pids, starts)) t)
          (topk ! t)) [0..<length topk]"
    and "lengths = map valid_count topk"
    and "length out = cm_num_actual_tokens cm"
  shows "\<exists>out' ws'. foldE (attend_chunk K I cache q indices lengths starts) (map (chunk_of cm nd lens) bounds) (out, ws)
      = Inr (out', ws') \<and> length out' = cm_num_actual_tokens cm \<and>
    (\<forall>t < cm_num_actual_tokens cm. out' ! t =
       (if cm_query_start_loc cm ! (nd + a) \<le> t
        then map (direct_token att8 att up (cm_block_table cm) (bu_block_size B) cache (ids ! t) (topk ! t) False) (q ! t)
        else out ! t))"
  using assms(1,12,13,14,19)
proof (induction bounds arbitrary: a out ws)
  case Nil
  have "nd + a = cm_num_reqs cm" using Nil(1) m assms(10) by simp
  then show ?case using batch_ends [OF assms(5)] Nil(5) by auto
next
  case (Cons xy bs)
  obtain x y where xy: "xy = (x, y)" by (cases xy)
  with Cons(2) m have t: "x = a" "x < y" "y \<le> length lens" "tiles y m bs" by auto
  have pre: "\<forall>r. x \<le> r \<and> r < y \<longrightarrow> starts ! r = of_nat (sum_list (tensor_slice lens x r))"
    "sum_list (tensor_slice lens x y) \<le> length ws" using Cons(3,4) xy by auto
  from attend_chunk_ok [OF assms(3-10) t(2,3) assms(11) pre Cons(5) assms(15-18) Cons(6), of att8]
  obtain out1 ws1 where s: "attend_chunk K I cache q indices lengths starts (chunk_of cm nd lens (x, y)) (out, ws) = Inr (out1, ws1)"
    "length out1 = cm_num_actual_tokens cm" "length ws1 = length ws"
    and o1: "\<And>t. t < cm_num_actual_tokens cm \<Longrightarrow> out1 ! t =
       (if cm_query_start_loc cm ! (nd + x) \<le> t \<and> t < cm_query_start_loc cm ! (nd + y)
        then map (direct_token att8 att up (cm_block_table cm) (bu_block_size B) cache (ids ! t) (topk ! t) False) (q ! t)
        else out ! t)" by blast
  have "\<forall>(x, y) \<in> set bs. \<forall>r. x \<le> r \<and> r < y \<longrightarrow> starts ! r = of_nat (sum_list (tensor_slice lens x r))"
    "\<forall>(x, y) \<in> set bs. sum_list (tensor_slice lens x y) \<le> length ws1" "length ws1 < 2 ^ 31"
    using Cons(3-5) s(3) by auto
  from Cons.IH [OF t(4) this s(2)]
  obtain out2 ws2 where "foldE (attend_chunk K I cache q indices lengths starts) (map (chunk_of cm nd lens) bs) (out1, ws1)
      = Inr (out2, ws2)" "length out2 = cm_num_actual_tokens cm"
    and o2: "\<And>t. t < cm_num_actual_tokens cm \<Longrightarrow> out2 ! t =
       (if cm_query_start_loc cm ! (nd + y) \<le> t
        then map (direct_token att8 att up (cm_block_table cm) (bu_block_size B) cache (ids ! t) (topk ! t) False) (q ! t)
        else out1 ! t)" by blast
  moreover have "cm_query_start_loc cm ! (nd + x) \<le> cm_query_start_loc cm ! (nd + y)"
    using query_start_mono [OF assms(5), of "nd + x" "nd + y"] t(2,3) assms(10) by simp
  ultimately show ?case using s(1) o1 t(1) by (auto simp: xy)
qed

section \<open>The whole pass\<close>

lemma split_okD:
  assumes "split_ok L cm" and "split_decodes L threshold cm = (nd, np, ndt, npt)"
  shows "nd + np = cm_num_reqs cm" "ndt = cm_query_start_loc cm ! nd" "npt = cm_num_actual_tokens cm - ndt"
    "0 < nd \<Longrightarrow> 0 < ndt" "0 < np \<Longrightarrow> 0 < npt"
    "map_option (drop nd) (cm_seq_lens_cpu_upper_bound cm) = Some (drop nd (cm_seq_lens cm))"
    "0 < nd \<Longrightarrow> ndt = nd * (cm_query_start_loc cm ! 1)"
  using assms(1) [unfolded split_ok_def, THEN spec, of threshold] unfolding assms(2) prod.case by blast+

lemma convert_ok:
  assumes "convert_law K" and "batch_ok B cm" "inputs_ok B cm cache topk"
    and "\<forall>r < cm_num_reqs cm. \<forall>t. token_of cm r t \<longrightarrow> ids ! t = r"
  shows "convert_index K ids (cm_block_table cm) topk (bu_block_size B) workspace =
    (map (\<lambda>t. map (converted ids (cm_block_table cm) (bu_block_size B) workspace t) (topk ! t)) [0..<length topk],
     map valid_count topk)"
proof -
  have "i < 0 \<or> nat i div bu_block_size B < length (cm_block_table cm ! (ids ! t))"
    if t: "t < length topk" and i: "i \<in> set (topk ! t)" for t i
  proof -
    from t assms(3) have "t < cm_num_actual_tokens cm" by (simp add: inputs_ok_def)
    from token_has_request [OF assms(2) this] obtain r where r: "r < cm_num_reqs cm" "token_of cm r t" by blast
    with assms(3) i have "i < 0 \<or> nat i < cm_seq_lens cm ! r"
      "cm_seq_lens cm ! r \<le> length (cm_block_table cm ! r) * bu_block_size B"
      by (auto simp: inputs_ok_def)
    with assms(4) r show ?thesis by (auto intro: less_mult_imp_div_less)
  qed
  with assms(1) show ?thesis by (simp add: convert_law_def list_all_iff)
qed

lemma converted_decode: "pids ! t = -1 \<Longrightarrow> converted ids bt bs (Some (pids, starts)) t = global_slot bt bs (ids ! t)"
  by (simp add: converted_def fun_eq_iff)

lemma converted_None: "converted ids bt bs None t = global_slot bt bs (ids ! t)"
  by (simp add: converted_def fun_eq_iff)

text \<open>Decoding, on the tokens of the decode requests.\<close>

lemma decode_direct:
  assumes "with_kvcache_law K att8" "reshape_law K" and "split_ok L cm" "batch_ok B cm"
    and s: "split_decodes L (decode_threshold B) cm = (nd, np, ndt, npt)" "0 < nd" and "heads_ok I q" "length q = ndt"
    and "length indices = ndt" "sp_num_decodes m = nd" "sp_decode m = Some d"
    and "\<And>t. t < ndt \<Longrightarrow> indices ! t = map (global_slot bt bs (ids ! t)) (topk ! t)"
  shows "fp8_decode K I m cache q indices =
    Inr (map (\<lambda>t. map (direct_token att8 att up bt bs cache (ids ! t) (topk ! t) True) (q ! t)) [0..<ndt])"
proof -
  have "ndt = nd * (cm_query_start_loc cm ! 1)"
    using split_okD(7) [OF assms(3) s(1)] s(2) by simp
  moreover have "im_num_heads I \<le> 128" "\<forall>heads \<in> set q. length heads = im_num_heads I"
    using assms(7) by (simp_all add: heads_ok_def)
  ultimately have "fp8_decode K I m cache q indices =
    Inr (map (\<lambda>t. map (\<lambda>h. att8 h (map (selected (concat cache)) (indices ! t))) (q ! t)) [0..<ndt])"
    using fp8_decode_ok [OF assms(1,2), of I m q "cm_query_start_loc cm ! 1" indices d cache] assms(8-11) s(2) by simp
  also have "\<dots> = Inr (map (\<lambda>t. map (direct_token att8 att up bt bs cache (ids ! t) (topk ! t) True) (q ! t)) [0..<ndt])"
    using assms(12) by (simp add: direct_token_def direct_rows_def comp_def)
  finally show ?thesis .
qed

lemma chunk_fits:
  assumes "bounds_ok L" "batch_ok B cm" "lens = drop nd (cm_seq_lens cm)"
    and "(x, y) \<in> set (split_bounds L lens (get_prefill_workspace_size (bu_max_model_len B)))"
  shows "sum_list (tensor_slice lens x y) \<le> get_prefill_workspace_size (bu_max_model_len B)"
proof (cases "Suc x < y")
  case True
  have "\<forall>(x, y) \<in> set (split_bounds L lens ws). Suc x < y \<longrightarrow> sum_list (tensor_slice lens x y) \<le> ws" for ws
    using assms(1) by (simp add: bounds_ok_def)
  from bspec [OF this assms(4)] True show ?thesis by simp
next
  case False
  have r: "x < y" "y \<le> length lens"
    using tiles_range [OF _ assms(4)] assms(1) by (auto simp: bounds_ok_def)
  with False have y: "y = Suc x" by simp
  with r have "tensor_slice lens x y = [lens ! x]" by (intro nth_equalityI) (auto simp: nth_slice)
  moreover have "lens ! x \<le> bu_max_model_len B"
    using assms(2,3) r by (auto simp: batch_ok_def list_all_length)
  ultimately show ?thesis by (simp add: get_prefill_workspace_size_def)
qed

text \<open>What the split of a batch gives: the decodes come first, and their metadata can be built.\<close>

lemma separate_split:
  assumes "split_ok L cm" "batch_ok B cm" and s: "split_decodes L (decode_threshold B) cm = (nd, np, ndt, npt)"
  shows "nd + np = cm_num_reqs cm" "ndt = cm_query_start_loc cm ! nd" "npt = cm_num_actual_tokens cm - ndt"
    "0 < nd \<Longrightarrow> 0 < ndt" "0 < np \<Longrightarrow> 0 < npt"
    "map_option (drop nd) (cm_seq_lens_cpu_upper_bound cm) = Some (drop nd (cm_seq_lens cm))"
    "ndt \<le> cm_num_actual_tokens cm"
    "\<exists>de. optionally (0 < nd) (build_decode L B cm nd) = Inr de \<and> (0 < nd \<longrightarrow> (\<exists>d. de = Some d))"
proof -
  show sp: "nd + np = cm_num_reqs cm" "ndt = cm_query_start_loc cm ! nd" "npt = cm_num_actual_tokens cm - ndt"
    "0 < nd \<Longrightarrow> 0 < ndt" "0 < np \<Longrightarrow> 0 < npt"
    "map_option (drop nd) (cm_seq_lens_cpu_upper_bound cm) = Some (drop nd (cm_seq_lens cm))"
    using split_okD [OF assms(1) s] by simp_all
  show "ndt \<le> cm_num_actual_tokens cm"
    using query_start_mono [OF assms(2), of nd "cm_num_reqs cm"] batch_ends [OF assms(2)] sp by simp
  have "length (cm_query_start_loc cm) = Suc (cm_num_reqs cm)" using assms(2) by (simp add: batch_ok_def)
  then show "\<exists>de. optionally (0 < nd) (build_decode L B cm nd) = Inr de \<and> (0 < nd \<longrightarrow> (\<exists>d. de = Some d))"
    using sp(1) by (cases "0 < nd") (auto simp: optionally_def build_decode_def)
qed

text \<open>A batch of decodes, and one with prefills.\<close>

lemma forward_decodes_ok:
  fixes K :: "('s, 'p, 'q, 'c, 'w, 'o) kernel_lib"
  assumes laws: "kernel_laws I K att8 att up" and "split_ok L cm" "bounds_ok L" "batch_ok B cm" "inputs_ok B cm cache topk"
    and "heads_ok I q" "length q = cm_num_actual_tokens cm" "0 < cm_num_actual_tokens cm"
    and "length workspace = get_prefill_workspace_size (bu_max_model_len B)" "length workspace < 2 ^ 31"
    and s: "split_decodes L (decode_threshold B) cm = (nd, np, ndt, npt)"
    and ids: "\<forall>r < cm_num_reqs cm. \<forall>t. token_of cm r t \<longrightarrow> ids ! t = r"
    and None: "np = 0"
  shows "\<exists>m. build_separate L B cm = Inr m \<and>
    (\<forall>md. md_fp8_extra md = Some (Separate m) \<and> md_req_id_per_token md = ids \<and> md_block_table md = cm_block_table cm \<and>
       md_block_size md = bu_block_size B \<and> md_num_actual_tokens md = cm_num_actual_tokens cm \<longrightarrow>
       (\<exists>out ws. forward_fp8_separate K I q cache topk md workspace = Inr (out, ws) \<and>
          out = map (\<lambda>t. map (direct_token att8 att up (cm_block_table cm) (bu_block_size B) cache (ids ! t) (topk ! t)
                               (t < ndt)) (q ! t)) [0..<cm_num_actual_tokens cm]))"
proof -
  let ?n = "cm_num_actual_tokens cm" and ?bt = "cm_block_table cm" and ?bs = "bu_block_size B"
  let ?ref = "\<lambda>t. direct_token att8 att up ?bt ?bs cache (ids ! t) (topk ! t)"
  note sp = separate_split [OF assms(2,4) s]
  have q0: "cm_query_start_loc cm ! 0 = 0" using assms(4) by (simp add: batch_ok_def)
  have tk: "length topk = ?n" using assms(5) by (simp add: inputs_ok_def)
  note conv = convert_ok [OF _ assms(4,5) ids, of K]
  have cl: "convert_law K" "with_kvcache_law K att8" "reshape_law K" "gather_law K up" "sparse_fwd_law I K att"
    using laws by (simp_all add: kernel_laws_def)
  from sp(8) obtain de where de: "optionally (0 < nd) (build_decode L B cm nd) = Inr de" "0 < nd \<Longrightarrow> \<exists>d. de = Some d"
    by blast
  have all: "ndt = ?n" using None sp(1,2) batch_ends [OF assms(4)] by simp
  have "nd \<noteq> 0"
  proof
    assume "nd = 0"
    then have "ndt = 0" using sp(2) q0 by simp
    with all assms(8) show False by simp
  qed
  with all sp(3) have nd: "0 < nd" "ndt = ?n" "npt = 0" by simp_all
  then obtain d where d: "de = Some d" using de(2) by auto
  let ?m = "\<lparr>sp_num_prefills = np, sp_num_decodes = nd, sp_num_prefill_tokens = npt, sp_num_decode_tokens = ndt,
               sp_decode = de, sp_prefill = None\<rparr>"
  have "build_separate L B cm = Inr ?m" using None s de(1) by (simp add: build_separate_def optionally_def)
  moreover have "fp8_decode K I ?m cache q (map (\<lambda>t. map (converted ids ?bt ?bs None t) (topk ! t)) [0..<length topk]) =
    Inr (map (\<lambda>t. map (?ref t True) (q ! t)) [0..<ndt])"
    using assms(7) nd tk d
    by (intro decode_direct [OF cl(2,3) assms(2,4) s nd(1) assms(6)]) (auto simp: converted_None)
  ultimately show ?thesis
    using nd d assms(8) conv [OF cl(1), of None] by (auto simp: forward_fp8_separate_def cong: map_cong)
qed

text \<open>The decode tokens of a mixed batch, written into the first rows of the output.\<close>

lemma decode_rows_ok:
  assumes "with_kvcache_law K att8" "reshape_law K" and "split_ok L cm" "batch_ok B cm" "inputs_ok B cm cache topk"
    and "heads_ok I q" "length q = cm_num_actual_tokens cm" "length out0 = cm_num_actual_tokens cm"
    and s: "split_decodes L (decode_threshold B) cm = (nd, np, ndt, npt)"
    and "sp_num_decodes m = nd" "sp_decode m = de" "0 < nd \<Longrightarrow> \<exists>d. de = Some d"
    and pids: "\<forall>t < cm_num_actual_tokens cm. t < ndt \<longrightarrow> pids ! t = -1"
    and idx: "idx = map (\<lambda>t. map (converted ids bt bs (Some (pids, starts)) t) (topk ! t)) [0..<length topk]"
  shows "\<exists>out1. (if 0 < ndt then bindE (fp8_decode K I m cache (take ndt q) (take ndt idx)) (put_slice out0 0 ndt)
        else Inr out0) = Inr out1 \<and> length out1 = cm_num_actual_tokens cm \<and>
      (\<forall>t < ndt. out1 ! t = map (direct_token att8 att up bt bs cache (ids ! t) (topk ! t) True) (q ! t))"
proof (cases "0 < ndt")
  case True
  note sp = separate_split [OF assms(3,4) s]
  have nd: "0 < nd" using True sp(2) assms(4) by (cases "nd = 0") (simp_all add: batch_ok_def)
  with assms(12) obtain d where d: "de = Some d" by auto
  have hq: "heads_ok I (take ndt q)" using assms(6) by (auto simp: heads_ok_def dest: in_set_takeD)
  have tk: "length topk = cm_num_actual_tokens cm" using assms(5) by (simp add: inputs_ok_def)
  have "fp8_decode K I m cache (take ndt q) (take ndt idx) =
      Inr (map (\<lambda>t. map (direct_token att8 att up bt bs cache (ids ! t) (topk ! t) True) (take ndt q ! t)) [0..<ndt])"
    using assms(7,10,11) sp(7) tk d pids
    by (intro decode_direct [OF assms(1,2,3,4) s nd hq]) (auto simp: idx converted_decode)
  then show ?thesis using True sp(7) assms(8) by (simp add: put_slice_def)
qed (use assms(8) in simp)

lemma forward_prefills_ok:
  fixes K :: "('s, 'p, 'q, 'c, 'w, 'o) kernel_lib"
  assumes laws: "kernel_laws I K att8 att up" and "split_ok L cm" "bounds_ok L" "batch_ok B cm" "inputs_ok B cm cache topk"
    and "heads_ok I q" "length q = cm_num_actual_tokens cm" "0 < cm_num_actual_tokens cm"
    and "length workspace = get_prefill_workspace_size (bu_max_model_len B)" "length workspace < 2 ^ 31"
    and s: "split_decodes L (decode_threshold B) cm = (nd, np, ndt, npt)"
    and ids: "\<forall>r < cm_num_reqs cm. \<forall>t. token_of cm r t \<longrightarrow> ids ! t = r"
    and Some: "np \<noteq> 0"
  shows "\<exists>m. build_separate L B cm = Inr m \<and>
    (\<forall>md. md_fp8_extra md = Some (Separate m) \<and> md_req_id_per_token md = ids \<and> md_block_table md = cm_block_table cm \<and>
       md_block_size md = bu_block_size B \<and> md_num_actual_tokens md = cm_num_actual_tokens cm \<longrightarrow>
       (\<exists>out ws. forward_fp8_separate K I q cache topk md workspace = Inr (out, ws) \<and>
          out = map (\<lambda>t. map (direct_token att8 att up (cm_block_table cm) (bu_block_size B) cache (ids ! t) (topk ! t)
                               (t < ndt)) (q ! t)) [0..<cm_num_actual_tokens cm]))"
proof -
  let ?n = "cm_num_actual_tokens cm" and ?bt = "cm_block_table cm" and ?bs = "bu_block_size B"
  let ?ref = "\<lambda>t. direct_token att8 att up ?bt ?bs cache (ids ! t) (topk ! t)"
  note sp = separate_split [OF assms(2,4) s]
  note conv = convert_ok [OF _ assms(4,5) ids, of K]
  have cl: "convert_law K" "with_kvcache_law K att8" "reshape_law K" "gather_law K up" "sparse_fwd_law I K att"
    using laws by (simp_all add: kernel_laws_def)
  from sp(8) obtain de where de: "optionally (0 < nd) (build_decode L B cm nd) = Inr de" "0 < nd \<Longrightarrow> \<exists>d. de = Some d"
    by blast
  have np: "0 < np" "0 < npt" using Some sp(5) by auto
  define lens where "lens = drop nd (cm_seq_lens cm)"
  define bounds where "bounds = split_bounds L lens (get_prefill_workspace_size (bu_max_model_len B))"
  have ll: "nd + length lens = cm_num_reqs cm" "length lens = np"
    using sp(1) assms(4) by (auto simp: lens_def batch_ok_def)
  from build_prefill_ok [OF assms(4,3) sp(1) sp(6) [folded lens_def] lens_def bounds_def]
  obtain pids starts where p: "build_prefill L B cm nd np = Inr \<lparr>pf_seq_lens = lens, pf_request_ids = pids,
      pf_workspace_starts = starts, pf_chunks = map (chunk_of cm nd lens) bounds\<rparr>"
    "\<forall>t < ?n. t < cm_query_start_loc cm ! nd \<longrightarrow> pids ! t = -1"
    "\<forall>r < np. \<forall>t < ?n. token_of cm (nd + r) t \<longrightarrow> pids ! t = int r"
    "length starts = np"
    "\<forall>(x, y) \<in> set bounds. \<forall>r. x \<le> r \<and> r < y \<longrightarrow> starts ! r = of_nat (sum_list (tensor_slice lens x r))"
    by auto
  let ?p = "\<lparr>pf_seq_lens = lens, pf_request_ids = pids, pf_workspace_starts = starts,
                pf_chunks = map (chunk_of cm nd lens) bounds\<rparr>"
  let ?m = "\<lparr>sp_num_prefills = np, sp_num_decodes = nd, sp_num_prefill_tokens = npt, sp_num_decode_tokens = ndt,
                 sp_decode = de, sp_prefill = Some ?p\<rparr>"
  let ?idx = "map (\<lambda>t. map (converted ids ?bt ?bs (Some (pids, starts)) t) (topk ! t)) [0..<length topk]"
  have b: "build_separate L B cm = Inr ?m" using np s de(1) p(1) by (simp add: build_separate_def optionally_def)
  let ?out0 = "replicate ?n (replicate (im_num_heads I) (fresh_out K))"
  obtain out1 where o1: "(if 0 < ndt then bindE (fp8_decode K I ?m cache (take ndt q) (take ndt ?idx)) (put_slice ?out0 0 ndt)
        else Inr ?out0) = Inr out1" "length out1 = ?n" "\<And>t. t < ndt \<Longrightarrow> out1 ! t = map (?ref t True) (q ! t)"
    using decode_rows_ok [OF cl(2,3) assms(2,4-7) length_replicate s _ _ de(2) _ refl,
        of ?m pids ids ?bt ?bs starts "replicate (im_num_heads I) (fresh_out K)" att up] p(2) sp(2) by auto
  have fits: "\<forall>(x, y) \<in> set bounds. sum_list (tensor_slice lens x y) \<le> length workspace"
    using chunk_fits [OF assms(3,4) lens_def] assms(9) by (auto simp: bounds_def)
  have "tiles 0 np bounds" using assms(3) ll(2) by (auto simp: bounds_ok_def bounds_def)
  from attend_chunks_ok [OF this ll(2) [symmetric] cl(4,5) assms(4-7) lens_def ll(1) _ p(5) fits assms(10) ids _ refl refl o1(2),
      of pids att8] p(3,4) ll(2)
  obtain out2 ws2 where o2: "foldE (attend_chunk K I cache q ?idx (map valid_count topk) starts) (map (chunk_of cm nd lens) bounds)
      (out1, workspace) = Inr (out2, ws2)" "length out2 = ?n"
    and at: "\<And>t. t < ?n \<Longrightarrow> out2 ! t = (if ndt \<le> t then map (?ref t False) (q ! t) else out1 ! t)"
    using sp(2) by auto
  have "out2 = map (\<lambda>t. map (?ref t (t < ndt)) (q ! t)) [0..<?n]"
    using o2(2) at o1(3) by (intro nth_equalityI) auto
  moreover have "forward_fp8_separate K I q cache topk md workspace = Inr (out2, ws2)"
    if "md_fp8_extra md = Some (Separate ?m)" "md_req_id_per_token md = ids" "md_block_table md = ?bt"
      "md_block_size md = ?bs" "md_num_actual_tokens md = ?n" for md
    using that np o1(1) o2(1) conv [OF cl(1), of "Some (pids, starts)"]
    by (simp add: forward_fp8_separate_def Let_def)
  ultimately show ?thesis using b by blast
qed

lemma forward_separate_ok:
  fixes K :: "('s, 'p, 'q, 'c, 'w, 'o) kernel_lib"
  assumes laws: "kernel_laws I K att8 att up" and "split_ok L cm" "bounds_ok L" "batch_ok B cm" "inputs_ok B cm cache topk"
    and "heads_ok I q" "length q = cm_num_actual_tokens cm" "0 < cm_num_actual_tokens cm"
    and "length workspace = get_prefill_workspace_size (bu_max_model_len B)" "length workspace < 2 ^ 31"
    and s: "split_decodes L (decode_threshold B) cm = (nd, np, ndt, npt)"
    and ids: "\<forall>r < cm_num_reqs cm. \<forall>t. token_of cm r t \<longrightarrow> ids ! t = r"
  shows "\<exists>m. build_separate L B cm = Inr m \<and>
    (\<forall>md. md_fp8_extra md = Some (Separate m) \<and> md_req_id_per_token md = ids \<and> md_block_table md = cm_block_table cm \<and>
       md_block_size md = bu_block_size B \<and> md_num_actual_tokens md = cm_num_actual_tokens cm \<longrightarrow>
       (\<exists>out ws. forward_fp8_separate K I q cache topk md workspace = Inr (out, ws) \<and>
          out = map (\<lambda>t. map (direct_token att8 att up (cm_block_table cm) (bu_block_size B) cache (ids ! t) (topk ! t)
                               (t < ndt)) (q ! t)) [0..<cm_num_actual_tokens cm]))"
proof (cases "np = 0")
  case True
  then show ?thesis by (rule forward_decodes_ok [OF assms])
next
  case False
  then show ?thesis by (rule forward_prefills_ok [OF assms])
qed

end
