(* ===== verification/FlashProps.thy ===== *)
theory FlashProps
  imports FlashAttention
begin

text \<open>
  The properties of the sparse attention backend: what the builder and the forward pass compute together for
  each kind of cache, and the kind for which they do not fit together.
\<close>

section \<open>The mixed and the unquantized path\<close>

lemma forward_mixed_ok:
  assumes laws: "kernel_laws I K att8 att up" and "batch_ok B cm" "inputs_ok B cm cache topk"
    and "heads_ok I q" "length q = cm_num_actual_tokens cm"
    and ids: "\<forall>r < cm_num_reqs cm. \<forall>t. token_of cm r t \<longrightarrow> ids ! t = r"
    and md: "md_fp8_extra md = Some (MixedBatch km)" "md_req_id_per_token md = ids"
      "md_block_table md = cm_block_table cm" "md_block_size md = bu_block_size B"
  shows "forward_fp8_mixed K I q cache topk md =
    Inr (map (\<lambda>t. map (direct_token att8 att up (cm_block_table cm) (bu_block_size B) cache (ids ! t) (topk ! t) True)
                (q ! t)) [0..<cm_num_actual_tokens cm])"
proof -
  let ?idx = "map (\<lambda>t. map (global_slot (cm_block_table cm) (bu_block_size B) (ids ! t)) (topk ! t)) [0..<length topk]"
  have tk: "length topk = cm_num_actual_tokens cm" using assms(3) by (simp add: inputs_ok_def)
  have "im_num_heads I \<le> 128"
    "list_all2 (\<lambda>row is. length row = length is \<and> (\<forall>heads \<in> set row. length heads = im_num_heads I)) [q] [?idx]"
    using assms(4,5) tk by (simp_all add: heads_ok_def)
  with laws have "fp8_flash_mla_kernel K I [q] cache [?idx] km =
      [map2 (\<lambda>heads is. map (\<lambda>h. att8 h (map (selected (concat cache)) is)) heads) q ?idx]"
    by (subst fp8_kernel_ok) (auto simp: kernel_laws_def)
  moreover have "map2 (\<lambda>heads is. map (\<lambda>h. att8 h (map (selected (concat cache)) is)) heads) q ?idx =
      map (\<lambda>t. map (direct_token att8 att up (cm_block_table cm) (bu_block_size B) cache (ids ! t) (topk ! t) True)
                (q ! t)) [0..<cm_num_actual_tokens cm]"
    using assms(5) tk by (intro nth_equalityI) (auto simp: direct_token_def direct_rows_def comp_def)
  ultimately show ?thesis
    using convert_ok [OF _ assms(2,3) ids, of K None] laws
    by (simp add: forward_fp8_mixed_def md kernel_laws_def converted_None cong: map_cong)
qed

lemma forward_bf16_ok:
  assumes laws: "kernel_laws I K att8 att (bf16_row K)" and "batch_ok B cm" "inputs_ok B cm cache topk"
    and "heads_ok I q" "length q = cm_num_actual_tokens cm"
    and ids: "\<forall>r < cm_num_reqs cm. \<forall>t. token_of cm r t \<longrightarrow> ids ! t = r"
    and md: "md_req_id_per_token md = ids" "md_block_table md = cm_block_table cm" "md_block_size md = bu_block_size B"
  shows "forward_bf16_kv K I q cache topk md =
    Inr (map (\<lambda>t. map (direct_token att8 att (bf16_row K) (cm_block_table cm) (bu_block_size B) cache (ids ! t) (topk ! t)
                         False) (q ! t)) [0..<cm_num_actual_tokens cm])"
proof -
  let ?idx = "map (\<lambda>t. map (global_slot (cm_block_table cm) (bu_block_size B) (ids ! t)) (topk ! t)) [0..<length topk]"
  have tk: "length topk = cm_num_actual_tokens cm" using assms(3) by (simp add: inputs_ok_def)
  have sel: "selected (map (bf16_row K) (concat cache)) i = map_option (bf16_row K) (selected (concat cache) i)" for i
    by (auto simp: selected_def simp flip: map_concat)
  have "bf16_flash_mla_kernel K I q (map (bf16_row K) (concat cache)) ?idx (map valid_count topk) =
      Inr (map (\<lambda>t. map (\<lambda>h. att h (map (selected (map (bf16_row K) (concat cache)))
          (take (map valid_count topk ! t) (?idx ! t)))) (q ! t)) [0..<length q])"
    using assms(4,5) tk laws by (intro bf16_kernel_ok) (auto simp: heads_ok_def kernel_laws_def)
  also have "\<dots> = Inr (map (\<lambda>t. map (direct_token att8 att (bf16_row K) (cm_block_table cm) (bu_block_size B) cache
        (ids ! t) (topk ! t) False) (q ! t)) [0..<cm_num_actual_tokens cm])"
    using assms(5) tk by (auto simp: direct_token_def direct_rows_def sel take_map comp_def simp del: map_concat)
  finally show ?thesis
    using convert_ok [OF _ assms(2,3) ids, of K None] laws
    by (simp add: forward_bf16_kv_def md kernel_laws_def converted_None cong: map_cong)
qed

section \<open>An instance\<close>

text \<open>
  A decode request with one token and two prefills with two and one, on a cache of four blocks of two rows; the
  attention of the instance is the list of the rows it is given, the 16-bit row ten times the quantized one.
\<close>

definition ex_kernel :: "(unit, int, int, int, int, int \<times> int option list) kernel_lib" where
  "ex_kernel = \<lparr>concat_mla_q = map2 (@),
     convert_index = (\<lambda>ids bt topk bs workspace.
       (map (\<lambda>t. map (converted ids bt bs workspace t) (topk ! t)) [0..<length topk], map valid_count topk)),
     gather_upconvert = (\<lambda>cache ws bt lens starts n.
       concat (map (\<lambda>r. map (\<lambda>i. concat cache ! nat (global_slot bt (length (hd cache)) r (int i)) * 10) [0..<lens ! r]) [0..<n])),
     sparse_fwd = (\<lambda>q kv indices lengths.
       map (\<lambda>t. map (\<lambda>h. (h, map (selected kv) (take (lengths ! t) (indices ! t)))) (q ! t)) [0..<length q]),
     with_kvcache = (\<lambda>q cache km indices.
       map2 (map2 (\<lambda>heads is. map (\<lambda>h. (h, map (selected (concat cache)) is)) heads)) q indices),
     reshape_query = (\<lambda>q n. map (\<lambda>i. tensor_slice q (i * (length q div n)) (i * (length q div n) + length q div n)) [0..<n]),
     reshape_output = concat, bf16_row = (\<lambda>c. c * 10), zero_head = 0, fresh_head = 7, fresh_out = (7, [])\<rparr>"

definition ex_builder_lib :: "unit builder_lib" where
  "ex_builder_lib = \<lparr>split_decodes = (\<lambda>_ _. (1, 2, 1, 3)),
     split_bounds = (\<lambda>lens _. map (\<lambda>i. (i, Suc i)) [0..<length lens]), mla_metadata = (\<lambda>_. ())\<rparr>"

definition ex_builder :: builder where
  "ex_builder = \<lparr>bu_num_heads = 32, bu_topk_tokens = 2, bu_cache_dtype = ''fp8_ds_mla'', bu_max_num_seqs = 4,
     bu_max_model_len = 4, bu_max_num_batched_tokens = 8, bu_block_size = 2, bu_reorder_batch_threshold = Some 1\<rparr>"

definition ex_impl :: impl where
  "ex_impl = \<lparr>im_num_heads = 32, im_prefill_padding = 64, im_kv_cache_dtype = ''fp8_ds_mla''\<rparr>"

definition ex_batch :: batch where
  "ex_batch = \<lparr>cm_num_reqs = 3, cm_num_actual_tokens = 4, cm_max_query_len = 2, cm_max_seq_len = 4,
     cm_query_start_loc = [0, 1, 3, 4], cm_seq_lens = [3, 2, 4], cm_seq_lens_cpu_upper_bound = Some [5, 2, 4],
     cm_slot_mapping = [2, 4, 5, 3], cm_block_table = [[0, 1], [2], [3, 1]]\<rparr>"

definition ex_cache :: "int list list" where
  "ex_cache = [[10, 11], [12, 13], [14, 15], [16, 17]]"

definition ex_topk :: "int list list" where
  "ex_topk = [[2, -1], [0, 1], [1, -1], [3, 0]]"

definition ex_q :: "int list list" where
  "ex_q = map (replicate 32) [0, 1, 2, 3]"

lemma ex_gather_law: "gather_law ex_kernel (\<lambda>c. c * 10)"
proof -
  have "length (hd cache) = bs" if "cache \<noteq> []" "\<forall>block \<in> set cache. length block = bs" for cache :: "int list list" and bs
    using that by (cases cache) auto
  then show ?thesis by (simp add: gather_law_def ex_kernel_def concat_rows_at)
qed

lemma ex_kernel_laws: "kernel_laws ex_impl ex_kernel Pair Pair (\<lambda>c. c * 10)"
proof -
  have "reshape_law ex_kernel"
    by (auto simp: reshape_law_def ex_kernel_def)
  then show ?thesis
    using ex_gather_law
    by (simp add: kernel_laws_def convert_law_def sparse_fwd_law_def with_kvcache_law_def) (simp add: ex_kernel_def)
qed

lemma ex_bounds_ok: "bounds_ok ex_builder_lib"
proof -
  have "tiles a (a + k) (map (\<lambda>i. (i, Suc i)) [a..<a + k])" for a k
    by (induction k arbitrary: a) (auto simp: upt_conv_Cons simp flip: add_Suc)
  from this [of 0] show ?thesis by (auto simp: bounds_ok_def ex_builder_lib_def)
qed

lemma ex_batch_ok: "batch_ok ex_builder ex_batch"
  and ex_split_ok: "split_ok ex_builder_lib ex_batch"
  and ex_heads_ok: "heads_ok ex_impl ex_q"
  by (simp_all add: batch_ok_def split_ok_def heads_ok_def ex_builder_def ex_batch_def ex_builder_lib_def ex_impl_def ex_q_def)

lemma ex_inputs_ok: "inputs_ok ex_builder ex_batch ex_cache ex_topk"
  by (auto simp: inputs_ok_def ex_builder_def ex_batch_def ex_cache_def ex_topk_def token_of_def less_Suc_eq numeral_eq_Suc)

section \<open>Properties\<close>

text \<open>
  C32. Building the metadata and running the forward pass on it computes, for every token and head, the attention
  over the rows of the cache that the token's top-k indices name: with the quantized kernel for decode requests
  and in mixed batches, and on the 16-bit rows for prefills, although those went through the workspace chunk by
  chunk at offsets kept in 32 bits.
\<close>

theorem forward_is_direct_attention:
  fixes K :: "('s, 'p, 'q, 'c, 'w, 'o) kernel_lib"
  assumes "kernel_laws I K att8 att up" "split_ok L cm" "bounds_ok L" "batch_ok B cm" "inputs_ok B cm cache topk"
    and "heads_ok I q" "length q = cm_num_actual_tokens cm" "0 < cm_num_actual_tokens cm"
    and init: "make_impl is_quantized is_family_100 (bu_num_heads B) (bu_cache_dtype B) (bu_max_model_len B)
          = Inr (I, Some (length workspace))" and "length workspace < 2 ^ 31"
    and "bu_cache_dtype B = ''fp8_ds_mla''" "take (length q) buffer = topk"
  shows "\<exists>md out ws. build L B cm = Inr md \<and>
    forward_mqa K I (Joined q) cache (Some buffer) md workspace = Inr (out, ws) \<and>
    length out = cm_num_actual_tokens cm \<and>
    (\<forall>r < cm_num_reqs cm. \<forall>t. token_of cm r t \<longrightarrow>
       out ! t = map (direct_token att8 att up (cm_block_table cm) (bu_block_size B) cache r (topk ! t)
                       (use_mixed_batch B \<or> r < fst (split_decodes L (decode_threshold B) cm))) (q ! t))"
proof -
  let ?n = "cm_num_actual_tokens cm"
  have I: "im_kv_cache_dtype I = ''fp8_ds_mla''" and ws: "length workspace = get_prefill_workspace_size (bu_max_model_len B)"
    using init assms(11) by (auto simp: make_impl_def exc_simps split: if_splits)
  obtain ids where i: "req_id_per_token B cm = Inr ids" and ids: "\<forall>r < cm_num_reqs cm. \<forall>t. token_of cm r t \<longrightarrow> ids ! t = r"
    using req_ids_ok [OF assms(4)] by blast
  have tn: "t < ?n" if "r < cm_num_reqs cm" "token_of cm r t" for r t
    using that query_start_mono [OF assms(4), of "Suc r" "cm_num_reqs cm"] batch_ends [OF assms(4)]
    by (simp add: token_of_def)
  show ?thesis
  proof (cases "use_mixed_batch B")
    case True
    with i assms(11) obtain md where md: "build L B cm = Inr md" "md_fp8_extra md = Some (MixedBatch (build_mixed L B cm))"
      "md_req_id_per_token md = ids" "md_block_table md = cm_block_table cm" "md_block_size md = bu_block_size B"
      "md_fp8_use_mixed_batch md"
      by (simp add: build_def optionally_def)
    from forward_mixed_ok [OF assms(1,4,5,6,7) ids md(2-5)] md(1,6) assms(12) I True tn ids show ?thesis
      by (simp add: forward_mqa_def)
  next
    case False
    obtain nd np ndt npt where s: "split_decodes L (decode_threshold B) cm = (nd, np, ndt, npt)" by (metis prod_cases4)
    from forward_separate_ok [OF assms(1-8) ws assms(10) s ids] obtain m where m: "build_separate L B cm = Inr m"
      and f: "\<And>md. md_fp8_extra md = Some (Separate m) \<Longrightarrow> md_req_id_per_token md = ids \<Longrightarrow>
        md_block_table md = cm_block_table cm \<Longrightarrow> md_block_size md = bu_block_size B \<Longrightarrow>
        md_num_actual_tokens md = ?n \<Longrightarrow>
        \<exists>ws. forward_fp8_separate K I q cache topk md workspace =
          Inr (map (\<lambda>t. map (direct_token att8 att up (cm_block_table cm) (bu_block_size B) cache (ids ! t) (topk ! t)
                               (t < ndt)) (q ! t)) [0..<?n], ws)" by auto
    from i m False assms(11) obtain md where md: "build L B cm = Inr md" "md_fp8_extra md = Some (Separate m)"
      "md_req_id_per_token md = ids" "md_block_table md = cm_block_table cm" "md_block_size md = bu_block_size B"
      "md_num_actual_tokens md = ?n" "\<not> md_fp8_use_mixed_batch md"
      by (simp add: build_def optionally_def)
    have "(t < ndt) = (r < nd)" if "r < cm_num_reqs cm" "token_of cm r t" for r t
      using that query_start_mono [OF assms(4), of "Suc r" nd] query_start_mono [OF assms(4), of nd r]
        split_okD(1,2) [OF assms(2) s] by (cases "r < nd") (auto simp: token_of_def)
    with f [OF md(2-6)] md(1,7) assms(12) I False tn ids s show ?thesis
      by (auto simp: forward_mqa_def)
  qed
qed

theorem forward_is_direct_attention_witness:
  "\<exists>md out ws. build ex_builder_lib ex_builder ex_batch = Inr md \<and>
     forward_mqa ex_kernel ex_impl (Joined ex_q) ex_cache (Some ex_topk) md (replicate 20 0) = Inr (out, ws) \<and>
     out ! 0 = replicate 32 (0, [Some 12, None]) \<and> out ! 3 = replicate 32 (3, [Some 130, Some 160])"
proof -
  have "0 < cm_num_actual_tokens ex_batch" "length ex_q = cm_num_actual_tokens ex_batch"
    "make_impl (\<lambda>_. True) False (bu_num_heads ex_builder) (bu_cache_dtype ex_builder) (bu_max_model_len ex_builder)
       = Inr (ex_impl, Some (length (replicate 20 (0::int))))"
    "length (replicate 20 (0::int)) < 2 ^ 31"
    "bu_cache_dtype ex_builder = ''fp8_ds_mla''" "take (length ex_q) ex_topk = ex_topk"
    by (simp_all add: make_impl_def prefill_padding_def ex_batch_def ex_builder_def ex_impl_def ex_q_def ex_topk_def get_prefill_workspace_size_def)
  from forward_is_direct_attention [OF ex_kernel_laws ex_split_ok ex_bounds_ok ex_batch_ok ex_inputs_ok ex_heads_ok
      this(2,1,3,4,5,6)]
  obtain md out ws where r: "build ex_builder_lib ex_builder ex_batch = Inr md"
    "forward_mqa ex_kernel ex_impl (Joined ex_q) ex_cache (Some ex_topk) md (replicate 20 0) = Inr (out, ws)"
    and o: "\<And>r t. r < 3 \<Longrightarrow> token_of ex_batch r t \<Longrightarrow>
      out ! t = map (direct_token Pair Pair (\<lambda>c. c * 10) (cm_block_table ex_batch) 2 ex_cache r (ex_topk ! t)
                       (use_mixed_batch ex_builder \<or> r < 1)) (ex_q ! t)"
    by (auto simp: ex_batch_def ex_builder_def ex_builder_lib_def)
  have t: "token_of ex_batch 0 0" "token_of ex_batch 2 3" by (simp_all add: token_of_def ex_batch_def)
  have "\<not> use_mixed_batch ex_builder" by (simp add: use_mixed_batch_def ex_builder_def MIN_HEADS_FOR_BF16_PREFILL_def)
  with o [OF _ t(1)] o [OF _ t(2)] have "out ! 0 = replicate 32 (0, [Some 12, None])"
    "out ! 3 = replicate 32 (3, [Some 130, Some 160])"
    by (simp_all add: direct_token_def direct_rows_def selected_def global_slot_def valid_count_def
        ex_batch_def ex_cache_def ex_topk_def ex_q_def upt_rec_numeral)
  with r show ?thesis by blast
qed

text \<open>
  C33. The implementation treats \<open>nvfp4_ds_mla\<close> as a quantized cache like \<open>fp8_ds_mla\<close>, but the builder only
  makes the metadata for the latter: every forward pass over an \<open>nvfp4_ds_mla\<close> cache fails an assertion.
\<close>

theorem nvfp4_cache_asserts:
  assumes "build L B cm = Inr md" and "bu_cache_dtype B = ''nvfp4_ds_mla''"
    and "make_impl is_quantized is_family_100 num_heads (bu_cache_dtype B) max_model_len = Inr (I, rows)"
  shows "forward_mqa K I query cache topk_indices_buffer md workspace = Inl AssertionError"
proof -
  have "md_fp8_extra md = None"
    using assms(1,2) by (auto simp: build_def optionally_def exc_simps)
  moreover have "im_kv_cache_dtype I = ''nvfp4_ds_mla''"
    using assms(2,3) by (auto simp: make_impl_def exc_simps split: if_splits)
  ultimately show ?thesis
    by (auto simp: forward_mqa_def forward_fp8_mixed_def forward_fp8_separate_def Let_def split: option.splits prod.splits)
qed

theorem nvfp4_cache_asserts_witness:
  "\<exists>md I. build ex_builder_lib (ex_builder\<lparr>bu_cache_dtype := ''nvfp4_ds_mla''\<rparr>) ex_batch = Inr md \<and>
     make_impl (\<lambda>_. True) False 32 ''nvfp4_ds_mla'' 4 = Inr (I, Some 20) \<and>
     forward_mqa ex_kernel I (Joined ex_q) ex_cache (Some ex_topk) md (replicate 20 0) = Inl AssertionError"
proof -
  let ?B = "ex_builder\<lparr>bu_cache_dtype := ''nvfp4_ds_mla''\<rparr>"
  have "batch_ok ?B ex_batch" using ex_batch_ok by (simp add: batch_ok_def ex_builder_def)
  from req_ids_ok [OF this] obtain ids where "req_id_per_token ?B ex_batch = Inr ids" by blast
  then obtain md where md: "build ex_builder_lib ?B ex_batch = Inr md" by (simp add: build_def optionally_def)
  have I: "make_impl (\<lambda>_. True) False 32 (bu_cache_dtype ?B) 4
      = Inr (\<lparr>im_num_heads = 32, im_prefill_padding = 64, im_kv_cache_dtype = ''nvfp4_ds_mla''\<rparr>, Some 20)"
    by (simp add: make_impl_def prefill_padding_def get_prefill_workspace_size_def)
  from nvfp4_cache_asserts [OF md _ I] md I show ?thesis by auto
qed

end
