(* ===== verification/FlashBackend.thy ===== *)
theory FlashBackend
  imports FlashForward
begin

text \<open>
  \<open>flashmla_sparse.py\<close>: what the backend declares, and the buffers the constructors of the builder and of the
  implementation make.
\<close>

section \<open>The backend\<close>

definition supported_kv_cache_dtypes :: "string list" where
  "supported_kv_cache_dtypes = [''auto'', ''bfloat16'', ''fp8_ds_mla'', ''nvfp4_ds_mla'', ''fp8'']"

definition supported_kernel_block_sizes :: "nat list" where
  "supported_kernel_block_sizes = [64]"

definition supported_head_sizes :: "nat list" where
  "supported_head_sizes = [576]"

definition supports_compute_capability :: "nat \<Rightarrow> bool" where
  "supports_compute_capability major \<longleftrightarrow> major \<in> {9, 10}"

definition kv_cache_shape :: "nat \<Rightarrow> nat \<Rightarrow> nat \<Rightarrow> nat \<Rightarrow> string \<Rightarrow> nat \<times> nat \<times> nat" where
  "kv_cache_shape num_blocks block_size num_kv_heads head_size cache_dtype =
     (if cache_dtype = ''fp8_ds_mla'' then (num_blocks, block_size, 656) else (num_blocks, block_size, head_size))"

text \<open>
  The bytes of a token in the quantized format: 512 quantized values, four 32-bit scales and 64 values of 16 bits;
  an \<open>nvfp4_ds_mla\<close> cache gets the shape of an unquantized one.
\<close>

lemma kv_cache_shape_facts:
  "kv_cache_shape n bs h 576 ''fp8_ds_mla'' = (n, bs, 512 + 4 * 4 + 64 * 2)"
  "kv_cache_shape n bs h d ''nvfp4_ds_mla'' = kv_cache_shape n bs h d ''auto''"
  by (simp_all add: kv_cache_shape_def)

section \<open>The constructor of the builder\<close>

text \<open>
  The fields of vLLM's configuration it reads. \<open>fc_reorder_batch_threshold\<close> is what
  \<open>_init_reorder_batch_threshold\<close> sets, \<open>fc_sm_count\<close> the number of the device's compute units.
\<close>

record flash_config =
  fc_num_attention_heads :: nat
  fc_index_topk :: nat
  fc_cache_dtype :: string
  fc_max_num_seqs :: nat
  fc_max_model_len :: nat
  fc_max_num_batched_tokens :: nat
  fc_block_size :: nat
  fc_reorder_batch_threshold :: "nat option"
  fc_sm_count :: nat
  fc_is_family_100 :: bool

definition max_num_sm_parts :: "bool \<Rightarrow> nat \<Rightarrow> nat \<Rightarrow> nat" where
  "max_num_sm_parts is_family_100 sm_count h_q =
     (if is_family_100 then sm_count else sm_count div max 1 (h_q div 64))"

text \<open>The sizes of the buffers that vLLM's metadata of the decode kernel is copied to, and of the others.\<close>

record builder_buffers =
  bb_topk_tokens :: "nat list"
  bb_max_model_len :: "nat list"
  bb_dummy_block_table :: "nat \<times> nat"
  bb_tile_scheduler_metadata :: "nat \<times> nat"
  bb_num_splits :: nat
  bb_req_id_per_token :: nat

definition make_builder :: "flash_config \<Rightarrow> builder \<times> builder_buffers" where
  "make_builder vc =
     (let B = \<lparr>bu_num_heads = fc_num_attention_heads vc, bu_topk_tokens = fc_index_topk vc,
               bu_cache_dtype = fc_cache_dtype vc, bu_max_num_seqs = fc_max_num_seqs vc,
               bu_max_model_len = fc_max_model_len vc, bu_max_num_batched_tokens = fc_max_num_batched_tokens vc,
               bu_block_size = fc_block_size vc, bu_reorder_batch_threshold = fc_reorder_batch_threshold vc\<rparr>;
          h_q = fp8_decode_padded_heads (bu_num_heads B)
      in (B, \<lparr>bb_topk_tokens = topk_tokens_tensor B, bb_max_model_len = max_model_len_tensor B,
              bb_dummy_block_table = (fc_max_num_seqs vc, 1),
              bb_tile_scheduler_metadata = (max_num_sm_parts (fc_is_family_100 vc) (fc_sm_count vc) h_q, 8),
              bb_num_splits = fc_max_num_seqs vc + 1,
              bb_req_id_per_token = fc_max_num_batched_tokens vc\<rparr>))"

text \<open>The number of parts: at most the compute units, on the older family half of them for padding to 128 heads.\<close>

lemma max_num_sm_parts_facts:
  "max_num_sm_parts fam n (fp8_decode_padded_heads h) \<le> n"
  "max_num_sm_parts False n (fp8_decode_padded_heads h) = (if h \<le> 64 then n else n div 2)"
  "2 \<le> n \<Longrightarrow> 0 < max_num_sm_parts fam n (fp8_decode_padded_heads h)"
  by (simp_all add: max_num_sm_parts_def fp8_decode_padded_heads_def)

text \<open>
  The buffers are large enough: a batch of at most the maximal number of requests gets a row, a length and a number
  of candidates for every decode request, and every token its request id.
\<close>

lemma builder_buffers_suffice:
  assumes "make_builder vc = (B, bufs)" and "num_decodes \<le> fc_max_num_seqs vc"
    and "build_decode L B cm num_decodes = Inr d"
  shows "length (km_cache_lens (de_kernel d)) = num_decodes" and "km_dummy_rows (de_kernel d) = num_decodes"
    and "num_decodes + 1 \<le> bb_num_splits bufs"
    and "set (km_cache_lens (de_kernel d)) \<subseteq> {fc_max_model_len vc}"
  using assms
  by (auto simp: make_builder_def Let_def build_decode_def max_model_len_tensor_def exc_simps split: sum.splits
      dest: in_set_takeD)

lemma req_ids_fit:
  assumes "make_builder vc = (B, bufs)" and "req_id_per_token B cm = Inr ids"
  shows "length ids \<le> bb_req_id_per_token bufs"
  using assms by (auto simp: make_builder_def Let_def req_id_per_token_def split: if_splits)

section \<open>The buffers of the implementation\<close>

text \<open>An indexer carries the buffer of top-k indices; without one it is the buffer that was passed.\<close>

definition topk_buffer_of :: "'a option option \<Rightarrow> 'a option \<Rightarrow> 'a option" where
  "topk_buffer_of indexer topk_indices_buffer =
     (case indexer of Some buffer \<Rightarrow> buffer | None \<Rightarrow> topk_indices_buffer)"

text \<open>The shapes asked of the workspace manager: the joined queries and, for a quantized cache, the workspace.\<close>

definition workspace_shapes :: "flash_config \<Rightarrow> nat \<Rightarrow> nat list list" where
  "workspace_shapes vc head_size =
     [fc_max_num_batched_tokens vc, fc_num_attention_heads vc, head_size]
     # (if fc_cache_dtype vc \<in> {''fp8_ds_mla'', ''nvfp4_ds_mla''}
        then [[get_prefill_workspace_size (fc_max_model_len vc), head_size]] else [])"

text \<open>
  A prefill of any request fits into the workspace alone, so the chunks of the builder can always hold one.
\<close>

lemma workspace_holds_a_request:
  assumes "make_impl is_quantized fam (fc_num_attention_heads vc) (fc_cache_dtype vc) (fc_max_model_len vc)
      = Inr (I, Some rows)"
    and "n \<le> fc_max_model_len vc"
  shows "n \<le> rows" and "[rows, head_size] \<in> set (workspace_shapes vc head_size)"
  using assms by (auto simp: make_impl_def workspace_shapes_def get_prefill_workspace_size_def exc_simps split: if_splits)

text \<open>The builder and the implementation pad the queries to the same number of heads.\<close>

lemma padded_heads_agree:
  assumes "make_builder vc = (B, bufs)"
    and "make_impl is_quantized fam (fc_num_attention_heads vc) dtype max_len = Inr (I, rows)"
  shows "fp8_decode_padded_heads (bu_num_heads B) = fp8_decode_padded_heads (im_num_heads I)"
  using assms by (auto simp: make_builder_def make_impl_def Let_def exc_simps split: if_splits)

end
