(* ===== verification/Spec2Isabelle.thy ===== *)
theory Spec2Isabelle
  imports EncProps SchedProps SchedQueueProps SchedTokenProps SchedUpdateProps SchedProgress SchedMachine SchedReport
    PatchIndexer PatchGrammar PatchVideo PatchProps
    PatchStops PatchDrafter PatchGeometry FlashProps FlashBackend
begin

text \<open>
  The Python code that the agent lays over the inference engine vLLM when it deploys a model, modelled and verified.
  It comes in two overlays: \<open>src/deploy/overlays/dspark\<close> replaces whole modules of vLLM, and
  \<open>src/deploy/overlays/glm53\<close> holds scripts that rewrite installed modules when an image is built.

  \<^bold>\<open>The parts and how they interact.\<close> The chat encoder (\<open>deepseek_v4_encoding.py\<close>) turns a conversation into the
  prompt of a model and the model's completion back into a message. The scheduler (\<open>scheduler.py\<close>) decides in every
  step which requests compute how many tokens, hands the step to the model runner, and takes its results back; the
  engine core calls its methods in any order. The attention backend (\<open>flashmla_sparse.py\<close>) builds the metadata of
  the batch the scheduler formed and runs the sparse attention on it. The scripts change parts of the same engine:
  two of them the scheduler and its prefix cache, one the sizes of the indexer's workspace, one the mapping of
  positions to cache slots, one the grammar backend that the scheduler asks to accept tokens, one the detokenizer's
  stop strings, one the layout of the KV cache for a drafter, one the placeholders of videos and one a spin window.

  \<^bold>\<open>Shared theories.\<close> \<open>Prelude\<close> has Python strings as lists of code points with their substring operations,
  exceptions as the values of \<open>pyexc\<close> in the sum type \<open>res\<close> with \<open>bindE\<close>, \<open>assertE\<close> and \<open>foldE\<close>, and
  dictionaries as association lists in insertion order. \<open>PyJson\<close> and \<open>PyJsonAppend\<close> have \<open>json.dumps\<close> and
  \<open>json.loads\<close> with the round trip between them and the composition of texts. \<open>Machines\<close> has the locales for
  invariants of a step relation, \<open>PatchText\<close> the locales for scripts that recognise their own result.

  \<^bold>\<open>The encoder.\<close> \<open>EncTokens\<close>, \<open>EncRender\<close> and \<open>EncPreprocess\<close> model the tokens and tool schemas,
  \<open>render_message\<close> and the passes of \<open>encode_messages\<close>; \<open>EncParse\<close> the parser. Regular expressions are the
  functions they denote. \<open>EncStops\<close>, \<open>EncRoundtrip\<close>, \<open>EncTypes\<close>, \<open>EncFacts\<close> and \<open>EncTurns\<close> have the lemmas:
  where the first stop string is, that the parser inverts the renderer, that arguments are JSON, what the passes
  keep, and that conversations of text encode. \<open>EncProps\<close> states the properties.

  \<^bold>\<open>The scheduler.\<close> \<open>SchedTypes\<close> has its state (the record \<open>sched\<close>: request ids in \<open>running\<close> and the two
  queues, the request objects in \<open>store\<close>, and \<open>world\<close> for the state of all objects of vLLM), its configuration
  and the records of functions that stand for vLLM's objects; \<open>SchedInit\<close> the constructor and the statistics. The
  operations follow the file: \<open>SchedQueues\<close> and \<open>SchedBlocks\<close> (queues, sessions, freeing, finishing, resets),
  \<open>SchedRun\<close> and \<open>SchedWait\<close> (the two loops of \<open>schedule\<close>), \<open>SchedAlign\<close> (block-aligned chunks),
  \<open>SchedOutput\<close> and \<open>SchedStep\<close> (the output of a step, encoder inputs and the whole of \<open>schedule\<close>),
  \<open>SchedUpdate\<close> (\<open>update_from_output\<close> with failed loads and KV transfers) and \<open>SchedReport\<close> (what it
  reports beside the results). \<open>SchedInv\<close> defines the invariant \<open>sched_ok\<close>: every live request is in exactly one
  of \<open>running\<close> and the queues, with a status that fits. \<open>SchedAdmit\<close>, \<open>SchedQueueFacts\<close>,
  \<open>SchedOutFacts\<close> and \<open>SchedUpdateFacts\<close> prove that each operation keeps it; \<open>SchedMachine\<close> makes the calls a
  step relation and proves the invariant for all reachable states. \<open>SchedProps\<close>, \<open>SchedQueueProps\<close>,
  \<open>SchedTokenProps\<close>, \<open>SchedUpdateProps\<close> and \<open>SchedProgress\<close> state the other properties. \<open>SchedExample\<close> is a
  small instance of vLLM's objects in which the hypotheses hold.

  \<^bold>\<open>The attention backend.\<close> \<open>FlashMeta\<close> models the metadata builder, \<open>FlashForward\<close> the forward pass on its
  three paths, \<open>FlashBackend\<close> the declarations and the constructors' buffers. \<open>FlashFacts\<close> and
  \<open>FlashAttention\<close> relate both to the attention over the cache rows that the indices of a token name, and
  \<open>FlashProps\<close> states that they agree. Workspace offsets are 32-bit words, as in the tensors.

  \<^bold>\<open>The scripts.\<close> Texts of the scripts are lists of their lines. \<open>PatchText\<close> has replacement in texts made of
  lines and the main programs with every way writing can fail, \<open>PatchMarks\<close> anchored edits and markers. One or two
  theories per script hold its texts, its \<open>prepare\<close> and the behaviour of the code it installs: \<open>PatchKpool\<close>
  (slot clamp), \<open>PatchSites\<close> and \<open>PatchIndexer\<close> (indexer workspace; also the texts of the grammar patch),
  \<open>PatchGrammar\<close> (termination of grammars), \<open>PatchSpin\<close>, \<open>PatchFloor\<close> (decode floor), \<open>PatchHybrid\<close>
  (prefix hits with a drafter), \<open>PatchStops\<close> (stop strings in reasoning), \<open>PatchVideo\<close> and
  \<open>PatchVideoInstall\<close>, \<open>PatchDrafterText\<close>, \<open>PatchDrafter\<close> and \<open>PatchGeometry\<close> (the drafter's group).
  \<open>PatchProps\<close> states what holds of the scripts together.

  \<^bold>\<open>Termination and fuel.\<close> Loops are structural or have a measure, except the admission loop \<open>wait_loop\<close>, which
  takes a unit of fuel per queued request and one more, and the JSON reader, whose depth is bounded by twice the
  length of the text. \<open>schedule_terminates\<close> and \<open>json_loads_fuel\<close> show that this is enough, so the value
  \<open>FuelExhausted\<close> never occurs.

  \<^bold>\<open>What is assumed.\<close> Code of vLLM, of the tokenizer and of the GPU is a parameter: a record of functions on the
  state \<open>world\<close>. The laws the code relies on are named: \<open>queue_laws\<close> (a queue holds what was put in and not
  taken out), \<open>window_ok\<close> (the multimodal items in a window start before its end), \<open>stop_ok\<close> (only a stop changes the status of a request, to a finished one), \<open>sizes_ok\<close> (the first two and a positive block size),
  \<open>matcher_laws\<close> (rolling a grammar back undoes acceptance), \<open>kernel_laws\<close>, \<open>split_ok\<close> and
  \<open>bounds_ok\<close> (kernels attend to the rows they are given, batches are split where decodes end, chunks tile the
  prefills), \<open>page_laws\<close> (the page of a spec is proportional to its block); \<open>compiles\<close> and \<open>parses\<close> are
  Python's own judgement of a text. Each property that uses one has a witness with concrete functions. Request objects
  that Python shares by reference are ids into \<open>store\<close>; a set is a set, so nothing depends on its order.

  \<^bold>\<open>Not modelled.\<close> The agent in Elixir and the shell scripts, which start processes and speak HTTP. Of the scheduler:
  log lines, trace headers, timestamps and lifecycle events, log-probabilities and NaN counts, which pass through
  unchanged, the grammar bitmask, made by vLLM, and \<open>shutdown\<close>, which only calls vLLM's objects. Of the scripts:
  printing, argument parsing by \<open>argparse\<close>, and the removal of compiled files. Floating-point seconds of videos are
  abstract values; a float of JSON is its text. Digits of other scripts in \<open>int\<close> and Python's limit on the digits
  of an integer in JSON are not distinguished.
\<close>

end
